(* ===== verification/Prelude.thy ===== *)
theory Prelude
  imports Main "HOL-Library.AList" "HOL-Library.Multiset" "HOL-Library.Word"
begin

text \<open>
  What every component shares. Go's machine integers are \<^typ>\<open>int\<close> with the wrap-around
  written out (\<open>wrap64\<close>, \<open>wrap32\<close>) and Go's truncating division (\<open>go_div\<close>, \<open>go_mod\<close>).
  A Go map is an association list with distinct keys (\<open>gomap\<close>); the order in which
  \<open>range\<close> visits it is left open by the language, so an operation whose outcome depends on it
  takes an \<open>ord\<close> argument, of which only \<open>range_ok\<close> (it permutes the entries) is ever assumed.
  \<open>itoa\<close> is the \<open>%d\<close> of \<open>fmt.Sprintf\<close>. An operation that may fail returns an \<open>outcome\<close>: a value,
  an error value, a run-time panic, or a wait for a lock that is never released.
\<close>

named_theorems gomap_simps \<open>rewriting of map updates, deletions and their sums\<close>
named_theorems inv_intros \<open>preservation of component invariants\<close>

section \<open>Outcomes\<close>

datatype ('e, 'a) outcome = Ok 'a | Err 'e | Panic | Blocked

fun is_ok :: "('e, 'a) outcome \<Rightarrow> bool" where
  "is_ok (Ok _) = True"
| "is_ok _ = False"

fun is_err :: "('e, 'a) outcome \<Rightarrow> bool" where
  "is_err (Err _) = True"
| "is_err _ = False"

lemma is_ok_iff: "is_ok r \<longleftrightarrow> (\<exists>x. r = Ok x)"
  by (cases r) auto

lemma is_err_iff: "is_err r \<longleftrightarrow> (\<exists>e. r = Err e)"
  by (cases r) auto

section \<open>Machine integers\<close>

definition wrap64 :: "int \<Rightarrow> int" where
  "wrap64 x = (x + 2 ^ 63) mod 2 ^ 64 - 2 ^ 63"

definition wrap32 :: "int \<Rightarrow> int" where
  "wrap32 x = (x + 2 ^ 31) mod 2 ^ 32 - 2 ^ 31"

text \<open>Go's \<open>/\<close> and \<open>%\<close> on integers truncate towards zero.\<close>

definition go_div :: "int \<Rightarrow> int \<Rightarrow> int" where
  "go_div a b = sgn a * sgn b * (\<bar>a\<bar> div \<bar>b\<bar>)"

definition go_mod :: "int \<Rightarrow> int \<Rightarrow> int" where
  "go_mod a b = a - b * go_div a b"

lemma wrap64_range: "- (2 ^ 63) \<le> wrap64 x \<and> wrap64 x < 2 ^ 63"
  by (simp add: wrap64_def)

lemma wrap64_id: "- (2 ^ 63) \<le> x \<Longrightarrow> x < 2 ^ 63 \<Longrightarrow> wrap64 x = x"
  by (simp add: wrap64_def)

lemma wrap32_id: "- (2 ^ 31) \<le> x \<Longrightarrow> x < 2 ^ 31 \<Longrightarrow> wrap32 x = x"
  by (simp add: wrap32_def)

lemma wrap64_0 [simp]: "wrap64 0 = 0"
  by (simp add: wrap64_def)

lemma wrap64_add_left [simp]: "wrap64 (wrap64 a + b) = wrap64 (a + b)"
proof -
  have "((a + 2 ^ 63) mod 2 ^ 64 + b) mod 2 ^ 64 = (a + 2 ^ 63 + b) mod (2 ^ 64 :: int)"
    by (rule mod_add_left_eq)
  moreover have "wrap64 a + b + 2 ^ 63 = (a + 2 ^ 63) mod 2 ^ 64 + b"
    unfolding wrap64_def by linarith
  ultimately have "(wrap64 a + b + 2 ^ 63) mod 2 ^ 64 = (a + 2 ^ 63 + b) mod 2 ^ 64"
    by (simp only:)
  then show ?thesis unfolding wrap64_def [of "wrap64 a + b"] wrap64_def [of "a + b"]
    by (simp add: algebra_simps)
qed

lemma wrap64_add_right [simp]: "wrap64 (a + wrap64 b) = wrap64 (a + b)"
  using wrap64_add_left [of b a] by (simp add: add.commute)

lemma wrap64_diff_left [simp]: "wrap64 (wrap64 a - b) = wrap64 (a - b)"
  using wrap64_add_left [of a "- b"] by simp

lemma wrap64_idem [simp]: "wrap64 (wrap64 a) = wrap64 a"
  using wrap64_add_left [of a 0] by simp

text \<open>The written-out wrap-around is the two's complement reading of a 64-bit word.\<close>

lemma wrap64_sint: "wrap64 x = sint (word_of_int x :: 64 word)"
proof -
  have "sint (word_of_int x :: 64 word) = signed_take_bit 63 x"
    by (simp add: sint_sbintrunc')
  also have "\<dots> = (x + 2 ^ 63) mod 2 ^ 64 - 2 ^ 63"
    by (simp add: signed_take_bit_eq_take_bit_shift take_bit_eq_mod)
  finally show ?thesis by (simp add: wrap64_def)
qed

lemma go_div_nonneg: "0 \<le> a \<Longrightarrow> 0 < b \<Longrightarrow> go_div a b = a div b"
  by (cases "a = 0") (auto simp: go_div_def)

lemma go_mod_nonneg: "0 \<le> a \<Longrightarrow> 0 < b \<Longrightarrow> go_mod a b = a mod b"
  by (simp add: go_mod_def go_div_nonneg minus_mult_div_eq_mod)

section \<open>Decimal printing\<close>

definition digit_char :: "nat \<Rightarrow> char" where
  "digit_char d = ''0123456789'' ! d"

fun digits :: "nat \<Rightarrow> string" where
  "digits n = (if n < 10 then [digit_char n] else digits (n div 10) @ [digit_char (n mod 10)])"

declare digits.simps [simp del]

definition itoa :: "int \<Rightarrow> string" where
  "itoa n = (if n < 0 then CHR ''-'' # digits (nat (- n)) else digits (nat n))"

lemma digit_char_inj: "a < 10 \<Longrightarrow> b < 10 \<Longrightarrow> digit_char a = digit_char b \<Longrightarrow> a = b"
proof -
  have d: "distinct ''0123456789''" by simp
  assume "a < 10" "b < 10" "digit_char a = digit_char b"
  then show ?thesis using nth_eq_iff_index_eq [OF d, of a b] by (simp add: digit_char_def)
qed

lemma digit_char_not_minus: "d < 10 \<Longrightarrow> digit_char d \<noteq> CHR ''-''"
proof -
  assume "d < 10"
  then have "digit_char d \<in> set ''0123456789''"
    unfolding digit_char_def by (intro nth_mem) simp
  then show ?thesis by auto
qed

lemma digits_nonempty: "digits n \<noteq> []"
  by (subst digits.simps) simp

lemma digits_inj: "digits m = digits n \<Longrightarrow> m = n"
proof (induction m arbitrary: n rule: digits.induct)
  case (1 m)
  note eq = "1.prems"
  show ?case
  proof (cases "m < 10")
    case True
    then have "length (digits n) = 1" using eq digits.simps [of m] by (metis One_nat_def length_Cons list.size(3))
    then have "n < 10"
      using digits.simps [of n] digits_nonempty [of "n div 10"] by (cases "n < 10") auto
    with True eq show ?thesis
      using digits.simps [of m] digits.simps [of n] digit_char_inj by auto
  next
    case False
    then have m: "digits m = digits (m div 10) @ [digit_char (m mod 10)]"
      using digits.simps [of m] by simp
    have n10: "\<not> n < 10"
    proof
      assume "n < 10"
      then have "digits n = [digit_char n]" using digits.simps [of n] by simp
      with eq m digits_nonempty [of "m div 10"] show False by simp
    qed
    then have "digits n = digits (n div 10) @ [digit_char (n mod 10)]"
      using digits.simps [of n] by simp
    with m eq have "digits (m div 10) = digits (n div 10)"
      and "digit_char (m mod 10) = digit_char (n mod 10)" by auto
    with "1.IH" [OF False] have "m div 10 = n div 10" and "m mod 10 = n mod 10"
      using digit_char_inj by auto
    then show ?thesis by (metis div_mult_mod_eq)
  qed
qed

lemma set_digits: "set (digits n) \<subseteq> set ''0123456789''"
proof (induction n rule: digits.induct)
  case (1 n)
  have "digit_char (n mod 10) \<in> set ''0123456789''" "n < 10 \<Longrightarrow> digit_char n \<in> set ''0123456789''"
    unfolding digit_char_def by (intro nth_mem; simp)+
  with 1 show ?case by (subst digits.simps) auto
qed

lemma itoa_inj: "itoa m = itoa n \<Longrightarrow> m = n"
proof -
  assume eq: "itoa m = itoa n"
  have minus: "digits k \<noteq> CHR ''-'' # xs" for k xs
    using set_digits [of k] by auto
  have "m < 0 \<longleftrightarrow> n < 0"
    using eq minus by (auto simp: itoa_def split: if_splits) (metis minus)+
  then have "nat (- m) = nat (- n) \<and> m < 0 \<and> n < 0 \<or> nat m = nat n \<and> \<not> m < 0 \<and> \<not> n < 0"
    using eq by (auto simp: itoa_def dest: digits_inj split: if_splits)
  then show "m = n" by linarith
qed

section \<open>Go maps\<close>

type_synonym ('k, 'v) gomap = "('k \<times> 'v) list"

abbreviation gm_get :: "('k, 'v) gomap \<Rightarrow> 'k \<Rightarrow> 'v option" where
  "gm_get m k \<equiv> map_of m k"

abbreviation gm_set :: "'k \<Rightarrow> 'v \<Rightarrow> ('k, 'v) gomap \<Rightarrow> ('k, 'v) gomap" where
  "gm_set \<equiv> AList.update"

abbreviation gm_del :: "'k \<Rightarrow> ('k, 'v) gomap \<Rightarrow> ('k, 'v) gomap" where
  "gm_del \<equiv> AList.delete"

abbreviation gm_ok :: "('k, 'v) gomap \<Rightarrow> bool" where
  "gm_ok m \<equiv> distinct (map fst m)"

abbreviation gm_vals :: "('k, 'v) gomap \<Rightarrow> 'v list" where
  "gm_vals m \<equiv> map snd m"

definition gm_has :: "('k, 'v) gomap \<Rightarrow> 'k \<Rightarrow> bool" where
  "gm_has m k = (map_of m k \<noteq> None)"

text \<open>Applying a function to every value, as a \<open>range\<close> loop that mutates what the entries point to.\<close>

definition gm_map :: "('v \<Rightarrow> 'w) \<Rightarrow> ('k, 'v) gomap \<Rightarrow> ('k, 'w) gomap" where
  "gm_map f m = map (\<lambda>(k, v). (k, f v)) m"

definition range_ok :: "(('k, 'v) gomap \<Rightarrow> ('k, 'v) gomap) \<Rightarrow> bool" where
  "range_ok ord \<longleftrightarrow> (\<forall>m. mset (ord m) = mset m)"

lemma range_ok_id [simp]: "range_ok (\<lambda>m. m)"
  by (simp add: range_ok_def)

lemma range_ok_rev [simp]: "range_ok rev"
  by (simp add: range_ok_def)

lemma range_ok_set: "range_ok ord \<Longrightarrow> set (ord m) = set m"
  unfolding range_ok_def by (metis set_mset_mset)

lemma range_ok_length: "range_ok ord \<Longrightarrow> length (ord m) = length m"
  unfolding range_ok_def by (metis size_mset)

lemma range_ok_distinct: "range_ok ord \<Longrightarrow> distinct (map f (ord m)) = distinct (map f m)"
proof -
  assume "range_ok ord"
  then have "mset (map f (ord m)) = mset (map f m)"
    by (simp add: range_ok_def)
  then show ?thesis by (rule mset_eq_imp_distinct_iff)
qed

lemma gm_ok_update [gomap_simps]: "gm_ok m \<Longrightarrow> gm_ok (gm_set k v m)"
  by (rule distinct_update)

lemma gm_ok_delete [gomap_simps]: "gm_ok m \<Longrightarrow> gm_ok (gm_del k m)"
  by (rule distinct_delete)

lemma gm_get_set: "gm_get (gm_set k v m) = (gm_get m)(k \<mapsto> v)"
  by (rule update_conv')

lemma gm_get_del: "gm_get (gm_del k m) = (gm_get m)(k := None)"
  by (rule delete_conv')

lemma gm_get_in: "gm_ok m \<Longrightarrow> gm_get m k = Some v \<longleftrightarrow> (k, v) \<in> set m"
  by (rule map_of_eq_Some_iff)

lemma gm_get_mem: "gm_get m k = Some v \<Longrightarrow> (k, v) \<in> set m"
  by (rule map_of_SomeD)

lemma gm_get_none: "gm_get m k = None \<longleftrightarrow> k \<notin> fst ` set m"
  by (rule map_of_eq_None_iff)

lemma gm_get_map: "gm_get (gm_map f m) k = map_option f (gm_get m k)"
  by (induction m) (auto simp: gm_map_def)

lemma fst_gm_map [simp]: "map fst (gm_map f m) = map fst m"
  by (induction m) (auto simp: gm_map_def)

lemma length_gm_map [simp]: "length (gm_map f m) = length m"
  by (simp add: gm_map_def)

lemma set_gm_set_subset: "set (gm_set k v m) \<subseteq> insert (k, v) (set m)"
  by (induction m) (auto split: if_splits)

lemma set_gm_del_subset: "set (gm_del k m) \<subseteq> set m"
  by (auto simp: AList.delete_eq)

lemma length_gm_set: "length (gm_set k v m) = (if k \<in> fst ` set m then length m else Suc (length m))"
  by (induction m) auto

lemma length_gm_del: "gm_ok m \<Longrightarrow> length (gm_del k m) = (if k \<in> fst ` set m then length m - 1 else length m)"
proof (induction m)
  case (Cons kv m)
  have "k \<in> fst ` set m \<Longrightarrow> Suc (length m - Suc 0) = length m"
    by (cases m) auto
  with Cons show ?case by (cases kv) auto
qed simp

text \<open>The sum of a measure over the values of a map.\<close>

definition gm_sum :: "('v \<Rightarrow> int) \<Rightarrow> ('k, 'v) gomap \<Rightarrow> int" where
  "gm_sum f m = sum_list (map (\<lambda>kv. f (snd kv)) m)"

lemma gm_sum_Nil [simp]: "gm_sum f [] = 0"
  by (simp add: gm_sum_def)

lemma gm_sum_set_new: "k \<notin> fst ` set m \<Longrightarrow> gm_sum f (gm_set k v m) = gm_sum f m + f v"
  by (induction m) (auto simp: gm_sum_def)

lemma gm_sum_set_old: "gm_ok m \<Longrightarrow> gm_get m k = Some w \<Longrightarrow>
  gm_sum f (gm_set k v m) = gm_sum f m - f w + f v"
  by (induction m) (auto simp: gm_sum_def split: if_splits)

lemma gm_del_notin: "k \<notin> fst ` set m \<Longrightarrow> gm_del k m = m"
  by (rule delete_id)

lemma gm_sum_del: "gm_ok m \<Longrightarrow> gm_get m k = Some w \<Longrightarrow> gm_sum f (gm_del k m) = gm_sum f m - f w"
proof (induction m)
  case (Cons kv m)
  show ?case
  proof (cases "fst kv = k")
    case True
    with Cons.prems have "k \<notin> fst ` set m" and "snd kv = w"
      by (auto simp: image_iff)
    with True show ?thesis by (cases kv) (simp add: gm_sum_def gm_del_notin)
  next
    case False
    with Cons.prems have "gm_ok m" "gm_get m k = Some w" by (cases kv, auto)+
    with Cons.IH False show ?thesis by (cases kv) (simp add: gm_sum_def)
  qed
qed simp

lemma gm_sum_cong: "(\<And>k v. (k, v) \<in> set m \<Longrightarrow> f v = g v) \<Longrightarrow> gm_sum f m = gm_sum g m"
  unfolding gm_sum_def by (intro arg_cong [where f = sum_list] map_cong) auto

lemma gm_sum_nonneg: "(\<And>k v. (k, v) \<in> set m \<Longrightarrow> 0 \<le> f v) \<Longrightarrow> 0 \<le> gm_sum f m"
  unfolding gm_sum_def by (intro sum_list_nonneg) auto

section \<open>Lists\<close>

text \<open>
  Objects shared through pointers live in a heap, a list; a pointer is an index. \<open>heap_upd\<close>
  is a loop that rewrites, through their pointers, the objects of a list of pointers.
\<close>

type_synonym ptr = nat

definition heap_upd :: "('a \<Rightarrow> 'a) \<Rightarrow> nat list \<Rightarrow> 'a list \<Rightarrow> 'a list" where
  "heap_upd f ps h = fold (\<lambda>p h. h[p := f (h ! p)]) ps h"

lemma heap_upd_Nil [simp]: "heap_upd f [] h = h"
  by (simp add: heap_upd_def)

lemma heap_upd_Cons: "heap_upd f (p # ps) h = heap_upd f ps (h[p := f (h ! p)])"
  by (simp add: heap_upd_def)

lemma length_heap_upd [simp]: "length (heap_upd f ps h) = length h"
  by (induction ps arbitrary: h) (auto simp: heap_upd_Cons)

lemma nth_heap_upd:
  assumes "\<And>x. f (f x) = f x" and "i < length h"
  shows "heap_upd f ps h ! i = (if i \<in> set ps then f (h ! i) else h ! i)"
  using assms(2)
proof (induction ps arbitrary: h)
  case (Cons p ps)
  then show ?case
    by (cases "p = i") (auto simp: heap_upd_Cons assms(1))
qed simp

lemma nth_heap_upd_distinct:
  assumes "distinct ps" and "i < length h"
  shows "heap_upd f ps h ! i = (if i \<in> set ps then f (h ! i) else h ! i)"
  using assms
proof (induction ps arbitrary: h)
  case (Cons p ps)
  then show ?case
    by (cases "p = i") (auto simp: heap_upd_Cons)
qed simp

lemma find_Some_in: "find P xs = Some x \<Longrightarrow> x \<in> set xs \<and> P x"
  by (induction xs) (auto split: if_splits)

lemma find_None_all: "find P xs = None \<longleftrightarrow> (\<forall>x \<in> set xs. \<not> P x)"
  by (induction xs) auto

lemma filter_gm_set_le: "\<not> Q (k, v) \<Longrightarrow> length (filter Q (gm_set k v m)) \<le> length (filter Q m)"
  by (induction m) auto

text \<open>
  An index is a map from keys to pointers into a heap, in which an object is filed under
  its own key: \<open>m.instances\<close> by instance identifier, \<open>m.daemons\<close> by node and device.
\<close>

definition ix_ok :: "('a \<Rightarrow> 'k) \<Rightarrow> 'a list \<Rightarrow> ('k, nat) gomap \<Rightarrow> bool" where
  "ix_ok key h ix \<longleftrightarrow> gm_ok ix \<and> (\<forall>(k, p) \<in> set ix. p < length h \<and> key (h ! p) = k)"

lemma ix_ok_Nil [simp]: "ix_ok key h []"
  by (simp add: ix_ok_def)

lemma ix_ok_ptr: "ix_ok key h ix \<Longrightarrow> (k, p) \<in> set ix \<Longrightarrow> p < length h \<and> key (h ! p) = k"
  by (auto simp: ix_ok_def)

lemma ix_ok_ptrs_distinct: "ix_ok key h ix \<Longrightarrow> distinct (gm_vals ix)"
proof -
  assume ok: "ix_ok key h ix"
  then have "map fst ix = map (\<lambda>p. key (h ! p)) (gm_vals ix)"
    by (auto simp: ix_ok_def)
  with ok show ?thesis by (metis ix_ok_def distinct_map)
qed

lemma ix_ok_new:
  assumes "ix_ok key h ix" and "key x = k"
  shows "ix_ok key (h @ [x]) (gm_set k (length h) ix)"
proof -
  have "p < Suc (length h) \<and> key ((h @ [x]) ! p) = k'" if "(k', p) \<in> set ix" for k' p
    using ix_ok_ptr [OF assms(1) that] by (simp add: nth_append)
  then have "\<forall>(k', p) \<in> set (gm_set k (length h) ix). p < length (h @ [x]) \<and> key ((h @ [x]) ! p) = k'"
    using set_gm_set_subset [of k "length h" ix] assms(2) by auto
  then show ?thesis using assms(1) by (simp add: ix_ok_def gm_ok_update)
qed

lemma ix_ok_append: "ix_ok key h ix \<Longrightarrow> ix_ok key (h @ xs) ix"
  by (auto simp: ix_ok_def nth_append)

lemma ix_ok_cong:
  assumes "ix_ok key h ix" and "length h' = length h"
    and "\<And>i. i < length h \<Longrightarrow> key (h' ! i) = key (h ! i)"
  shows "ix_ok key h' ix"
  using assms by (auto simp: ix_ok_def)

lemma ix_ok_del: "ix_ok key h ix \<Longrightarrow> ix_ok key h (gm_del k ix)"
  using set_gm_del_subset [of k ix] by (auto simp: ix_ok_def gm_ok_delete)

lemma ix_ok_dels: "ix_ok key h ix \<Longrightarrow> ix_ok key h (fold (\<lambda>(k, p). gm_del k) ks ix)"
  by (induction ks arbitrary: ix) (auto intro: ix_ok_del)

lemma gm_get_dels:
  "gm_get (fold (\<lambda>(k, p). gm_del k) ks ix) k = (if gm_has ks k then None else gm_get ix k)"
  by (induction ks arbitrary: ix) (auto simp: gm_has_def delete_conv')

lemma sum_list_gm_set_le:
  fixes f :: "'v \<Rightarrow> nat"
  assumes "f v = 0"
  shows "sum_list (map (\<lambda>(k, v). f v) (gm_set k v m)) \<le> sum_list (map (\<lambda>(k, v). f v) m)"
  using assms by (induction m) auto

lemma sum_list_gm_set_mono:
  fixes f :: "'v \<Rightarrow> nat"
  assumes "f v \<le> (case gm_get m k of None \<Rightarrow> 0 | Some w \<Rightarrow> f w)"
  shows "sum_list (map (\<lambda>(k, v). f v) (gm_set k v m)) \<le> sum_list (map (\<lambda>(k, v). f v) m)"
  using assms by (induction m) (auto split: if_splits)

lemma sum_list_gm_map:
  "sum_list (map (\<lambda>(k, v). f v) (gm_map g m)) = sum_list (map (\<lambda>(k, v). f (g v)) m)"
  by (induction m) (auto simp: gm_map_def)

lemma sum_list_gm_set_some:
  fixes f :: "'v \<Rightarrow> nat"
  assumes "gm_get m k = Some w"
  shows "sum_list (map (\<lambda>(k, v). f v) (gm_set k v m)) + f w = sum_list (map (\<lambda>(k, v). f v) m) + f v"
  using assms by (induction m) (auto split: if_splits)

lemma sum_list_gm_set_none:
  fixes f :: "'v \<Rightarrow> nat"
  assumes "gm_get m k = None"
  shows "sum_list (map (\<lambda>(k, v). f v) (gm_set k v m)) = sum_list (map (\<lambda>(k, v). f v) m) + f v"
  using assms by (induction m) (auto split: if_splits)

lemma gm_set_same: "gm_get m k = Some v \<Longrightarrow> gm_set k v m = m"
  by (induction m) (auto split: if_splits)

lemma gm_map_set: "gm_map f (gm_set k v m) = gm_set k (f v) (gm_map f m)"
  by (induction m) (auto simp: gm_map_def)

lemma gm_map_set_same: "gm_get m k = Some v \<Longrightarrow> f v' = f v \<Longrightarrow> gm_map f (gm_set k v' m) = gm_map f m"
  by (simp add: gm_map_set gm_set_same gm_get_map)

end
