(* ===== verification/GoFloat.thy ===== *)
theory GoFloat
  imports Complex_Main Prelude "HOL-Library.Log_Nat"
begin

text \<open>
  The \<open>float64\<close> arithmetic of the program: hit rates in the cache tiers, slot weights and slot
  durations in the time-slice manager. A finite value is a rational, every operation rounds
  its exact result to the nearest 53-bit significand, ties to even (\<open>fl\<close>). The operands are
  64-bit integers and ratios of them, so the exponent limits of the format are never reached
  and are not modelled. Division by zero gives an infinity or \<open>NaN\<close>. What a conversion of an
  unrepresentable value to an integer yields is left to the implementation by the language
  and is a parameter \<open>impl\<close>.
\<close>

definition rne :: "rat \<Rightarrow> int" where
  "rne x = (let f = \<lfloor>x\<rfloor>; d = x - of_int f in
     if d < 1 / 2 then f else if d > 1 / 2 then f + 1 else if even f then f else f + 1)"

definition exp2_of :: "rat \<Rightarrow> int" where
  "exp2_of x = (let (p, q) = quotient_of x; k = bitlen p - bitlen q in
     if x < 2 powi k then k - 1 else k)"

definition fl_pos :: "rat \<Rightarrow> rat" where
  "fl_pos x = (let e = exp2_of x in of_int (rne (x * 2 powi (52 - e))) * 2 powi (e - 52))"

definition fl :: "rat \<Rightarrow> rat" where
  "fl x = (if x = 0 then 0 else if x < 0 then - fl_pos (- x) else fl_pos x)"

datatype gofloat = NaN | Inf bool | Fin rat

definition f_of_int :: "int \<Rightarrow> gofloat" where
  "f_of_int n = Fin (fl (of_int n))"

fun f_neg :: "gofloat \<Rightarrow> bool" where
  "f_neg NaN = False"
| "f_neg (Inf b) = b"
| "f_neg (Fin x) = (x < 0)"

fun f_add :: "gofloat \<Rightarrow> gofloat \<Rightarrow> gofloat" where
  "f_add (Fin x) (Fin y) = Fin (fl (x + y))"
| "f_add (Inf b) (Fin y) = Inf b"
| "f_add (Fin x) (Inf b) = Inf b"
| "f_add (Inf b) (Inf c) = (if b = c then Inf b else NaN)"
| "f_add _ _ = NaN"

fun f_mul :: "gofloat \<Rightarrow> gofloat \<Rightarrow> gofloat" where
  "f_mul (Fin x) (Fin y) = Fin (fl (x * y))"
| "f_mul (Inf b) (Fin y) = (if y = 0 then NaN else Inf (b \<noteq> (y < 0)))"
| "f_mul (Fin x) (Inf b) = (if x = 0 then NaN else Inf (b \<noteq> (x < 0)))"
| "f_mul (Inf b) (Inf c) = Inf (b \<noteq> c)"
| "f_mul _ _ = NaN"

fun f_div :: "gofloat \<Rightarrow> gofloat \<Rightarrow> gofloat" where
  "f_div (Fin x) (Fin y) = (if y = 0 then (if x = 0 then NaN else Inf (x < 0)) else Fin (fl (x / y)))"
| "f_div (Inf b) (Fin y) = Inf (b \<noteq> (y < 0))"
| "f_div (Fin x) (Inf b) = Fin 0"
| "f_div _ _ = NaN"

fun f_gt :: "gofloat \<Rightarrow> gofloat \<Rightarrow> bool" where
  "f_gt (Fin x) (Fin y) = (x > y)"
| "f_gt (Inf b) (Fin y) = (\<not> b)"
| "f_gt (Fin x) (Inf b) = b"
| "f_gt (Inf b) (Inf c) = (\<not> b \<and> c)"
| "f_gt _ _ = False"

definition trunc_rat :: "rat \<Rightarrow> int" where
  "trunc_rat x = (if x < 0 then - \<lfloor>- x\<rfloor> else \<lfloor>x\<rfloor>)"

fun f_to_int64 :: "(gofloat \<Rightarrow> int) \<Rightarrow> gofloat \<Rightarrow> int" where
  "f_to_int64 impl (Fin x) =
     (let t = trunc_rat x in if - (2 ^ 63) \<le> t \<and> t < 2 ^ 63 then t else wrap64 (impl (Fin x)))"
| "f_to_int64 impl f = wrap64 (impl f)"

section \<open>Rounding to integers\<close>

lemma rne_of_int [simp]: "rne (of_int n) = n"
  by (simp add: rne_def)

lemma rne_bounds: "of_int (rne x) \<le> x + 1 / 2 \<and> x - 1 / 2 \<le> of_int (rne x)"
  by (auto simp: rne_def Let_def) linarith+

lemma rne_cases: "rne x = \<lfloor>x\<rfloor> \<or> rne x = \<lfloor>x\<rfloor> + 1"
  by (auto simp: rne_def Let_def)

lemma rne_mono: "x \<le> y \<Longrightarrow> rne x \<le> rne y"
proof -
  assume xy: "x \<le> y"
  then have fle: "\<lfloor>x\<rfloor> \<le> \<lfloor>y\<rfloor>" by (rule floor_mono)
  show ?thesis
  proof (cases "\<lfloor>x\<rfloor> = \<lfloor>y\<rfloor>")
    case True
    with xy show ?thesis by (auto simp: rne_def Let_def)
  next
    case False
    with fle have "\<lfloor>x\<rfloor> + 1 \<le> \<lfloor>y\<rfloor>" by simp
    with rne_cases [of x] rne_cases [of y] show ?thesis by linarith
  qed
qed

lemma rne_ge_int: "of_int n \<le> x \<Longrightarrow> n \<le> rne x"
  using rne_mono [of "of_int n" x] by simp

lemma rne_le_int: "x \<le> of_int n \<Longrightarrow> rne x \<le> n"
  using rne_mono [of x "of_int n"] by simp

section \<open>The binary exponent\<close>

lemma powi_pos [simp]: "0 < (2::rat) powi k"
  by (simp add: zero_less_power_int)

lemma powi_split: "(2::rat) powi (a + b) = 2 powi a * 2 powi b"
  by (simp add: power_int_add)

lemma exp2_of_bounds:
  assumes "0 < x"
  shows "2 powi (exp2_of x) \<le> x \<and> x < 2 powi (exp2_of x + 1)"
proof -
  obtain p q where pq: "quotient_of x = (p, q)" by (cases "quotient_of x")
  have q: "0 < q" and x: "x = of_int p / of_int q"
    using quotient_of_denom_pos [OF pq] quotient_of_div [OF pq] by simp_all
  with assms have p: "0 < p" by (simp add: zero_less_divide_iff)
  let ?a = "bitlen p" and ?b = "bitlen q"
  have a0: "0 < ?a" and b0: "0 < ?b" using p q by (simp_all add: bitlen_def compute_floorlog)
  have pb: "2 ^ nat (?a - 1) \<le> p \<and> p < 2 ^ nat ?a" and qb: "2 ^ nat (?b - 1) \<le> q \<and> q < 2 ^ nat ?b"
    using bitlen_bounds [OF p] bitlen_bounds [OF q] by auto
  have conv: "(of_int (2 ^ nat k) :: rat) = 2 powi k" if "0 \<le> k" for k
    using that by (simp add: power_int_def)
  have P: "2 powi (?a - 1) \<le> (of_int p :: rat)" "(of_int p :: rat) < 2 powi ?a"
    using pb conv [of "?a - 1"] conv [of ?a] a0 by (metis of_int_le_iff zle_diff1_eq, metis of_int_less_iff less_imp_le)
  have Q: "2 powi (?b - 1) \<le> (of_int q :: rat)" "(of_int q :: rat) < 2 powi ?b"
    using qb conv [of "?b - 1"] conv [of ?b] b0 by (metis of_int_le_iff zle_diff1_eq, metis of_int_less_iff less_imp_le)
  have q': "0 < (of_int q :: rat)" using q by simp
  have up: "x < 2 powi (?a - ?b + 1)"
  proof -
    have "(of_int p :: rat) < 2 powi (?a - ?b + 1) * 2 powi (?b - 1)"
      using P(2) by (simp add: powi_split [symmetric])
    also have "\<dots> \<le> 2 powi (?a - ?b + 1) * of_int q"
      using Q(1) by (intro mult_left_mono) (auto intro: less_imp_le)
    finally show ?thesis using q' by (simp add: x divide_less_eq)
  qed
  have lo: "2 powi (?a - ?b - 1) \<le> x"
  proof -
    have "2 powi (?a - ?b - 1) * of_int q \<le> 2 powi (?a - ?b - 1) * (2 powi ?b :: rat)"
      using Q(2) by (intro mult_left_mono) (auto intro: less_imp_le)
    also have "\<dots> \<le> (of_int p :: rat)"
      using P(1) by (simp add: powi_split [symmetric])
    finally show ?thesis using q' by (simp add: x le_divide_eq)
  qed
  show ?thesis
    using up lo by (auto simp: exp2_of_def pq Let_def)
qed

lemma powi2_less_iff: "(2::rat) powi a < 2 powi b \<longleftrightarrow> a < b"
proof
  show "a < b \<Longrightarrow> (2::rat) powi a < 2 powi b" by (intro power_int_strict_increasing) auto
  have "b \<le> a \<Longrightarrow> (2::rat) powi b \<le> 2 powi a" by (intro power_int_increasing) auto
  then show "(2::rat) powi a < 2 powi b \<Longrightarrow> a < b" by linarith
qed

lemma powi2_le_iff: "(2::rat) powi a \<le> 2 powi b \<longleftrightarrow> a \<le> b"
  using powi2_less_iff [of b a] by (simp add: not_less [symmetric])

lemma exp2_of_mono: "0 < x \<Longrightarrow> x \<le> y \<Longrightarrow> exp2_of x \<le> exp2_of y"
proof -
  assume "0 < x" "x \<le> y"
  then have "(2::rat) powi exp2_of x < 2 powi (exp2_of y + 1)"
    using exp2_of_bounds [of x] exp2_of_bounds [of y] by linarith
  then show ?thesis by (simp add: powi2_less_iff)
qed

section \<open>Rounding to 53 bits\<close>

lemma fl_pos_bounds:
  assumes "0 < x"
  shows "2 powi exp2_of x \<le> fl_pos x \<and> fl_pos x \<le> 2 powi (exp2_of x + 1)"
proof -
  let ?e = "exp2_of x"
  let ?s = "x * 2 powi (52 - ?e)"
  have pw: "(2::rat) powi 52 = of_int (2 ^ 52)" "(2::rat) powi 53 = of_int (2 ^ 53)"
    by (simp_all add: power_int_def)
  have "2 powi ?e * 2 powi (52 - ?e) \<le> ?s"
    using exp2_of_bounds [OF assms] by (intro mult_right_mono) (auto intro: less_imp_le)
  then have lo: "2 ^ 52 \<le> rne ?s"
    by (intro rne_ge_int) (simp add: powi_split [symmetric] pw)
  have "?s \<le> 2 powi (?e + 1) * 2 powi (52 - ?e)"
    using exp2_of_bounds [OF assms] by (intro mult_right_mono) (auto intro: less_imp_le)
  then have hi: "rne ?s \<le> 2 ^ 53"
    by (intro rne_le_int) (simp add: powi_split [symmetric] pw)
  have eq: "(2::rat) powi ?e = of_int (2 ^ 52) * 2 powi (?e - 52)"
    "(2::rat) powi (?e + 1) = of_int (2 ^ 53) * 2 powi (?e - 52)"
    by (simp_all only: pw [symmetric] powi_split [symmetric]) (simp_all add: add.commute)
  have "(of_int (2 ^ 52) :: rat) \<le> of_int (rne ?s)" "of_int (rne ?s) \<le> (of_int (2 ^ 53) :: rat)"
    using lo hi by (simp_all only: of_int_le_iff)
  then have "(of_int (2 ^ 52) :: rat) * 2 powi (?e - 52) \<le> of_int (rne ?s) * 2 powi (?e - 52)"
    "of_int (rne ?s) * 2 powi (?e - 52) \<le> (of_int (2 ^ 53) :: rat) * 2 powi (?e - 52)"
    by (auto intro!: mult_right_mono less_imp_le simp del: of_int_power)
  then show ?thesis
    by (simp only: eq fl_pos_def Let_def)
qed

lemma fl_pos_mono: "0 < x \<Longrightarrow> x \<le> y \<Longrightarrow> fl_pos x \<le> fl_pos y"
proof -
  assume x: "0 < x" and xy: "x \<le> y"
  show ?thesis
  proof (cases "exp2_of x = exp2_of y")
    case True
    have "rne (x * 2 powi (52 - exp2_of x)) \<le> rne (y * 2 powi (52 - exp2_of x))"
      using xy by (intro rne_mono mult_right_mono) (auto intro: less_imp_le)
    then show ?thesis using True
      by (simp add: fl_pos_def Let_def)
  next
    case False
    then have "exp2_of x + 1 \<le> exp2_of y" using exp2_of_mono [OF x xy] by simp
    then have "(2::rat) powi (exp2_of x + 1) \<le> 2 powi exp2_of y" by (simp add: powi2_le_iff)
    with fl_pos_bounds [OF x] fl_pos_bounds [of y] x xy show ?thesis by linarith
  qed
qed

lemma fl_pos_gt_0: "0 < x \<Longrightarrow> 0 < fl_pos x"
  using fl_pos_bounds [of x] powi_pos [of "exp2_of x"] by linarith

lemma fl_0 [simp]: "fl 0 = 0"
  by (simp add: fl_def)

lemma fl_mono: "x \<le> y \<Longrightarrow> fl x \<le> fl y"
proof -
  assume xy: "x \<le> y"
  consider "y < 0" | "x \<le> 0" "0 \<le> y" | "0 < x" using xy by linarith
  then show ?thesis
  proof cases
    case 1
    with xy have "fl_pos (- y) \<le> fl_pos (- x)" by (intro fl_pos_mono) auto
    with 1 xy show ?thesis by (simp add: fl_def)
  next
    case 2
    have "fl x \<le> 0" using 2 fl_pos_gt_0 [of "- x"] by (cases "x = 0") (auto simp: fl_def)
    moreover have "0 \<le> fl y" using 2 fl_pos_gt_0 [of y] by (cases "y = 0") (auto simp: fl_def)
    ultimately show ?thesis by linarith
  next
    case 3
    with xy fl_pos_mono [of x y] show ?thesis by (simp add: fl_def)
  qed
qed

lemma fl_nonneg: "0 \<le> x \<Longrightarrow> 0 \<le> fl x"
  using fl_mono [of 0 x] by simp

text \<open>A value with at most 53 significant bits is its own rounding.\<close>

lemma fl_pos_exact:
  assumes "0 < x" and "x * 2 powi (52 - exp2_of x) = of_int n"
  shows "fl_pos x = x"
proof -
  have "fl_pos x = x * 2 powi (52 - exp2_of x) * 2 powi (exp2_of x - 52)"
    by (simp add: fl_pos_def Let_def assms(2))
  also have "\<dots> = x * 2 powi 0"
    by (simp only: mult.assoc powi_split [symmetric]) simp
  finally show ?thesis by simp
qed

lemma fl_of_int_exact:
  assumes "\<bar>n\<bar> \<le> 2 ^ 53"
  shows "fl (of_int n) = of_int n"
proof -
  have pos: "fl_pos (of_int m) = of_int m" if m: "0 < m" "m \<le> 2 ^ 53" for m
  proof -
    let ?e = "exp2_of (of_int m)"
    have "(2::rat) powi 0 < 2 powi (?e + 1)"
    proof -
      have "(1::rat) \<le> of_int m" using m by simp
      also have "\<dots> < 2 powi (?e + 1)" using exp2_of_bounds [of "of_int m"] m by simp
      finally show ?thesis by simp
    qed
    then have e0: "0 \<le> ?e" by (simp only: powi2_less_iff)
    show ?thesis
    proof (cases "?e \<le> 52")
      case True
      then have "(2::rat) powi (52 - ?e) = of_int (2 ^ nat (52 - ?e))" by (simp add: power_int_def)
      then show ?thesis
        using m by (intro fl_pos_exact [where n = "m * 2 ^ nat (52 - ?e)"]) simp_all
    next
      case False
      then have "(2::rat) powi 53 \<le> 2 powi ?e" by (simp only: powi2_le_iff)
      then have "(2::rat) powi 53 \<le> of_int m" using exp2_of_bounds [of "of_int m"] m by simp
      moreover have "(2::rat) powi 53 = of_int (2 ^ 53)" by (simp add: power_int_def)
      ultimately have "2 ^ 53 \<le> m" by (simp only: of_int_le_iff)
      with m have m53: "m = 2 ^ 53" by simp
      have "fl_pos (2 powi 53) = 2 powi 53"
      proof -
        have "exp2_of (2 powi 53) = 53"
        proof -
          have "(2::rat) powi exp2_of (2 powi 53) < 2 powi 54" "(2::rat) powi 53 < 2 powi (exp2_of (2 powi 53) + 1)"
            using exp2_of_bounds [of "2 powi 53"] powi2_less_iff [of 53 54] by (auto intro: le_less_trans)
          then show ?thesis by (simp only: powi2_less_iff)
        qed
        then show ?thesis
          by (intro fl_pos_exact [where n = "2 ^ 52"]) (simp_all only: powi_split [symmetric], simp_all add: power_int_def)
      qed
      then show ?thesis by (simp add: m53 power_int_def)
    qed
  qed
  consider "n = 0" | "0 < n" | "n < 0" by linarith
  then show ?thesis
  proof cases
    case 3
    have "fl_pos (of_int (- n)) = of_int (- n)" using 3 assms by (intro pos) auto
    with 3 show ?thesis by (simp add: fl_def)
  qed (use assms pos [of n] in \<open>auto simp: fl_def\<close>)
qed

lemma fl_1 [simp]: "fl 1 = 1"
  using fl_of_int_exact [of 1] by simp

lemma fl_le_1: "x \<le> 1 \<Longrightarrow> fl x \<le> 1"
  using fl_mono [of x 1] by simp

text \<open>Rounding a ratio of two rounded non-negative integers keeps it between 0 and 1.\<close>

lemma fl_ratio_unit:
  assumes "0 \<le> a" "a \<le> b" "0 < b"
  shows "0 \<le> fl (fl (of_int a) / fl (of_int b)) \<and> fl (fl (of_int a) / fl (of_int b)) \<le> 1"
proof -
  have a: "0 \<le> fl (of_int a)" using assms by (intro fl_nonneg) simp
  have ab: "fl (of_int a) \<le> fl (of_int b)" using assms by (intro fl_mono) simp
  have "fl 1 \<le> fl (of_int b)" using assms by (intro fl_mono) simp
  then have b: "0 < fl (of_int b)" by simp
  have "0 \<le> fl (of_int a) / fl (of_int b)" "fl (of_int a) / fl (of_int b) \<le> 1"
    using a ab b by (simp_all add: divide_le_eq)
  then show ?thesis using fl_nonneg fl_le_1 by blast
qed

lemma fl_int_pos: "0 < n \<Longrightarrow> 0 < fl (of_int n)"
proof -
  assume "0 < n"
  then have "fl 1 \<le> fl (of_int n)" by (intro fl_mono) simp
  then show ?thesis by simp
qed

end
