(* ===== verification/ApiTypes.thy ===== *)
theory ApiTypes
  imports GoFloat
begin

text \<open>
  The custom resources of \<open>api/v1alpha1\<close> as records: a field of the Go struct is a field of the
  record, prefixed by the struct's initials; a pointer or optional field is an \<open>option\<close>; a
  \<open>resource.Quantity\<close> is its \<open>Value()\<close>, the only thing the operator reads of it; a
  \<open>metav1.Duration\<close> or \<open>time.Time\<close> is a number of nanoseconds. The string enumerations of the API
  stay strings, since the code receives any string and falls to its default branch on others.
\<close>

type_synonym quantity = int
type_synonym timestamp = int
type_synonym duration = int
type_synonym bytes = "8 word list"

section \<open>Enumerations\<close>

type_synonym GPUSharingMode = string
definition GPUSharingModeMIG :: GPUSharingMode where "GPUSharingModeMIG = ''mig''"
definition GPUSharingModeMPS :: GPUSharingMode where "GPUSharingModeMPS = ''mps''"
definition GPUSharingModeTimeslice :: GPUSharingMode where "GPUSharingModeTimeslice = ''timeslice''"
definition GPUSharingModeExclusive :: GPUSharingMode where "GPUSharingModeExclusive = ''exclusive''"

lemmas sharing_mode_defs = GPUSharingModeMIG_def GPUSharingModeMPS_def
  GPUSharingModeTimeslice_def GPUSharingModeExclusive_def

type_synonym CacheTierType = string
definition CacheTierTypePrefix :: CacheTierType where "CacheTierTypePrefix = ''prefix''"
definition CacheTierTypeLocal :: CacheTierType where "CacheTierTypeLocal = ''local''"
definition CacheTierTypeRedis :: CacheTierType where "CacheTierTypeRedis = ''redis''"
definition CacheTierTypeMemcached :: CacheTierType where "CacheTierTypeMemcached = ''memcached''"

lemmas tier_type_defs = CacheTierTypePrefix_def CacheTierTypeLocal_def
  CacheTierTypeRedis_def CacheTierTypeMemcached_def

type_synonym EvictionPolicy = string
definition EvictionPolicyLRU :: EvictionPolicy where "EvictionPolicyLRU = ''lru''"
definition EvictionPolicyLFU :: EvictionPolicy where "EvictionPolicyLFU = ''lfu''"
definition EvictionPolicyFIFO :: EvictionPolicy where "EvictionPolicyFIFO = ''fifo''"
definition EvictionPolicyTTL :: EvictionPolicy where "EvictionPolicyTTL = ''ttl''"

datatype GPUPoolPhase = GPUPoolPhaseUnset | GPUPoolPhasePending | GPUPoolPhaseReady
  | GPUPoolPhaseDegraded | GPUPoolPhaseFailed

datatype TokenCachePhase = TokenCachePhaseUnset | TokenCachePhasePending
  | TokenCachePhaseInitializing | TokenCachePhaseReady | TokenCachePhaseDegraded
  | TokenCachePhaseFailed

section \<open>Object metadata and conditions\<close>

record ObjectMeta =
  om_Name :: string
  om_Namespace :: string
  om_Generation :: int
  om_DeletionTimestamp :: "timestamp option"
  om_Finalizers :: "string list"

record Condition =
  c_Type :: string
  c_Status :: bool
  c_LastTransitionTime :: timestamp
  c_Reason :: string
  c_Message :: string

section \<open>GPUPool\<close>

record MIGProfileSpec =
  mps_Name :: string
  mps_Count :: int

record GPUSharingSpec =
  gss_Mode :: GPUSharingMode
  gss_Profiles :: "MIGProfileSpec list"
  gss_TimeSliceInterval :: int
  gss_MPSActiveThreadPercentage :: int
  gss_MPSMemoryLimit :: "quantity option"

record OversubscriptionSpec =
  os_Enabled :: bool
  os_Ratio :: string
  os_MemoryOvercommitRatio :: string

record MIGInstanceStatus =
  mis_InstanceID :: string
  mis_Profile :: string
  mis_Memory :: quantity
  mis_ComputeUnits :: int
  mis_InUse :: bool
  mis_AllocatedTo :: string

record AllocationInfo =
  aif_ServiceRef :: string
  aif_Namespace :: string
  aif_AllocatedMemory :: quantity
  aif_AllocatedAt :: timestamp

record GPUDeviceStatus =
  gds_DeviceID :: string
  gds_UUID :: string
  gds_Model :: string
  gds_TotalMemory :: quantity
  gds_AvailableMemory :: quantity
  gds_Utilization :: int
  gds_Temperature :: int
  gds_PowerUsage :: int
  gds_MIGEnabled :: bool
  gds_MIGInstances :: "MIGInstanceStatus list"
  gds_Allocations :: "AllocationInfo list"

record GPUNodeStatus =
  gns_NodeName :: string
  gns_TotalGPUs :: int
  gns_AvailableGPUs :: int
  gns_GPUs :: "GPUDeviceStatus list"

record GPUPoolSpec =
  gps_NodeSelector :: "(string, string) gomap"
  gps_GPUType :: string
  gps_Sharing :: "GPUSharingSpec option"
  gps_Oversubscription :: "OversubscriptionSpec option"
  gps_ReservationPolicy :: string
  gps_PreemptionPolicy :: string
  gps_HealthCheckInterval :: "duration option"

record GPUPoolStatus =
  gst_Phase :: GPUPoolPhase
  gst_TotalGPUs :: int
  gst_AvailableGPUs :: int
  gst_AllocatedGPUs :: int
  gst_TotalMemory :: quantity
  gst_AvailableMemory :: quantity
  gst_Nodes :: "GPUNodeStatus list"
  gst_Conditions :: "Condition list"
  gst_LastSyncTime :: "timestamp option"
  gst_ObservedGeneration :: int

record GPUPool =
  gp_Meta :: ObjectMeta
  gp_Spec :: GPUPoolSpec
  gp_Status :: GPUPoolStatus

abbreviation gp_Name :: "GPUPool \<Rightarrow> string" where
  "gp_Name p \<equiv> om_Name (gp_Meta p)"

section \<open>TokenCache\<close>

record SecretKeyRef =
  skr_Name :: string
  skr_Key :: string

record RedisCacheConfig =
  rcc_Replicas :: int
  rcc_Mode :: string
  rcc_ExternalEndpoint :: string
  rcc_PasswordSecretRef :: "SecretKeyRef option"
  rcc_MaxConnections :: int
  rcc_ConnectionTimeout :: "duration option"
  rcc_PersistenceEnabled :: bool

record LocalCacheConfig =
  lcc_StorageClass :: string
  lcc_MountPath :: string
  lcc_UseRamDisk :: bool
  lcc_Compression :: bool
  lcc_CompressionAlgorithm :: string

record PrefixCacheConfig =
  pcc_MaxPrefixLength :: int
  pcc_MinPrefixLength :: int
  pcc_BlockSize :: int
  pcc_EnableSwap :: bool
  pcc_SwapSpaceSize :: "quantity option"

record CacheTierSpec =
  cts_Name :: string
  cts_Type :: CacheTierType
  cts_Size :: quantity
  cts_TTL :: "duration option"
  cts_Priority :: int
  cts_RedisConfig :: "RedisCacheConfig option"
  cts_LocalConfig :: "LocalCacheConfig option"
  cts_PrefixConfig :: "PrefixCacheConfig option"

record WarmupSpec =
  wu_Enabled :: bool
  wu_CommonPrefixes :: "string list"
  wu_WarmupSchedule :: string
  wu_SourceConfigMapRef :: "SecretKeyRef option"

record TokenCacheSpec =
  tcs_Tiers :: "CacheTierSpec list"
  tcs_EvictionPolicy :: EvictionPolicy
  tcs_Warmup :: "WarmupSpec option"
  tcs_CoherencePolicy :: string
  tcs_MetricsEnabled :: bool
  tcs_MetricsPort :: int

record CacheTierStatus =
  cst_Name :: string
  cst_Ready :: bool
  cst_Size :: quantity
  cst_UsedSize :: quantity
  cst_Entries :: int
  cst_HitRate :: gofloat
  cst_MissRate :: gofloat
  cst_AvgLatency :: "duration option"
  cst_Endpoint :: string

record WarmupStatus =
  ws_InProgress :: bool
  ws_Progress :: int
  ws_LastWarmupTime :: "timestamp option"
  ws_EntriesWarmed :: int

record TokenCacheStatus =
  tst_Phase :: TokenCachePhase
  tst_TotalSize :: quantity
  tst_UsedSize :: quantity
  tst_TotalEntries :: int
  tst_OverallHitRate :: gofloat
  tst_Tiers :: "CacheTierStatus list"
  tst_WarmupStatus :: "WarmupStatus option"
  tst_Conditions :: "Condition list"
  tst_LastSyncTime :: "timestamp option"
  tst_ObservedGeneration :: int

record TokenCache =
  tc_Meta :: ObjectMeta
  tc_Spec :: TokenCacheSpec
  tc_Status :: TokenCacheStatus

abbreviation tc_Name :: "TokenCache \<Rightarrow> string" where
  "tc_Name c \<equiv> om_Name (tc_Meta c)"

end
