(* ===== verification/InferenceTypes.thy ===== *)
theory InferenceTypes
  imports ApiTypes
begin

text \<open>
  The \<open>InferenceService\<close> resource of \<open>api/v1alpha1\<close>, and what the operator builds of the Kubernetes
  API: the fields of the core types that it sets. A \<open>resource.Quantity\<close> in a resource list is kept
  as it was made, from a number or from a text, since only Kubernetes interprets it.
\<close>

section \<open>Kubernetes types\<close>

datatype Quantity = NewQuantity int | MustParse string

type_synonym ResourceList = "(string, Quantity) gomap"

record ResourceRequirements =
  rr_Limits :: ResourceList
  rr_Requests :: ResourceList

record EnvVar =
  ev_Name :: string
  ev_Value :: string
  ev_SecretKeyRef :: "SecretKeyRef option"

record ContainerPort =
  cp_Name :: string
  cp_ContainerPort :: int
  cp_Protocol :: string

datatype ProbeHandler = HTTPGet string int | TCPSocket int

record Probe =
  pr_Handler :: ProbeHandler
  pr_InitialDelaySeconds :: int
  pr_PeriodSeconds :: int
  pr_TimeoutSeconds :: int
  pr_FailureThreshold :: int

fun probe_port :: "ProbeHandler \<Rightarrow> int" where
  "probe_port (HTTPGet p n) = n"
| "probe_port (TCPSocket n) = n"

text \<open>The only volumes the backends use are empty directories.\<close>

record Volume =
  vo_Name :: string
  vo_Medium :: string
  vo_SizeLimit :: "Quantity option"

record VolumeMount =
  vm_Name :: string
  vm_MountPath :: string

record Toleration =
  to_Key :: string
  to_Operator :: string
  to_Value :: string
  to_Effect :: string
  to_TolerationSeconds :: "int option"

record PodSecurityContext =
  psc_RunAsUser :: "int option"
  psc_RunAsGroup :: "int option"

record Container =
  ct_Name :: string
  ct_Image :: string
  ct_Command :: "string list"
  ct_Args :: "string list"
  ct_Env :: "EnvVar list"
  ct_Ports :: "ContainerPort list"
  ct_Resources :: ResourceRequirements
  ct_VolumeMounts :: "VolumeMount list"
  ct_ReadinessProbe :: "Probe option"
  ct_LivenessProbe :: "Probe option"
  ct_StartupProbe :: "Probe option"

record ServicePort =
  sp_Name :: string
  sp_Port :: int
  sp_TargetPort :: int
  sp_Protocol :: string

definition ResourceCPU :: string where "ResourceCPU = ''cpu''"
definition ResourceMemory :: string where "ResourceMemory = ''memory''"
definition ResourceGPU :: string where "ResourceGPU = ''nvidia.com/gpu''"
definition ProtocolTCP :: string where "ProtocolTCP = ''TCP''"
definition StorageMediumDefault :: string where "StorageMediumDefault = ''''"
definition StorageMediumMemory :: string where "StorageMediumMemory = ''Memory''"
definition ServiceTypeClusterIP :: string where "ServiceTypeClusterIP = ''ClusterIP''"

text \<open>A loop that copies one map into another; the order of a map's keys does not matter to it.\<close>

definition gm_puts :: "('k, 'v) gomap \<Rightarrow> ('k, 'v) gomap \<Rightarrow> ('k, 'v) gomap" where
  "gm_puts src dst = fold (\<lambda>(k, v). gm_set k v) src dst"

lemma gm_get_puts:
  assumes "gm_ok src"
  shows "gm_get (gm_puts src dst) k = (case gm_get src k of Some v \<Rightarrow> Some v | None \<Rightarrow> gm_get dst k)"
  using assms unfolding gm_puts_def
proof (induction src arbitrary: dst)
  case (Cons kv src)
  obtain k' v where kv: "kv = (k', v)" by fastforce
  then have "k' = k \<Longrightarrow> gm_get src k = None" using Cons.prems by (auto simp: gm_get_none)
  then show ?case using Cons.IH [of "gm_set k' v dst"] Cons.prems kv by (auto simp: gm_get_set split: option.split)
qed simp

section \<open>InferenceService\<close>

type_synonym BackendType = string
definition BackendTypeVLLM :: BackendType where "BackendTypeVLLM = ''vllm''"
definition BackendTypeTriton :: BackendType where "BackendTypeTriton = ''triton''"
definition BackendTypeTensorRT :: BackendType where "BackendTypeTensorRT = ''tensorrt''"

lemmas backend_type_defs = BackendTypeVLLM_def BackendTypeTriton_def BackendTypeTensorRT_def

type_synonym CacheStrategy = string
definition CacheStrategyHybrid :: CacheStrategy where "CacheStrategyHybrid = ''hybrid''"
definition CacheStrategyPrefix :: CacheStrategy where "CacheStrategyPrefix = ''prefix''"
definition CacheStrategyDistributed :: CacheStrategy where "CacheStrategyDistributed = ''distributed''"
definition CacheStrategyLocal :: CacheStrategy where "CacheStrategyLocal = ''local''"
definition CacheStrategyNone :: CacheStrategy where "CacheStrategyNone = ''none''"

type_synonym ModelSource = string
definition ModelSourceHuggingFace :: ModelSource where "ModelSourceHuggingFace = ''huggingface''"
definition ModelSourceS3 :: ModelSource where "ModelSourceS3 = ''s3''"
definition ModelSourceGCS :: ModelSource where "ModelSourceGCS = ''gcs''"
definition ModelSourcePVC :: ModelSource where "ModelSourcePVC = ''pvc''"
definition ModelSourceLocal :: ModelSource where "ModelSourceLocal = ''local''"

record ModelSpec =
  mo_Name :: string
  mo_Source :: ModelSource
  mo_Revision :: string
  mo_SecretRef :: "string option"
  mo_StoragePath :: string

record GPUSpec =
  gs_Type :: string
  gs_Count :: int
  gs_Sharing :: GPUSharingMode
  gs_MIGProfile :: string
  gs_Memory :: "quantity option"
  gs_GPUPoolRef :: "string option"

record CacheSpec =
  cas_Enabled :: bool
  cas_Strategy :: CacheStrategy
  cas_PrefixCacheSize :: "quantity option"
  cas_TokenCacheRef :: "string option"
  cas_TTL :: "duration option"

record AutoscalingMetric =
  am_Type :: string
  am_Target :: int

record AutoscalingSpec =
  as_MinReplicas :: int
  as_MaxReplicas :: int
  as_Metrics :: "AutoscalingMetric list"
  as_ScaleDownStabilizationSeconds :: int
  as_ScaleUpStabilizationSeconds :: int

record BackendConfig =
  bc_MaxBatchSize :: int
  bc_MaxSeqLen :: int
  bc_TensorParallelism :: int
  bc_PipelineParallelism :: int
  bc_Quantization :: string
  bc_ExtraArgs :: "(string, string) gomap"

record InferenceServiceSpec =
  iss_Model :: ModelSpec
  iss_Backend :: BackendType
  iss_BackendConfig :: "BackendConfig option"
  iss_Replicas :: int
  iss_GPU :: GPUSpec
  iss_Cache :: "CacheSpec option"
  iss_Autoscaling :: "AutoscalingSpec option"
  iss_Resources :: "ResourceRequirements option"
  iss_NodeSelector :: "(string, string) gomap option"
  iss_Tolerations :: "Toleration list option"
  iss_ServiceAccountName :: string
  iss_ImagePullSecrets :: "string list"

datatype InferenceServicePhase = InferenceServicePhaseUnset | InferenceServicePhasePending
  | InferenceServicePhaseInitializing | InferenceServicePhaseRunning | InferenceServicePhaseScaling
  | InferenceServicePhaseFailed | InferenceServicePhaseTerminating

record GPUAllocation =
  ga_NodeName :: string
  ga_DeviceID :: string
  ga_MIGInstance :: string
  ga_MemoryAllocated :: quantity
  ga_Utilization :: int

record CacheStatus =
  chs_HitRate :: gofloat
  chs_Size :: quantity
  chs_Entries :: int

record InferenceServiceStatus =
  ist_Phase :: InferenceServicePhase
  ist_ReadyReplicas :: int
  ist_AvailableReplicas :: int
  ist_URL :: string
  ist_GPUAllocations :: "GPUAllocation list"
  ist_CacheStatus :: "CacheStatus option"
  ist_Conditions :: "Condition list"
  ist_LastScaleTime :: "timestamp option"
  ist_ObservedGeneration :: int

record InferenceService =
  is_Meta :: ObjectMeta
  is_Spec :: InferenceServiceSpec
  is_Status :: InferenceServiceStatus

abbreviation is_Name :: "InferenceService \<Rightarrow> string" where
  "is_Name s \<equiv> om_Name (is_Meta s)"

abbreviation is_Namespace :: "InferenceService \<Rightarrow> string" where
  "is_Namespace s \<equiv> om_Namespace (is_Meta s)"

end
