(* ===== verification/Kube.thy ===== *)
theory Kube
  imports InferenceTypes
begin

text \<open>
  What the three reconcilers of \<open>internal/controller\<close> share: how they talk to the Kubernetes API and
  how they keep status conditions. The API server is outside the program: what its calls answer
  is part of a reconciler's environment, and what the program sends is the list of calls it made.
  The finalizer helpers are list membership, append and removal.
\<close>

section \<open>The API\<close>

datatype 'o api_get = Found 'o | NotFound | GetError string

datatype ('o, 'k) kube_call =
    CallUpdate 'o
  | CallStatusUpdate 'o
  | CallCreate 'k
  | CallUpdateOwned 'k
  | CallEvent string string string

record Result =
  rq_Requeue :: bool
  rq_RequeueAfter :: duration

definition second :: duration where
  "second = 1000000000"

definition done_result :: Result where
  "done_result = \<lparr>rq_Requeue = False, rq_RequeueAfter = 0\<rparr>"

definition requeue_now :: Result where
  "requeue_now = \<lparr>rq_Requeue = True, rq_RequeueAfter = 0\<rparr>"

definition requeue_after :: "duration \<Rightarrow> Result" where
  "requeue_after d = \<lparr>rq_Requeue = False, rq_RequeueAfter = d\<rparr>"

definition ContainsFinalizer :: "ObjectMeta \<Rightarrow> string \<Rightarrow> bool" where
  "ContainsFinalizer om f \<longleftrightarrow> f \<in> set (om_Finalizers om)"

definition AddFinalizer :: "ObjectMeta \<Rightarrow> string \<Rightarrow> ObjectMeta" where
  "AddFinalizer om f = (if f \<in> set (om_Finalizers om) then om else om\<lparr>om_Finalizers := om_Finalizers om @ [f]\<rparr>)"

definition RemoveFinalizer :: "ObjectMeta \<Rightarrow> string \<Rightarrow> ObjectMeta" where
  "RemoveFinalizer om f = om\<lparr>om_Finalizers := filter (\<lambda>x. x \<noteq> f) (om_Finalizers om)\<rparr>"

definition event_normal :: string where "event_normal = ''Normal''"
definition event_warning :: string where "event_warning = ''Warning''"

text \<open>What a call returns becomes the error of the reconciliation.\<close>

definition or_error :: "string option \<Rightarrow> Result \<Rightarrow> (string, Result) outcome" where
  "or_error err r = (case err of Some m \<Rightarrow> Err m | None \<Rightarrow> Ok r)"

section \<open>Conditions\<close>

text \<open>\<open>setCondition\<close>, the same code in the three reconcilers.\<close>

fun setCondition :: "Condition list \<Rightarrow> Condition \<Rightarrow> Condition list" where
  "setCondition [] condition = [condition]"
| "setCondition (existing # cs) condition =
    (if c_Type existing = c_Type condition
     then (if c_Status existing \<noteq> c_Status condition then condition # cs else existing # cs)
     else existing # setCondition cs condition)"

definition cond_of :: "Condition list \<Rightarrow> string \<Rightarrow> Condition option" where
  "cond_of cs t = find (\<lambda>c. c_Type c = t) cs"

definition error_condition :: "timestamp \<Rightarrow> string \<Rightarrow> Condition" where
  "error_condition now msg = \<lparr>c_Type = ''Error'', c_Status = True, c_LastTransitionTime = now, c_Reason = ''ReconcileError'', c_Message = msg\<rparr>"

lemma set_setCondition: "c_Type ` set (setCondition cs c) = insert (c_Type c) (c_Type ` set cs)"
  by (induction cs) auto

lemma setCondition_distinct: "distinct (map c_Type cs) \<Longrightarrow> distinct (map c_Type (setCondition cs c))"
proof (induction cs)
  case (Cons x cs)
  then show ?case using set_setCondition [of cs c] by auto
qed simp

text \<open>A condition is replaced only where its status changes; an unchanged status keeps the old message.\<close>

lemma cond_of_setCondition:
  "cond_of (setCondition cs c) t =
    (if t = c_Type c then Some (case cond_of cs t of Some old \<Rightarrow> if c_Status old = c_Status c then old else c | None \<Rightarrow> c)
     else cond_of cs t)"
  by (induction cs) (auto simp: cond_of_def)

lemma cond_status_setCondition: "map_option c_Status (cond_of (setCondition cs c) (c_Type c)) = Some (c_Status c)"
  by (simp add: cond_of_setCondition split: option.split)

lemma cond_of_setCondition_other: "t \<noteq> c_Type c \<Longrightarrow> cond_of (setCondition cs c) t = cond_of cs t"
  by (simp add: cond_of_setCondition)

lemma cond_status_set: "c_Type c = t \<Longrightarrow> map_option c_Status (cond_of (setCondition cs c) t) = Some (c_Status c)"
  using cond_status_setCondition [of cs c] by simp

text \<open>At most one condition of each type, as Kubernetes wants them.\<close>

definition conds_ok :: "Condition list \<Rightarrow> bool" where
  "conds_ok cs \<longleftrightarrow> distinct (map c_Type cs)"

lemma conds_ok_set [inv_intros]: "conds_ok cs \<Longrightarrow> conds_ok (setCondition cs c)"
  unfolding conds_ok_def by (rule setCondition_distinct)

end
