(* ===== verification/Resources.thy ===== *)
theory Resources
  imports Kube
begin

text \<open>
  The custom resources as the API server keeps them, and the contract of a reconciler that owns a
  finalizer. The server is outside the program: what it may do with the calls of a reconciliation
  (\<open>api_write\<close>) and what everybody else may do to an object (\<open>user_write\<close>) are relations that say no more
  than what Kubernetes documents of resources with a status subresource and of finalizers. A
  reconciliation reads the current object; a write that loses a race with another one is refused
  with a conflict, which is the case of a call that fails.
\<close>

section \<open>Stored objects\<close>

record ('o, 'k, 'sp, 'st) kind =
  kd_key :: "'o \<Rightarrow> 'k"
  kd_meta :: "'o \<Rightarrow> ObjectMeta"
  kd_spec :: "'o \<Rightarrow> 'sp"
  kd_status :: "'o \<Rightarrow> 'st"
  kd_conditions :: "'st \<Rightarrow> Condition list"
  kd_zero :: 'st
  kd_finalizer :: string

definition has_finalizer :: "('o, 'k, 'sp, 'st) kind \<Rightarrow> 'o \<Rightarrow> bool" where
  "has_finalizer K v \<longleftrightarrow> ContainsFinalizer (kd_meta K v) (kd_finalizer K)"

definition deleting :: "('o, 'k, 'sp, 'st) kind \<Rightarrow> 'o \<Rightarrow> bool" where
  "deleting K v \<longleftrightarrow> om_DeletionTimestamp (kd_meta K v) \<noteq> None"

text \<open>An object that is marked for deletion goes away with its last finalizer.\<close>

definition finalized :: "('o, 'k, 'sp, 'st) kind \<Rightarrow> 'o \<Rightarrow> bool" where
  "finalized K v \<longleftrightarrow> deleting K v \<and> om_Finalizers (kd_meta K v) = []"

text \<open>What a read answers about an object: the object as it is stored, or an error.\<close>

fun read_ok :: "'o option \<Rightarrow> 'o api_get \<Rightarrow> bool" where
  "read_ok stored (Found v) \<longleftrightarrow> stored = Some v"
| "read_ok stored NotFound \<longleftrightarrow> stored = None"
| "read_ok stored (GetError err) \<longleftrightarrow> True"

text \<open>
  The object after the calls of a reconciliation, where \<open>ue\<close> and \<open>se\<close> are what the updates and the
  status updates returned. An update writes everything but the status, a status update only the
  status; a call that returned no error was carried out, of one that did nothing is known.
\<close>

definition api_write :: "('o, 'k, 'sp, 'st) kind \<Rightarrow> string option \<Rightarrow> string option \<Rightarrow> ('o, 'w) kube_call list
    \<Rightarrow> 'o option \<Rightarrow> 'o option \<Rightarrow> bool" where
  "api_write K ue se calls before after \<longleftrightarrow>
    (case (before, after) of
       (None, _) \<Rightarrow> after = None
     | (Some v, None) \<Rightarrow> (\<exists>u. CallUpdate u \<in> set calls \<and> finalized K u)
     | (Some v, Some w) \<Rightarrow>
         kd_key K w = kd_key K v \<and>
         (kd_meta K w = kd_meta K v \<and> kd_spec K w = kd_spec K v \<or>
          (\<exists>u. CallUpdate u \<in> set calls \<and> kd_meta K w = kd_meta K u \<and> kd_spec K w = kd_spec K u)) \<and>
         (kd_status K w = kd_status K v \<or> (\<exists>u. CallStatusUpdate u \<in> set calls \<and> kd_status K w = kd_status K u)) \<and>
         (ue = None \<longrightarrow> (\<forall>u. CallUpdate u \<in> set calls \<longrightarrow>
            \<not> finalized K u \<and> kd_meta K w = kd_meta K u \<and> kd_spec K w = kd_spec K u)) \<and>
         (se = None \<longrightarrow> (\<forall>u. CallStatusUpdate u \<in> set calls \<longrightarrow> kd_status K w = kd_status K u)))"

text \<open>
  What others may do: create an object, which starts with an empty status; change its
  specification, its annotations or finalizers of their own; mark it for deletion, for good. They
  do not write the status, and they leave the finalizer of the operator alone, which keeps the
  object from going away.
\<close>

definition user_write :: "('o, 'k, 'sp, 'st) kind \<Rightarrow> 'k \<Rightarrow> 'o option \<Rightarrow> 'o option \<Rightarrow> bool" where
  "user_write K k before after \<longleftrightarrow>
    (case (before, after) of
       (None, None) \<Rightarrow> True
     | (None, Some w) \<Rightarrow> kd_key K w = k \<and> \<not> deleting K w \<and> kd_status K w = kd_zero K
     | (Some v, None) \<Rightarrow> \<not> has_finalizer K v
     | (Some v, Some w) \<Rightarrow> kd_key K w = k \<and> om_Name (kd_meta K w) = om_Name (kd_meta K v) \<and> kd_status K w = kd_status K v \<and>
         (has_finalizer K v \<longrightarrow> has_finalizer K w) \<and> (deleting K v \<longrightarrow> deleting K w))"

section \<open>The invariant\<close>

text \<open>
  Every object is filed under its own key and has at most one condition of each type, and the
  names in \<open>registered\<close> are those of objects that the finalizer keeps.
\<close>

definition store_ok :: "('o, 'k, 'sp, 'st) kind \<Rightarrow> ('k \<Rightarrow> 'o option) \<Rightarrow> bool" where
  "store_ok K S \<longleftrightarrow> (\<forall>k v. S k = Some v \<longrightarrow> kd_key K v = k \<and> conds_ok (kd_conditions K (kd_status K v)))"

definition registered_ok :: "('o, 'k, 'sp, 'st) kind \<Rightarrow> string set \<Rightarrow> ('k \<Rightarrow> 'o option) \<Rightarrow> bool" where
  "registered_ok K registered S \<longleftrightarrow> (\<forall>n \<in> registered. \<exists>k v. S k = Some v \<and> om_Name (kd_meta K v) = n \<and> has_finalizer K v)"

lemma store_okD: "store_ok K S \<Longrightarrow> S k = Some v \<Longrightarrow> kd_key K v = k \<and> conds_ok (kd_conditions K (kd_status K v))"
  by (simp add: store_ok_def)

lemma registered_okD:
  "registered_ok K reg S \<Longrightarrow> n \<in> reg \<Longrightarrow> \<exists>k v. S k = Some v \<and> om_Name (kd_meta K v) = n \<and> has_finalizer K v"
  by (simp add: registered_ok_def)

lemma store_ok_empty [simp]: "store_ok K (\<lambda>_. None)" "registered_ok K {} S"
  by (simp_all add: store_ok_def registered_ok_def)

lemma store_ok_upd:
  assumes "store_ok K S" and "\<And>w. x = Some w \<Longrightarrow> kd_key K w = k \<and> conds_ok (kd_conditions K (kd_status K w))"
  shows "store_ok K (S(k := x))"
  using assms by (auto simp: store_ok_def)

text \<open>An update of one object that keeps its finalizer and its name keeps the registered names.\<close>

lemma registered_ok_upd:
  assumes "registered_ok K reg S" and "reg' \<subseteq> reg"
    and "\<And>v. S k = Some v \<Longrightarrow> has_finalizer K v \<Longrightarrow> om_Name (kd_meta K v) \<in> reg' \<Longrightarrow>
      \<exists>w. x = Some w \<and> om_Name (kd_meta K w) = om_Name (kd_meta K v) \<and> has_finalizer K w"
  shows "registered_ok K reg' (S(k := x))"
  unfolding registered_ok_def
proof
  fix n assume n: "n \<in> reg'"
  then obtain j v where v: "S j = Some v" "om_Name (kd_meta K v) = n" "has_finalizer K v"
    using assms(1,2) unfolding registered_ok_def by (meson subsetD)
  show "\<exists>j v. (S(k := x)) j = Some v \<and> om_Name (kd_meta K v) = n \<and> has_finalizer K v"
  proof (cases "j = k")
    case True
    then show ?thesis using assms(3) [of v] v n by (auto intro!: exI [of _ k])
  next
    case False
    then show ?thesis using v by (intro exI [of _ j] exI [of _ v]) simp
  qed
qed

lemma user_write_ok:
  assumes "store_ok K S" and "registered_ok K reg S" and "user_write K k (S k) x" and "conds_ok (kd_conditions K (kd_zero K))"
  shows "store_ok K (S(k := x))" and "registered_ok K reg (S(k := x))"
proof -
  show "store_ok K (S(k := x))" using assms
    by (auto intro!: store_ok_upd simp: user_write_def store_ok_def split: option.splits)
  show "registered_ok K reg (S(k := x))" using assms(3)
    by (intro registered_ok_upd [OF assms(2) order_refl]) (auto simp: user_write_def split: option.splits)
qed

section \<open>The contract of a reconciler\<close>

text \<open>
  \<open>registered m\<close> are the names that the manager behind the reconciler keeps. The laws: without an
  object nothing happens; an update only adds the finalizer, or takes it off an object that is
  marked for deletion and whose name is no longer registered; a name is only registered for an
  object that has the finalizer; conditions stay well formed.
\<close>

locale reconciler =
  fixes K :: "('o, 'k, 'sp, 'st) kind"
    and get :: "'e \<Rightarrow> 'o api_get"
    and reconcile :: "'e \<Rightarrow> 'm \<Rightarrow> (string, Result) outcome \<times> ('o, 'w) kube_call list \<times> 'm"
    and registered :: "'m \<Rightarrow> string set"
  assumes no_object: "\<forall>v. get e \<noteq> Found v \<Longrightarrow> snd (reconcile e m) = ([], m)"
    and updates: "get e = Found v \<Longrightarrow> reconcile e m = (r, calls, m') \<Longrightarrow> CallUpdate u \<in> set calls \<Longrightarrow>
      kd_spec K u = kd_spec K v \<and>
      (kd_meta K u = AddFinalizer (kd_meta K v) (kd_finalizer K) \<and> \<not> deleting K v \<or>
       kd_meta K u = RemoveFinalizer (kd_meta K v) (kd_finalizer K) \<and> deleting K v \<and> om_Name (kd_meta K v) \<notin> registered m')"
    and registers: "get e = Found v \<Longrightarrow> reconcile e m = (r, calls, m') \<Longrightarrow>
      registered m' \<subseteq> registered m \<union> {n. n = om_Name (kd_meta K v) \<and> has_finalizer K v}"
    and conditions: "get e = Found v \<Longrightarrow> reconcile e m = (r, calls, m') \<Longrightarrow> CallStatusUpdate u \<in> set calls \<Longrightarrow>
      conds_ok (kd_conditions K (kd_status K v)) \<Longrightarrow> conds_ok (kd_conditions K (kd_status K u))"
begin

lemma meta_after:
  assumes "get e = Found v" and "reconcile e m = (r, calls, m')" and "api_write K ue se calls (Some v) (Some w)"
  shows "om_Name (kd_meta K w) = om_Name (kd_meta K v)" and "kd_spec K w = kd_spec K v"
    and "has_finalizer K v \<Longrightarrow> om_Name (kd_meta K v) \<in> registered m' \<Longrightarrow> has_finalizer K w"
proof -
  have "kd_meta K w = kd_meta K v \<and> kd_spec K w = kd_spec K v \<or>
      (\<exists>u. CallUpdate u \<in> set calls \<and> kd_meta K w = kd_meta K u \<and> kd_spec K w = kd_spec K u)"
    using assms(3) by (simp add: api_write_def)
  then have w: "kd_spec K w = kd_spec K v \<and> (kd_meta K w = kd_meta K v \<or> kd_meta K w = AddFinalizer (kd_meta K v) (kd_finalizer K) \<or>
      kd_meta K w = RemoveFinalizer (kd_meta K v) (kd_finalizer K) \<and> om_Name (kd_meta K v) \<notin> registered m')"
    using updates [OF assms(1,2)] by metis
  then show "om_Name (kd_meta K w) = om_Name (kd_meta K v)" "kd_spec K w = kd_spec K v"
    by (auto simp: AddFinalizer_def RemoveFinalizer_def)
  show "has_finalizer K v \<Longrightarrow> om_Name (kd_meta K v) \<in> registered m' \<Longrightarrow> has_finalizer K w"
    using w by (auto simp: has_finalizer_def AddFinalizer_def ContainsFinalizer_def)
qed

lemma gone_unregistered:
  assumes "get e = Found v" and "reconcile e m = (r, calls, m')" and "api_write K ue se calls (Some v) None"
  shows "deleting K v" and "om_Name (kd_meta K v) \<notin> registered m'"
proof -
  obtain u where "CallUpdate u \<in> set calls" "finalized K u" using assms(3) by (auto simp: api_write_def)
  with updates [OF assms(1,2) this(1)] show "deleting K v" "om_Name (kd_meta K v) \<notin> registered m'"
    by (auto simp: finalized_def deleting_def AddFinalizer_def split: if_splits)
qed

text \<open>A reconciliation keeps the stored objects well formed.\<close>

lemma reconcile_store_ok:
  assumes "store_ok K S" and "read_ok (S k) (get e)" and "reconcile e m = (r, calls, m')" and "api_write K ue se calls (S k) x"
  shows "store_ok K (S(k := x))"
proof (rule store_ok_upd [OF assms(1)])
  fix w assume x: "x = Some w"
  then obtain v where v: "S k = Some v" "kd_key K w = kd_key K v"
      "kd_status K w = kd_status K v \<or> (\<exists>u. CallStatusUpdate u \<in> set calls \<and> kd_status K w = kd_status K u)"
    using assms(4) by (auto simp: api_write_def split: option.splits)
  note s = store_okD [OF assms(1) v(1)]
  show "kd_key K w = k \<and> conds_ok (kd_conditions K (kd_status K w))"
  proof (cases "get e = Found v")
    case True
    then show ?thesis using v s conditions [OF True assms(3)] by auto
  next
    case False
    then have "calls = []" using no_object [of e m] assms(2,3) v(1) by (cases "get e") auto
    then show ?thesis using v s by simp
  qed
qed

text \<open>Whatever the API answers, a registered name stays one of an object that the finalizer keeps.\<close>

lemma reconcile_registered_ok:
  assumes "registered_ok K (registered m) S" and "read_ok (S k) (get e)" and "reconcile e m = (r, calls, m')"
    and "api_write K ue se calls (S k) x"
  shows "registered_ok K (registered m') (S(k := x))"
proof (cases "\<exists>v. get e = Found v")
  case True
  then obtain v where v: "get e = Found v" "S k = Some v" using assms(2) by auto
  let ?reg = "registered m \<union> {n. n = om_Name (kd_meta K v) \<and> has_finalizer K v}"
  have "registered_ok K ?reg S" using assms(1) v(2) by (auto simp: registered_ok_def)
  then show ?thesis
  proof (rule registered_ok_upd [OF _ registers [OF v(1) assms(3)]])
    fix v' assume v': "S k = Some v'" "has_finalizer K v'" "om_Name (kd_meta K v') \<in> registered m'"
    then show "\<exists>w. x = Some w \<and> om_Name (kd_meta K w) = om_Name (kd_meta K v') \<and> has_finalizer K w"
      using v gone_unregistered [OF v(1) assms(3)] meta_after [OF v(1) assms(3)] assms(4) by (cases x) auto
  qed
next
  case False
  then have "calls = []" "m' = m" using no_object [of e m] assms(3) by auto
  then show ?thesis using assms(1,4)
    by (intro registered_ok_upd [OF assms(1)]) (auto simp: api_write_def has_finalizer_def split: option.splits)
qed

text \<open>
  Deletion gets done: once the reconciler takes its finalizer off and no other one is left, an
  update that is accepted makes the object go away.
\<close>

lemma deletion_done:
  assumes "get e = Found v" and "reconcile e m = (r, calls, m')" and "CallUpdate u \<in> set calls" and "deleting K v"
    and "om_Finalizers (kd_meta K v) = [kd_finalizer K]" and "api_write K None se calls (Some v) x"
  shows "x = None"
proof -
  have "kd_meta K u = RemoveFinalizer (kd_meta K v) (kd_finalizer K)" using updates [OF assms(1,2,3)] assms(4) by simp
  then have "finalized K u" using assms(4,5) by (simp add: finalized_def deleting_def RemoveFinalizer_def)
  then show ?thesis using assms(3,6) by (cases x) (auto simp: api_write_def)
qed

end

end
