(* ===== verification/GpuTypes.thy ===== *)
theory GpuTypes
  imports ApiTypes
begin

text \<open>
  The data types of \<open>internal/gpu/manager.go\<close> that the manager shares with its MIG, MPS and
  time-slice sub-managers, and the errors the package returns. \<open>PoolInfo.GPUs\<close> and
  \<open>Manager.gpus\<close> hold pointers to the same \<open>GPUInfo\<close> objects: an object is an element of a heap
  (a list) and a pointer is its index.
\<close>



record Allocation =
  al_ServiceRef :: string
  al_Namespace :: string
  al_AllocatedMemory :: quantity
  al_AllocatedAt :: timestamp
  al_SharingMode :: GPUSharingMode

record MIGInstance =
  mgi_InstanceID :: string
  mgi_Profile :: string
  mgi_Memory :: quantity
  mgi_ComputeUnits :: int
  mgi_InUse :: bool
  mgi_AllocatedTo :: string

record GPUInfo =
  gi_DeviceID :: string
  gi_UUID :: string
  gi_Model :: string
  gi_NodeName :: string
  gi_TotalMemory :: quantity
  gi_AvailableMemory :: quantity
  gi_Utilization :: int
  gi_Temperature :: int
  gi_PowerUsage :: int
  gi_MIGEnabled :: bool
  gi_MIGInstances :: "MIGInstance list"
  gi_Allocations :: "Allocation list"

record AllocationRequest =
  ar_ServiceName :: string
  ar_Namespace :: string
  ar_GPUType :: string
  ar_GPUCount :: int
  ar_Memory :: quantity
  ar_SharingMode :: GPUSharingMode
  ar_MIGProfile :: string
  ar_PoolName :: string

record GPUAllocationInfo =
  ai_NodeName :: string
  ai_DeviceID :: string
  ai_MIGInstance :: string
  ai_Memory :: quantity

record PoolInfo =
  pi_Name :: string
  pi_NodeSelector :: "(string, string) gomap"
  pi_GPUType :: string
  pi_SharingMode :: GPUSharingMode
  pi_MIGProfiles :: "MIGProfileSpec list"
  pi_OversubscriptionRatio :: gofloat
  pi_TotalGPUs :: int
  pi_AvailableGPUs :: int
  pi_GPUs :: "ptr list"

datatype gpu_error =
    NotConfiguredForMode string
  | UnknownMIGProfile string
  | PoolNotFound string
  | NoSuitablePool
  | PoolInUse string string
  | InsufficientGPUs int int
  | InsufficientInstances int int
  | InstanceNotFound string
  | InstanceInUse string
  | NoAvailableGPUs
  | DaemonNotFound string
  | DaemonHasClients
  | PoolConfigNotFound string
  | InvalidPercentage int
  | ClientNotFound string
  | SlotNotFound string
  | GPUNotFound string
  | NoAllocations string
  | InvalidMemoryState string
  | ConfigureFailed gpu_error

definition gpu_key :: "string \<Rightarrow> string \<Rightarrow> string" where
  "gpu_key node dev = node @ ''/'' @ dev"

end
