(* ===== verification/SharingSpec.thy ===== *)
theory SharingSpec
  imports GpuTypes
begin

text \<open>
  The contract the GPU manager relies on when it dispatches a request to the MIG, MPS or
  time-slice sub-manager. \<open>holds s svc ns\<close> counts the units (instances, clients, slots) that are marked
  as the service's in any object the sub-manager has ever created, whether or not one of its tables
  still leads to it; \<open>indexed s svc ns\<close> says that the index which a release goes through leads to all of
  them; \<open>configured s n\<close> says whether it knows the pool \<open>n\<close>; \<open>env\<close> is what a call reads from outside (the clock, the order of a \<open>range\<close> loop).
  The lemmas of the locale are about any sequence of allocations and releases, by any
  number of services.
\<close>

datatype 'env sh_cmd =
    ShAllocate 'env AllocationRequest PoolInfo "GPUInfo list"
  | ShRelease string string

fun sh_run :: "('env \<Rightarrow> 's \<Rightarrow> AllocationRequest \<Rightarrow> PoolInfo \<Rightarrow> GPUInfo list
      \<Rightarrow> (gpu_error, GPUAllocationInfo list) outcome \<times> 's)
    \<Rightarrow> ('s \<Rightarrow> string \<Rightarrow> string \<Rightarrow> 's) \<Rightarrow> 's \<Rightarrow> 'env sh_cmd list \<Rightarrow> 's" where
  "sh_run al rel s [] = s"
| "sh_run al rel s (ShAllocate e req pool gpus # cs) = sh_run al rel (snd (al e s req pool gpus)) cs"
| "sh_run al rel s (ShRelease svc ns # cs) = sh_run al rel (rel s svc ns) cs"

fun sh_env_ok :: "('env \<Rightarrow> bool) \<Rightarrow> 'env sh_cmd \<Rightarrow> bool" where
  "sh_env_ok ok (ShAllocate e req pool gpus) = ok e"
| "sh_env_ok ok (ShRelease svc ns) = True"

fun sh_requests :: "string \<Rightarrow> string \<Rightarrow> 'env sh_cmd \<Rightarrow> bool" where
  "sh_requests svc ns (ShAllocate e req pool gpus) = (ar_ServiceName req = svc \<and> ar_Namespace req = ns)"
| "sh_requests svc ns (ShRelease _ _) = False"

locale sharing_manager =
  fixes allocate :: "'env \<Rightarrow> 's \<Rightarrow> AllocationRequest \<Rightarrow> PoolInfo \<Rightarrow> GPUInfo list
      \<Rightarrow> (gpu_error, GPUAllocationInfo list) outcome \<times> 's"
    and release :: "'s \<Rightarrow> string \<Rightarrow> string \<Rightarrow> 's"
    and configured :: "'s \<Rightarrow> string \<Rightarrow> bool"
    and holds :: "'s \<Rightarrow> string \<Rightarrow> string \<Rightarrow> nat"
    and indexed :: "'s \<Rightarrow> string \<Rightarrow> string \<Rightarrow> bool"
    and inv :: "'s \<Rightarrow> bool"
    and env_ok :: "'env \<Rightarrow> bool"
  assumes inv_allocate: "inv s \<Longrightarrow> env_ok e \<Longrightarrow> inv (snd (allocate e s req pool gpus))"
    and inv_release: "inv s \<Longrightarrow> inv (release s svc ns)"
    and allocate_count: "inv s \<Longrightarrow> env_ok e \<Longrightarrow> allocate e s req pool gpus = (Ok infos, s') \<Longrightarrow>
          int (length infos) = ar_GPUCount req"
    and allocate_unconfigured: "\<not> configured s (pi_Name pool) \<Longrightarrow>
          allocate e s req pool gpus = (Err (PoolNotFound (pi_Name pool)), s)"
    and allocate_other: "inv s \<Longrightarrow> env_ok e \<Longrightarrow> \<not> (ar_ServiceName req = svc \<and> ar_Namespace req = ns) \<Longrightarrow>
          holds (snd (allocate e s req pool gpus)) svc ns \<le> holds s svc ns"
    and release_self: "inv s \<Longrightarrow> indexed s svc ns \<Longrightarrow> holds (release s svc ns) svc ns = 0"
    and release_le: "inv s \<Longrightarrow> holds (release s svc ns) svc' ns' \<le> holds s svc' ns'"
    and release_other: "inv s \<Longrightarrow> \<not> (svc' = svc \<and> ns' = ns) \<Longrightarrow>
          holds (release s svc ns) svc' ns' = holds s svc' ns'"
begin

lemma run_inv: "inv s \<Longrightarrow> \<forall>c \<in> set cs. sh_env_ok env_ok c \<Longrightarrow> inv (sh_run allocate release s cs)"
proof (induction cs arbitrary: s)
  case (Cons c cs)
  then show ?case by (cases c) (auto intro: inv_allocate inv_release)
qed simp

lemma run_other_le:
  assumes "inv s" and "\<forall>c \<in> set cs. sh_env_ok env_ok c" and "\<forall>c \<in> set cs. \<not> sh_requests svc ns c"
  shows "holds (sh_run allocate release s cs) svc ns \<le> holds s svc ns"
  using assms
proof (induction cs arbitrary: s)
  case (Cons c cs)
  show ?case
  proof (cases c)
    case (ShAllocate e req pool gpus)
    let ?s = "snd (allocate e s req pool gpus)"
    have "holds (sh_run allocate release ?s cs) svc ns \<le> holds ?s svc ns"
      using Cons ShAllocate by (intro Cons.IH) (auto intro: inv_allocate)
    also have "\<dots> \<le> holds s svc ns" using Cons.prems ShAllocate by (intro allocate_other) auto
    finally show ?thesis by (simp add: ShAllocate)
  next
    case (ShRelease svc' ns')
    have "holds (sh_run allocate release (release s svc' ns') cs) svc ns \<le> holds (release s svc' ns') svc ns"
      using Cons by (intro Cons.IH) (auto intro: inv_release)
    also have "\<dots> \<le> holds s svc ns" using Cons.prems by (intro release_le) simp
    finally show ?thesis by (simp add: ShRelease)
  qed
qed simp

text \<open>Once released with all it had in the index, a service holds nothing until it asks again, whatever the others do.\<close>

lemma released_stays_released:
  assumes "inv s" and "indexed s svc ns" and "\<forall>c \<in> set cs. sh_env_ok env_ok c" and "\<forall>c \<in> set cs. \<not> sh_requests svc ns c"
  shows "holds (sh_run allocate release (release s svc ns) cs) svc ns = 0"
  using run_other_le [OF inv_release [OF assms(1)] assms(3,4), of svc ns] release_self [OF assms(1,2)]
  by simp

end

end
