(* ===== verification/Mig.thy ===== *)
theory Mig
  imports SharingSpec
begin

text \<open>
  The MIG manager, \<open>internal/gpu/mig.go\<close>. A \<open>MIGInstanceInfo\<close> is reachable both from its
  pool's \<open>Instances\<close> and from the manager's global \<open>instances\<close> index, so the instances are heap
  objects and both maps hold pointers. \<open>mig_ok\<close> is the well-formedness every operation keeps.
\<close>

section \<open>Data\<close>

record MIGProfile =
  mp_Name :: string
  mp_Memory :: quantity
  mp_ComputeSlices :: int
  mp_MemorySlices :: int
  mp_MaxInstances :: int

definition Gi :: "int \<Rightarrow> quantity" where
  "Gi n = n * 2 ^ 30"

definition mk_profile :: "string \<Rightarrow> int \<Rightarrow> int \<Rightarrow> int \<Rightarrow> int \<Rightarrow> string \<times> MIGProfile" where
  "mk_profile n gi cs ms mx = (n, \<lparr>mp_Name = n, mp_Memory = Gi gi, mp_ComputeSlices = cs,
     mp_MemorySlices = ms, mp_MaxInstances = mx\<rparr>)"

definition migProfiles :: "(string, MIGProfile) gomap" where
  "migProfiles =
    [mk_profile ''7g.80gb'' 80 7 8 1, mk_profile ''4g.40gb'' 40 4 4 1,
     mk_profile ''3g.40gb'' 40 3 4 2, mk_profile ''2g.20gb'' 20 2 2 3,
     mk_profile ''1g.10gb'' 10 1 1 7, mk_profile ''1g.5gb'' 5 1 1 7,
     mk_profile ''3g.20gb'' 20 3 4 2, mk_profile ''2g.10gb'' 10 2 2 3,
     mk_profile ''7g.141gb'' 141 7 8 1, mk_profile ''4g.94gb'' 94 4 4 1,
     mk_profile ''3g.47gb'' 47 3 4 2, mk_profile ''2g.24gb'' 24 2 2 3,
     mk_profile ''1g.12gb'' 12 1 1 7]"

record MIGInstanceInfo =
  mi_InstanceID :: string
  mi_GPUUUID :: string
  mi_Profile :: MIGProfile
  mi_NodeName :: string
  mi_InUse :: bool
  mi_AllocatedTo :: string
  mi_Namespace :: string

record MIGPoolConfig =
  mpc_PoolName :: string
  mpc_Profiles :: "MIGProfileSpec list"
  mpc_Instances :: "(string, ptr) gomap"

record MIGManager =
  mm_pools :: "(string, MIGPoolConfig) gomap"
  mm_instances :: "(string, ptr) gomap"
  mm_heap :: "MIGInstanceInfo list"

type_synonym 'k ptr_ord = "('k, ptr) gomap \<Rightarrow> ('k, ptr) gomap"

definition NewMIGManager :: MIGManager where
  "NewMIGManager = \<lparr>mm_pools = [], mm_instances = [], mm_heap = []\<rparr>"

section \<open>Operations\<close>

definition MIG_ConfigurePool :: "MIGManager \<Rightarrow> GPUPool \<Rightarrow> (gpu_error, unit) outcome \<times> MIGManager" where
  "MIG_ConfigurePool m pool =
    (case gps_Sharing (gp_Spec pool) of
       None \<Rightarrow> (Err (NotConfiguredForMode (gp_Name pool)), m)
     | Some sh \<Rightarrow>
         if gss_Mode sh \<noteq> GPUSharingModeMIG then (Err (NotConfiguredForMode (gp_Name pool)), m)
         else case find (\<lambda>p. \<not> gm_has migProfiles (mps_Name p)) (gss_Profiles sh) of
             Some p \<Rightarrow> (Err (UnknownMIGProfile (mps_Name p)), m)
           | None \<Rightarrow> (Ok (), m\<lparr>mm_pools := gm_set (gp_Name pool)
               \<lparr>mpc_PoolName = gp_Name pool, mpc_Profiles = gss_Profiles sh, mpc_Instances = []\<rparr>
               (mm_pools m)\<rparr>))"

definition MIG_CleanupPool :: "string ptr_ord \<Rightarrow> MIGManager \<Rightarrow> string \<Rightarrow> (gpu_error, unit) outcome \<times> MIGManager" where
  "MIG_CleanupPool ord m poolName =
    (case gm_get (mm_pools m) poolName of
       None \<Rightarrow> (Ok (), m)
     | Some config \<Rightarrow>
         case find (\<lambda>(k, p). mi_InUse (mm_heap m ! p)) (ord (mpc_Instances config)) of
           Some (k, p) \<Rightarrow> (Err (PoolInUse poolName (mi_InstanceID (mm_heap m ! p))), m)
         | None \<Rightarrow> (Ok (), m\<lparr>mm_instances := fold (\<lambda>(k, p). gm_del k) (mpc_Instances config) (mm_instances m),
                              mm_pools := gm_del poolName (mm_pools m)\<rparr>))"

fun findAvailableInstances_loop ::
  "MIGInstanceInfo list \<Rightarrow> string \<Rightarrow> int \<Rightarrow> ptr list \<Rightarrow> (string, ptr) gomap \<Rightarrow> ptr list" where
  "findAvailableInstances_loop h profileName cnt available [] = available"
| "findAvailableInstances_loop h profileName cnt available ((k, p) # rest) =
     (if mp_Name (mi_Profile (h ! p)) = profileName \<and> \<not> mi_InUse (h ! p)
      then (if cnt \<le> int (length (available @ [p])) then available @ [p]
            else findAvailableInstances_loop h profileName cnt (available @ [p]) rest)
      else findAvailableInstances_loop h profileName cnt available rest)"

definition findAvailableInstances ::
  "string ptr_ord \<Rightarrow> MIGManager \<Rightarrow> MIGPoolConfig \<Rightarrow> string \<Rightarrow> int \<Rightarrow> ptr list" where
  "findAvailableInstances ord m config profileName cnt =
     findAvailableInstances_loop (mm_heap m) profileName cnt [] (ord (mpc_Instances config))"

definition mig_instance_id :: "string \<Rightarrow> int \<Rightarrow> string" where
  "mig_instance_id profileName n = ''mig-'' @ profileName @ ''-'' @ itoa n"

fun createInstances_loop :: "MIGProfile \<Rightarrow> string \<Rightarrow> nat \<Rightarrow> nat \<Rightarrow> MIGPoolConfig \<Rightarrow> MIGManager \<Rightarrow> ptr list
    \<Rightarrow> ptr list \<times> MIGPoolConfig \<times> MIGManager" where
  "createInstances_loop prof profileName i 0 config m created = (created, config, m)"
| "createInstances_loop prof profileName i (Suc n) config m created =
     (let instanceID = mig_instance_id profileName (int (length (mpc_Instances config)) + int i);
          inst = \<lparr>mi_InstanceID = instanceID, mi_GPUUUID = ''GPU-simulated-'' @ itoa (int i),
                 mi_Profile = prof, mi_NodeName = ''node-1'', mi_InUse = False,
                 mi_AllocatedTo = '''', mi_Namespace = ''''\<rparr>;
          p = length (mm_heap m);
          config' = config\<lparr>mpc_Instances := gm_set instanceID p (mpc_Instances config)\<rparr>;
          m' = m\<lparr>mm_heap := mm_heap m @ [inst], mm_instances := gm_set instanceID p (mm_instances m)\<rparr>
      in createInstances_loop prof profileName (Suc i) n config' m' (created @ [p]))"

definition createInstances :: "MIGManager \<Rightarrow> MIGPoolConfig \<Rightarrow> string \<Rightarrow> nat
    \<Rightarrow> (gpu_error, ptr list) outcome \<times> MIGPoolConfig \<times> MIGManager" where
  "createInstances m config profileName cnt =
     (case gm_get migProfiles profileName of
        None \<Rightarrow> (Err (UnknownMIGProfile profileName), config, m)
      | Some prof \<Rightarrow> (case createInstances_loop prof profileName 0 cnt config m [] of
          (created, config', m') \<Rightarrow> (Ok created, config', m')))"

definition mig_take :: "AllocationRequest \<Rightarrow> MIGInstanceInfo \<Rightarrow> MIGInstanceInfo" where
  "mig_take req inst = inst\<lparr>mi_InUse := True, mi_AllocatedTo := ar_ServiceName req,
     mi_Namespace := ar_Namespace req\<rparr>"

definition mig_info :: "MIGProfile \<Rightarrow> MIGInstanceInfo \<Rightarrow> GPUAllocationInfo" where
  "mig_info prof inst = \<lparr>ai_NodeName = mi_NodeName inst, ai_DeviceID = mi_GPUUUID inst,
     ai_MIGInstance = mi_InstanceID inst, ai_Memory = mp_Memory prof\<rparr>"

text \<open>
  \<open>make\<close> with a negative capacity panics; a service that reaches the manager through the
  controller has a count of at least one.
\<close>

definition mig_grant :: "MIGProfile \<Rightarrow> AllocationRequest \<Rightarrow> ptr list \<Rightarrow> MIGManager
    \<Rightarrow> (gpu_error, GPUAllocationInfo list) outcome \<times> MIGManager" where
  "mig_grant prof req available m =
     (if int (length available) < ar_GPUCount req
      then (Err (InsufficientInstances (ar_GPUCount req) (int (length available))), m)
      else if ar_GPUCount req < 0 then (Panic, m)
      else let ps = take (nat (ar_GPUCount req)) available in
        (Ok (map (\<lambda>p. mig_info prof (mm_heap m ! p)) ps),
         m\<lparr>mm_heap := heap_upd (mig_take req) ps (mm_heap m)\<rparr>))"

definition MIG_Allocate :: "string ptr_ord \<Rightarrow> MIGManager \<Rightarrow> AllocationRequest \<Rightarrow> PoolInfo
    \<Rightarrow> (gpu_error, GPUAllocationInfo list) outcome \<times> MIGManager" where
  "MIG_Allocate ord m req pool =
    (case gm_get (mm_pools m) (pi_Name pool) of
       None \<Rightarrow> (Err (PoolNotFound (pi_Name pool)), m)
     | Some config \<Rightarrow>
         case gm_get migProfiles (ar_MIGProfile req) of
           None \<Rightarrow> (Err (UnknownMIGProfile (ar_MIGProfile req)), m)
         | Some prof \<Rightarrow>
             let available = findAvailableInstances ord m config (ar_MIGProfile req) (ar_GPUCount req) in
             if int (length available) < ar_GPUCount req
             then (case createInstances m config (ar_MIGProfile req)
                          (nat (ar_GPUCount req - int (length available))) of
                     (Ok created, config', m') \<Rightarrow>
                        mig_grant prof req (available @ created)
                          (m'\<lparr>mm_pools := gm_set (pi_Name pool) config' (mm_pools m')\<rparr>)
                   | (Err e, config', m') \<Rightarrow> (Err e, m')
                   | (_, config', m') \<Rightarrow> (Panic, m'))
             else mig_grant prof req available m)"

definition mig_free :: "string \<Rightarrow> string \<Rightarrow> MIGInstanceInfo \<Rightarrow> MIGInstanceInfo" where
  "mig_free serviceName namespace inst =
     (if mi_AllocatedTo inst = serviceName \<and> mi_Namespace inst = namespace
      then inst\<lparr>mi_InUse := False, mi_AllocatedTo := '''', mi_Namespace := ''''\<rparr> else inst)"

definition MIG_Release :: "MIGManager \<Rightarrow> string \<Rightarrow> string \<Rightarrow> MIGManager" where
  "MIG_Release m serviceName namespace =
     m\<lparr>mm_heap := heap_upd (mig_free serviceName namespace) (gm_vals (mm_instances m)) (mm_heap m)\<rparr>"

definition MIG_DestroyInstance :: "MIGManager \<Rightarrow> string \<Rightarrow> (gpu_error, unit) outcome \<times> MIGManager" where
  "MIG_DestroyInstance m instanceID =
    (case gm_get (mm_instances m) instanceID of
       None \<Rightarrow> (Err (InstanceNotFound instanceID), m)
     | Some p \<Rightarrow>
         if mi_InUse (mm_heap m ! p) then (Err (InstanceInUse instanceID), m)
         else (Ok (), m\<lparr>mm_pools := gm_map (\<lambda>c. c\<lparr>mpc_Instances := gm_del instanceID (mpc_Instances c)\<rparr>) (mm_pools m),
                        mm_instances := gm_del instanceID (mm_instances m)\<rparr>))"

definition MIG_GetInstance :: "MIGManager \<Rightarrow> string \<Rightarrow> (gpu_error, MIGInstanceInfo) outcome" where
  "MIG_GetInstance m instanceID =
    (case gm_get (mm_instances m) instanceID of
       None \<Rightarrow> Err (InstanceNotFound instanceID)
     | Some p \<Rightarrow> Ok (mm_heap m ! p))"

definition MIG_ListInstances :: "string ptr_ord \<Rightarrow> MIGManager \<Rightarrow> string \<Rightarrow> (gpu_error, MIGInstanceInfo list) outcome" where
  "MIG_ListInstances ord m poolName =
    (case gm_get (mm_pools m) poolName of
       None \<Rightarrow> Err (PoolNotFound poolName)
     | Some config \<Rightarrow> Ok (map (\<lambda>(k, p). mm_heap m ! p) (ord (mpc_Instances config))))"

definition MIG_GetProfile :: "string \<Rightarrow> (gpu_error, MIGProfile) outcome" where
  "MIG_GetProfile profileName = (case gm_get migProfiles profileName of
     None \<Rightarrow> Err (UnknownMIGProfile profileName) | Some prof \<Rightarrow> Ok prof)"

definition MIG_ValidateProfile :: "string \<Rightarrow> bool" where
  "MIG_ValidateProfile profileName = gm_has migProfiles profileName"

definition MIG_GetAvailableProfiles ::
  "((string, MIGProfile) gomap \<Rightarrow> (string, MIGProfile) gomap) \<Rightarrow> string \<Rightarrow> MIGProfile list" where
  "MIG_GetAvailableProfiles ord gpuType =
    (if gpuType \<in> {''nvidia-a100-80gb'', ''nvidia-a100''} then
       map snd (filter (\<lambda>(name, profile). name \<in> {''7g.80gb'', ''4g.40gb'', ''3g.40gb'',
         ''2g.20gb'', ''1g.10gb'', ''1g.5gb''}) (ord migProfiles))
     else if gpuType = ''nvidia-a100-40gb'' then
       map snd (filter (\<lambda>(name, profile). name \<in> {''3g.20gb'', ''2g.10gb'', ''1g.5gb''}) (ord migProfiles))
     else if gpuType = ''nvidia-h100'' then
       map snd (filter (\<lambda>(name, profile). name \<in> {''7g.141gb'', ''4g.94gb'', ''3g.47gb'',
         ''2g.24gb'', ''1g.12gb''}) (ord migProfiles))
     else map snd (ord migProfiles))"

text \<open>
  \<open>ReconcileInstances\<close> only compares counts and logs; the model returns what it would log,
  one entry per profile of the pool: how many instances it misses, or how many are in excess.
\<close>

datatype mig_drift = MigNeeded string int | MigExcess string int

definition mig_count :: "MIGManager \<Rightarrow> MIGPoolConfig \<Rightarrow> string \<Rightarrow> int" where
  "mig_count m config n =
     wrap32 (int (length (filter (\<lambda>(k, p). mp_Name (mi_Profile (mm_heap m ! p)) = n) (mpc_Instances config))))"

definition MIG_ReconcileInstances :: "MIGManager \<Rightarrow> string \<Rightarrow> (gpu_error, mig_drift list) outcome" where
  "MIG_ReconcileInstances m poolName =
    (case gm_get (mm_pools m) poolName of
       None \<Rightarrow> Err (PoolNotFound poolName)
     | Some config \<Rightarrow> Ok (concat (map (\<lambda>ps.
         let cur = mig_count m config (mps_Name ps); want = mps_Count ps in
         if cur < want then [MigNeeded (mps_Name ps) (wrap32 (want - cur))]
         else if cur > want then [MigExcess (mps_Name ps) (wrap32 (cur - want))] else [])
         (mpc_Profiles config))))"

section \<open>Well-formedness\<close>

abbreviation mig_index_ok :: "MIGInstanceInfo list \<Rightarrow> (string, ptr) gomap \<Rightarrow> bool" where
  "mig_index_ok \<equiv> ix_ok mi_InstanceID"

definition mig_ok :: "MIGManager \<Rightarrow> bool" where
  "mig_ok m \<longleftrightarrow> gm_ok (mm_pools m) \<and> mig_index_ok (mm_heap m) (mm_instances m) \<and>
     (\<forall>(n, c) \<in> set (mm_pools m). mig_index_ok (mm_heap m) (mpc_Instances c))"

lemma mig_ok_heap:
  assumes "mig_ok m" and "length h' = length (mm_heap m)"
    and "\<And>i. i < length (mm_heap m) \<Longrightarrow> mi_InstanceID (h' ! i) = mi_InstanceID (mm_heap m ! i)"
  shows "mig_ok (m\<lparr>mm_heap := h'\<rparr>)"
  using assms ix_ok_cong [OF _ assms(2,3)] by (fastforce simp: mig_ok_def)

lemma mig_ok_pool: "mig_ok m \<Longrightarrow> gm_get (mm_pools m) n = Some c \<Longrightarrow> mig_index_ok (mm_heap m) (mpc_Instances c)"
  by (auto simp: mig_ok_def dest: gm_get_mem)

lemma mig_ok_set_pool:
  assumes "mig_ok m" and "mig_index_ok (mm_heap m) (mpc_Instances c)"
  shows "mig_ok (m\<lparr>mm_pools := gm_set n c (mm_pools m)\<rparr>)"
  using assms set_gm_set_subset [of n c "mm_pools m"] by (fastforce simp: mig_ok_def gm_ok_update)

lemma mig_take_ID [simp]: "mi_InstanceID (mig_take req x) = mi_InstanceID x"
  by (simp add: mig_take_def)

lemma mig_free_ID [simp]: "mi_InstanceID (mig_free s n x) = mi_InstanceID x"
  by (simp add: mig_free_def)

lemma mig_free_idem [simp]: "mig_free s n (mig_free s n x) = mig_free s n x"
  by (simp add: mig_free_def)

lemma mig_take_idem [simp]: "mig_take req (mig_take req x) = mig_take req x"
  by (simp add: mig_take_def)

section \<open>The loops of Allocate\<close>

lemma findAvailableInstances_loop_eq:
  "findAvailableInstances_loop h n cnt av xs = av @ take (max 1 (nat (cnt - int (length av))))
     (map snd (filter (\<lambda>(k, p). mp_Name (mi_Profile (h ! p)) = n \<and> \<not> mi_InUse (h ! p)) xs))"
proof (induction h n cnt av xs rule: findAvailableInstances_loop.induct)
  case (2 h n cnt av k p rest)
  show ?case
  proof (cases "mp_Name (mi_Profile (h ! p)) = n \<and> \<not> mi_InUse (h ! p)")
    case True
    show ?thesis
    proof (cases "cnt \<le> int (length (av @ [p]))")
      case True
      then have "max 1 (nat (cnt - int (length av))) = 1" by simp
      with True \<open>mp_Name _ = n \<and> _\<close> show ?thesis by simp
    next
      case False
      then have "max 1 (nat (cnt - int (length av))) = Suc (max 1 (nat (cnt - int (length (av @ [p])))))"
        by simp
      with False \<open>mp_Name _ = n \<and> _\<close> "2.IH"(1) show ?thesis by simp
    qed
  next
    case False
    with "2.IH"(2) show ?thesis by auto
  qed
qed simp

lemma createInstances_loop_spec:
  assumes "createInstances_loop prof pn i n c m cr = (cr', c', m')"
    and "mig_index_ok (mm_heap m) (mpc_Instances c)" and "mig_ok m"
  shows "cr' = cr @ [length (mm_heap m) ..< length (mm_heap m) + n]
    \<and> (\<exists>xs. mm_heap m' = mm_heap m @ xs \<and> length xs = n \<and>
          (\<forall>x \<in> set xs. \<not> mi_InUse x \<and> mi_Profile x = prof))
    \<and> mm_pools m' = mm_pools m \<and> mig_index_ok (mm_heap m') (mpc_Instances c') \<and> mig_ok m'"
  using assms
proof (induction prof pn i n c m cr arbitrary: cr' c' m' rule: createInstances_loop.induct)
  case (2 prof pn i n c m cr)
  let ?id = "mig_instance_id pn (int (length (mpc_Instances c)) + int i)"
  let ?x = "\<lparr>mi_InstanceID = ?id, mi_GPUUUID = ''GPU-simulated-'' @ itoa (int i),
                 mi_Profile = prof, mi_NodeName = ''node-1'', mi_InUse = False,
                 mi_AllocatedTo = '''', mi_Namespace = ''''\<rparr>"
  let ?p = "length (mm_heap m)"
  let ?c = "c\<lparr>mpc_Instances := gm_set ?id ?p (mpc_Instances c)\<rparr>"
  let ?m = "m\<lparr>mm_heap := mm_heap m @ [?x], mm_instances := gm_set ?id ?p (mm_instances m)\<rparr>"
  have call: "createInstances_loop prof pn (Suc i) n ?c ?m (cr @ [?p]) = (cr', c', m')"
    using "2.prems"(1) by (simp add: Let_def)
  have c: "mig_index_ok (mm_heap ?m) (mpc_Instances ?c)"
    using ix_ok_new [OF "2.prems"(2), of ?x ?id] by simp
  have m: "mig_ok ?m"
    using ix_ok_new [of mi_InstanceID "mm_heap m" "mm_instances m" ?x ?id] "2.prems"(3)
    by (fastforce simp: mig_ok_def intro: ix_ok_append)
  note IH = "2.IH" [OF refl refl refl refl refl call c m]
  then obtain xs where xs: "mm_heap m' = mm_heap m @ ?x # xs" "length xs = n"
      "\<forall>x \<in> set xs. \<not> mi_InUse x \<and> mi_Profile x = prof" by auto
  moreover have "cr' = cr @ [?p ..< ?p + Suc n]" using IH by (simp add: upt_conv_Cons)
  ultimately show ?case using IH by (intro conjI exI [of _ "?x # xs"]) auto
qed auto

section \<open>Allocate\<close>

text \<open>
  What a successful \<open>Allocate\<close> does to the heap: the granted pointers are distinct, none of
  them was in use, each is now held by the requesting service, every other object that
  existed is untouched, and no other object is created.
\<close>

definition mig_granted :: "MIGManager \<Rightarrow> AllocationRequest \<Rightarrow> ptr list \<Rightarrow> MIGManager \<Rightarrow> bool" where
  "mig_granted m req ps m' \<longleftrightarrow>
     distinct ps \<and> int (length ps) = ar_GPUCount req \<and>
     (\<forall>p \<in> set ps. p < length (mm_heap m') \<and>
        (p < length (mm_heap m) \<longrightarrow> \<not> mi_InUse (mm_heap m ! p)) \<and>
        mp_Name (mi_Profile (mm_heap m' ! p)) = ar_MIGProfile req \<and>
        mi_InUse (mm_heap m' ! p) \<and> mi_AllocatedTo (mm_heap m' ! p) = ar_ServiceName req \<and>
        mi_Namespace (mm_heap m' ! p) = ar_Namespace req) \<and>
     (\<forall>i < length (mm_heap m). i \<notin> set ps \<longrightarrow> mm_heap m' ! i = mm_heap m ! i) \<and>
     length (mm_heap m) \<le> length (mm_heap m') \<and> {length (mm_heap m) ..< length (mm_heap m')} \<subseteq> set ps"

lemma mig_granted_extend:
  assumes "mig_granted m2 req ps m'" and h: "mm_heap m2 = mm_heap m @ xs"
    and n: "length (mm_heap m') = length (mm_heap m2)" "{length (mm_heap m) ..< length (mm_heap m2)} \<subseteq> set ps"
  shows "mig_granted m req ps m'"
proof -
  have "mm_heap m2 ! i = mm_heap m ! i" "i < length (mm_heap m2)" if "i < length (mm_heap m)" for i
    using that by (simp_all add: h nth_append)
  with assms(1) show ?thesis unfolding mig_granted_def n(1) using n(2) by (metis h length_append le_add1)
qed

text \<open>
  And what it does to the tables, where \<open>c\<close> is the pool's configuration before and \<open>c'\<close> after: an instance
  that existed was the pool's entry under its identifier; one that is new is filed under its identifier in
  the pool's table and in the index, in place of whatever was there; all other entries of both stay.
\<close>

definition mig_filed :: "MIGManager \<Rightarrow> MIGPoolConfig \<Rightarrow> ptr list \<Rightarrow> MIGManager \<Rightarrow> MIGPoolConfig \<Rightarrow> bool" where
  "mig_filed m c ps m' c' \<longleftrightarrow>
     (\<forall>p \<in> set ps. if p < length (mm_heap m)
        then gm_get (mpc_Instances c) (mi_InstanceID (mm_heap m' ! p)) = Some p
        else gm_get (mpc_Instances c') (mi_InstanceID (mm_heap m' ! p)) = Some p \<and>
          gm_get (mm_instances m') (mi_InstanceID (mm_heap m' ! p)) = Some p) \<and>
     (\<forall>k. (\<forall>p \<in> set ps. length (mm_heap m) \<le> p \<longrightarrow> mi_InstanceID (mm_heap m' ! p) \<noteq> k) \<longrightarrow>
        gm_get (mpc_Instances c') k = gm_get (mpc_Instances c) k \<and> gm_get (mm_instances m') k = gm_get (mm_instances m) k)"

lemma mig_instance_id_inj: "mig_instance_id pn d = mig_instance_id pn d' \<longleftrightarrow> d = d'"
  by (auto simp: mig_instance_id_def dest: itoa_inj)

lemma length_gm_set_ge: "length m \<le> length (gm_set k v m)"
  by (simp add: length_gm_set)

lemma createInstances_loop_heap:
  "createInstances_loop prof pn i n c m cr = (cr', c', m') \<Longrightarrow> \<exists>xs. mm_heap m' = mm_heap m @ xs \<and> length xs = n"
proof (induction prof pn i n c m cr arbitrary: cr' c' m' rule: createInstances_loop.induct)
  case (2 prof pn i n c m cr)
  from "2.IH" [OF refl refl refl refl refl] "2.prems" show ?case by (fastforce simp: Let_def)
qed simp

text \<open>The identifiers of one call rise, so that none of its instances takes the place of another.\<close>

lemma createInstances_loop_filed:
  assumes "createInstances_loop prof pn i n c m cr = (cr', c', m')"
  shows "(\<forall>p \<in> {length (mm_heap m) ..< length (mm_heap m')}. \<exists>d \<ge> int (length (mpc_Instances c)) + int i.
        mi_InstanceID (mm_heap m' ! p) = mig_instance_id pn d \<and>
        gm_get (mpc_Instances c') (mig_instance_id pn d) = Some p \<and> gm_get (mm_instances m') (mig_instance_id pn d) = Some p) \<and>
    (\<forall>k. (\<forall>p \<in> {length (mm_heap m) ..< length (mm_heap m')}. mi_InstanceID (mm_heap m' ! p) \<noteq> k) \<longrightarrow>
        gm_get (mpc_Instances c') k = gm_get (mpc_Instances c) k \<and> gm_get (mm_instances m') k = gm_get (mm_instances m) k)"
  using assms
proof (induction prof pn i n c m cr arbitrary: cr' c' m' rule: createInstances_loop.induct)
  case (2 prof pn i n c m cr)
  let ?d = "int (length (mpc_Instances c)) + int i"
  let ?id = "mig_instance_id pn ?d" and ?p = "length (mm_heap m)"
  let ?x = "\<lparr>mi_InstanceID = ?id, mi_GPUUUID = ''GPU-simulated-'' @ itoa (int i),
                 mi_Profile = prof, mi_NodeName = ''node-1'', mi_InUse = False,
                 mi_AllocatedTo = '''', mi_Namespace = ''''\<rparr>"
  let ?c = "c\<lparr>mpc_Instances := gm_set ?id ?p (mpc_Instances c)\<rparr>"
  let ?m = "m\<lparr>mm_heap := mm_heap m @ [?x], mm_instances := gm_set ?id ?p (mm_instances m)\<rparr>"
  have call: "createInstances_loop prof pn (Suc i) n ?c ?m (cr @ [?p]) = (cr', c', m')"
    using "2.prems"(1) by (simp add: Let_def)
  note IH = "2.IH" [OF refl refl refl refl refl call]
  have later: "\<exists>d > ?d. mi_InstanceID (mm_heap m' ! p) = mig_instance_id pn d \<and>
      gm_get (mpc_Instances c') (mig_instance_id pn d) = Some p \<and> gm_get (mm_instances m') (mig_instance_id pn d) = Some p"
    if pp: "p \<in> {Suc ?p ..< length (mm_heap m')}" for p
  proof -
    have "p \<in> {length (mm_heap ?m) ..< length (mm_heap m')}" using pp by simp
    from bspec [OF conjunct1 [OF IH] this] obtain d where "int (length (mpc_Instances ?c)) + int (Suc i) \<le> d" "mi_InstanceID (mm_heap m' ! p) = mig_instance_id pn d"
      "gm_get (mpc_Instances c') (mig_instance_id pn d) = Some p" "gm_get (mm_instances m') (mig_instance_id pn d) = Some p" by blast
    then show ?thesis using length_gm_set_ge [of "mpc_Instances c" ?id ?p] by (intro exI [of _ d]) simp
  qed
  obtain xs where h: "mm_heap m' = mm_heap ?m @ xs" using createInstances_loop_heap [OF call] by blast
  have p: "mi_InstanceID (mm_heap m' ! ?p) = ?id" "?p < length (mm_heap m')" by (simp_all add: h nth_append)
  have this_id: "gm_get (mpc_Instances c') ?id = Some ?p \<and> gm_get (mm_instances m') ?id = Some ?p"
  proof -
    have "\<forall>p \<in> {length (mm_heap ?m) ..< length (mm_heap m')}. mi_InstanceID (mm_heap m' ! p) \<noteq> ?id"
      using later by (fastforce simp: mig_instance_id_inj)
    with IH show ?thesis by (simp add: gm_get_set)
  qed
  have "\<exists>d \<ge> ?d. mi_InstanceID (mm_heap m' ! q) = mig_instance_id pn d \<and>
      gm_get (mpc_Instances c') (mig_instance_id pn d) = Some q \<and> gm_get (mm_instances m') (mig_instance_id pn d) = Some q"
    if q: "q \<in> {?p ..< length (mm_heap m')}" for q
  proof (cases "q = ?p")
    case True
    then show ?thesis using this_id p(1) by (intro exI [of _ ?d]) simp
  next
    case False
    then have "q \<in> {Suc ?p ..< length (mm_heap m')}" using q by simp
    from later [OF this] show ?thesis by (meson less_imp_le)
  qed
  moreover have "gm_get (mpc_Instances c') k = gm_get (mpc_Instances c) k \<and> gm_get (mm_instances m') k = gm_get (mm_instances m) k"
    if k: "\<forall>p \<in> {?p ..< length (mm_heap m')}. mi_InstanceID (mm_heap m' ! p) \<noteq> k" for k
  proof -
    have "k \<noteq> ?id" using k p by force
    with conjunct2 [OF IH] k show ?thesis by (simp add: gm_get_set)
  qed
  ultimately show ?case by blast
qed auto

lemma migProfiles_Name: "gm_get migProfiles n = Some prof \<Longrightarrow> mp_Name prof = n"
  by (auto simp: migProfiles_def mk_profile_def split: if_splits)

lemma mig_grant_spec:
  assumes "0 \<le> ar_GPUCount req" and "nat (ar_GPUCount req) \<le> length av" and "distinct av"
    and "\<forall>p \<in> set av. p < length (mm_heap m) \<and> \<not> mi_InUse (mm_heap m ! p) \<and>
           mp_Name (mi_Profile (mm_heap m ! p)) = ar_MIGProfile req"
    and "mig_ok m"
  shows "\<exists>m'. mig_grant prof req av m =
      (Ok (map (\<lambda>p. mig_info prof (mm_heap m' ! p)) (take (nat (ar_GPUCount req)) av)), m')
    \<and> mig_granted m req (take (nat (ar_GPUCount req)) av) m' \<and> mig_ok m'
    \<and> mm_pools m' = mm_pools m \<and> mm_instances m' = mm_instances m
    \<and> length (mm_heap m') = length (mm_heap m)
    \<and> (\<forall>i < length (mm_heap m). mi_InstanceID (mm_heap m' ! i) = mi_InstanceID (mm_heap m ! i))"
proof -
  let ?ps = "take (nat (ar_GPUCount req)) av"
  let ?h = "heap_upd (mig_take req) ?ps (mm_heap m)"
  have nth: "?h ! i = (if i \<in> set ?ps then mig_take req (mm_heap m ! i) else mm_heap m ! i)"
    if "i < length (mm_heap m)" for i
    using that by (intro nth_heap_upd) auto
  have ps: "set ?ps \<subseteq> set av" by (rule set_take_subset)
  have info: "mig_info prof (mm_heap m ! p) = mig_info prof (?h ! p)" if "p \<in> set ?ps" for p
    using that ps assms(4) nth [of p] by (auto simp: mig_info_def mig_take_def)
  then have "map (\<lambda>p. mig_info prof (mm_heap m ! p)) ?ps = map (\<lambda>p. mig_info prof (?h ! p)) ?ps"
    by (rule map_cong [OF refl])
  moreover have "mig_grant prof req av m =
      (Ok (map (\<lambda>p. mig_info prof (mm_heap m ! p)) ?ps), m\<lparr>mm_heap := ?h\<rparr>)"
    using assms(1,2) by (simp add: mig_grant_def Let_def nat_le_iff)
  ultimately have "mig_grant prof req av m =
      (Ok (map (\<lambda>p. mig_info prof (?h ! p)) ?ps), m\<lparr>mm_heap := ?h\<rparr>)" by (simp only:)
  moreover have "mig_granted m req ?ps (m\<lparr>mm_heap := ?h\<rparr>)"
  proof -
    have "\<forall>p \<in> set ?ps. p < length (mm_heap m) \<and> \<not> mi_InUse (mm_heap m ! p) \<and>
           mp_Name (mi_Profile (mm_heap m ! p)) = ar_MIGProfile req"
      using ps assms(4) by blast
    then show ?thesis
      using assms(1,2,3) by (simp add: mig_granted_def nth mig_take_def)
  qed
  moreover have "mig_ok (m\<lparr>mm_heap := ?h\<rparr>)"
    using assms(5) by (rule mig_ok_heap) (simp_all add: nth)
  ultimately show ?thesis by (intro exI [of _ "m\<lparr>mm_heap := ?h\<rparr>"]) (simp add: nth)
qed

lemma findAvailableInstances_props:
  fixes pn cnt
  assumes "mig_ok m" and "range_ok ord" and "gm_get (mm_pools m) n = Some c"
  defines "av \<equiv> findAvailableInstances ord m c pn cnt"
  shows "distinct av" and "\<forall>p \<in> set av. p < length (mm_heap m) \<and> \<not> mi_InUse (mm_heap m ! p) \<and>
           mp_Name (mi_Profile (mm_heap m ! p)) = pn"
    and "\<forall>p \<in> set av. gm_get (mpc_Instances c) (mi_InstanceID (mm_heap m ! p)) = Some p"
proof -
  let ?Q = "\<lambda>(k, p). mp_Name (mi_Profile (mm_heap m ! p)) = pn \<and> \<not> mi_InUse (mm_heap m ! p)"
  have av: "av = take (max 1 (nat cnt)) (map snd (filter ?Q (ord (mpc_Instances c))))"
    by (simp add: av_def findAvailableInstances_def findAvailableInstances_loop_eq)
  have ok: "mig_index_ok (mm_heap m) (mpc_Instances c)" using assms(1,3) by (rule mig_ok_pool)
  have "distinct (map snd (ord (mpc_Instances c)))"
    using assms(2) ok ix_ok_ptrs_distinct by (simp add: range_ok_distinct)
  then show "distinct av" by (simp add: av distinct_map_filter)
  have "set av \<subseteq> set (map snd (filter ?Q (ord (mpc_Instances c))))"
    unfolding av by (rule set_take_subset)
  then have sub: "set av \<subseteq> snd ` {x \<in> set (mpc_Instances c). ?Q x}"
    by (simp only: set_map set_filter range_ok_set [OF assms(2)])
  show "\<forall>p \<in> set av. gm_get (mpc_Instances c) (mi_InstanceID (mm_heap m ! p)) = Some p"
    using sub ok by (fastforce simp: ix_ok_def)
  show "\<forall>p \<in> set av. p < length (mm_heap m) \<and> \<not> mi_InUse (mm_heap m ! p) \<and>
           mp_Name (mi_Profile (mm_heap m ! p)) = pn"
  proof
    fix p assume "p \<in> set av"
    then have "p \<in> snd ` {x \<in> set (mpc_Instances c). ?Q x}" using sub by (rule subsetD [rotated])
    then obtain x where x: "x \<in> set (mpc_Instances c)" "?Q x" "p = snd x" by (elim imageE CollectE conjE)
    then have kp: "(fst x, p) \<in> set (mpc_Instances c)" "?Q (fst x, p)"
      by (simp_all add: case_prod_beta)
    then have "p < length (mm_heap m)" using ok by (auto simp: ix_ok_def)
    with kp(2) show "p < length (mm_heap m) \<and> \<not> mi_InUse (mm_heap m ! p) \<and>
           mp_Name (mi_Profile (mm_heap m ! p)) = pn" by simp
  qed
qed

lemma mig_filed_append:
  assumes "\<forall>p \<in> set av. p < length (mm_heap m) \<and> Q p"
    and "\<forall>p \<in> set av. gm_get (mpc_Instances c) (mi_InstanceID (mm_heap m ! p)) = Some p"
    and "mm_heap m1 = mm_heap m @ xs" and "{length (mm_heap m) ..< length (mm_heap m1)} = set cr"
    and "\<forall>p \<in> set cr. gm_get (mpc_Instances c') (mi_InstanceID (mm_heap m1 ! p)) = Some p \<and>
      gm_get (mm_instances m1) (mi_InstanceID (mm_heap m1 ! p)) = Some p"
    and "\<And>k. (\<forall>p \<in> set cr. mi_InstanceID (mm_heap m1 ! p) \<noteq> k) \<Longrightarrow>
      gm_get (mpc_Instances c') k = gm_get (mpc_Instances c) k \<and> gm_get (mm_instances m1) k = gm_get (mm_instances m) k"
    and "mm_instances m' = mm_instances m1" and "length (mm_heap m') = length (mm_heap m1)"
    and "\<forall>i < length (mm_heap m1). mi_InstanceID (mm_heap m' ! i) = mi_InstanceID (mm_heap m1 ! i)"
  shows "mig_filed m c (av @ cr) m' c'"
proof -
  have cr: "length (mm_heap m) \<le> p \<and> mi_InstanceID (mm_heap m' ! p) = mi_InstanceID (mm_heap m1 ! p)" if "p \<in> set cr" for p
    using that assms(4,9) by fastforce
  have av: "p < length (mm_heap m) \<and> mi_InstanceID (mm_heap m' ! p) = mi_InstanceID (mm_heap m ! p)" if "p \<in> set av" for p
    using that assms(1,3,9) by (auto simp: nth_append)
  have "gm_get (mpc_Instances c') k = gm_get (mpc_Instances c) k \<and> gm_get (mm_instances m') k = gm_get (mm_instances m) k"
    if "\<forall>p \<in> set (av @ cr). length (mm_heap m) \<le> p \<longrightarrow> mi_InstanceID (mm_heap m' ! p) \<noteq> k" for k
    using that assms(6) [of k] assms(7) cr by auto
  then show ?thesis unfolding mig_filed_def using av cr assms(2,5,7) by (auto simp: not_less [symmetric])
qed

lemma createInstances_filed:
  assumes "createInstances_loop prof pn i n c m cr = (cr', c', m')" and "{length (mm_heap m) ..< length (mm_heap m')} = set ps"
  shows "\<forall>p \<in> set ps. gm_get (mpc_Instances c') (mi_InstanceID (mm_heap m' ! p)) = Some p \<and>
      gm_get (mm_instances m') (mi_InstanceID (mm_heap m' ! p)) = Some p"
    and "(\<forall>p \<in> set ps. mi_InstanceID (mm_heap m' ! p) \<noteq> k) \<Longrightarrow>
      gm_get (mpc_Instances c') k = gm_get (mpc_Instances c) k \<and> gm_get (mm_instances m') k = gm_get (mm_instances m) k"
  using createInstances_loop_filed [OF assms(1)] unfolding assms(2) by (force, blast)

lemma MIG_Allocate_tables:
  assumes ok: "mig_ok m" and ord: "range_ok ord" and c: "gm_get (mm_pools m) (pi_Name pool) = Some c"
    and prof: "gm_get migProfiles (ar_MIGProfile req) = Some prof" and cnt: "0 \<le> ar_GPUCount req"
  shows "\<exists>ps m' c'. MIG_Allocate ord m req pool = (Ok (map (\<lambda>p. mig_info prof (mm_heap m' ! p)) ps), m')
    \<and> mig_granted m req ps m' \<and> mig_ok m' \<and> mig_filed m c ps m' c'
    \<and> gm_get (mm_pools m') = (gm_get (mm_pools m))(pi_Name pool \<mapsto> c')"
proof -
  let ?av = "findAvailableInstances ord m c (ar_MIGProfile req) (ar_GPUCount req)"
  note av = findAvailableInstances_props [OF ok ord c, of "ar_MIGProfile req" "ar_GPUCount req"]
  show ?thesis
  proof (cases "int (length ?av) < ar_GPUCount req")
    case False
    then have len: "nat (ar_GPUCount req) \<le> length ?av" by simp
    have "MIG_Allocate ord m req pool = mig_grant prof req ?av m"
      using False c prof by (simp add: MIG_Allocate_def Let_def)
    moreover obtain m' where g: "mig_grant prof req ?av m =
        (Ok (map (\<lambda>p. mig_info prof (mm_heap m' ! p)) (take (nat (ar_GPUCount req)) ?av)), m')"
        "mig_granted m req (take (nat (ar_GPUCount req)) ?av) m'" "mig_ok m'"
        "mm_pools m' = mm_pools m" "mm_instances m' = mm_instances m"
        "\<forall>i < length (mm_heap m). mi_InstanceID (mm_heap m' ! i) = mi_InstanceID (mm_heap m ! i)"
      using mig_grant_spec [OF cnt len av(1,2) ok, of prof] by auto
    moreover have "mig_filed m c (take (nat (ar_GPUCount req)) ?av) m' c"
      using av(2,3) g(5,6) by (auto simp: mig_filed_def dest!: in_set_takeD)
    moreover have "gm_get (mm_pools m') = (gm_get (mm_pools m))(pi_Name pool \<mapsto> c)" using c g(4) by auto
    ultimately show ?thesis by metis
  next
    case True
    let ?n = "nat (ar_GPUCount req - int (length ?av))"
    obtain cr c' m1 where loop: "createInstances_loop prof (ar_MIGProfile req) 0 ?n c m [] = (cr, c', m1)"
      by (metis prod_cases3)
    note spec = createInstances_loop_spec [OF loop mig_ok_pool [OF ok c] ok]
    then obtain xs where h1: "mm_heap m1 = mm_heap m @ xs" and lx: "length xs = ?n"
      and xs: "\<forall>x \<in> set xs. \<not> mi_InUse x \<and> mi_Profile x = prof" by auto
    have cr: "cr = [length (mm_heap m) ..< length (mm_heap m) + ?n]" using spec by simp
    let ?m2 = "m1\<lparr>mm_pools := gm_set (pi_Name pool) c' (mm_pools m1)\<rparr>"
    have ok2: "mig_ok ?m2" using spec by (intro mig_ok_set_pool) auto
    have avail: "\<forall>p \<in> set (?av @ cr). p < length (mm_heap ?m2) \<and> \<not> mi_InUse (mm_heap ?m2 ! p) \<and>
           mp_Name (mi_Profile (mm_heap ?m2 ! p)) = ar_MIGProfile req"
    proof
      fix p assume "p \<in> set (?av @ cr)"
      then consider "p \<in> set ?av" | "p \<in> set cr" by auto
      then show "p < length (mm_heap ?m2) \<and> \<not> mi_InUse (mm_heap ?m2 ! p) \<and>
           mp_Name (mi_Profile (mm_heap ?m2 ! p)) = ar_MIGProfile req"
      proof cases
        case 1
        then have "p < length (mm_heap m) \<and> \<not> mi_InUse (mm_heap m ! p) \<and>
           mp_Name (mi_Profile (mm_heap m ! p)) = ar_MIGProfile req" using av(2) by blast
        then show ?thesis by (simp add: h1 nth_append)
      next
        case 2
        then have "\<not> p < length (mm_heap m)" "p - length (mm_heap m) < length xs"
          by (auto simp: cr lx)
        with xs migProfiles_Name [OF prof] show ?thesis by (simp add: h1 nth_append)
      qed
    qed
    have dist: "distinct (?av @ cr)" using av by (fastforce simp: cr)
    have len: "nat (ar_GPUCount req) \<le> length (?av @ cr)" using True by (simp add: cr)
    obtain m' where g: "mig_grant prof req (?av @ cr) ?m2 =
        (Ok (map (\<lambda>p. mig_info prof (mm_heap m' ! p)) (take (nat (ar_GPUCount req)) (?av @ cr))), m')"
      and gr: "mig_granted ?m2 req (take (nat (ar_GPUCount req)) (?av @ cr)) m'" and ok': "mig_ok m'"
      and t: "mm_pools m' = mm_pools ?m2" "mm_instances m' = mm_instances m1" "length (mm_heap m') = length (mm_heap m1)"
        "\<forall>i < length (mm_heap m1). mi_InstanceID (mm_heap m' ! i) = mi_InstanceID (mm_heap m1 ! i)"
      using mig_grant_spec [OF cnt len dist avail ok2, of prof] by auto
    have ps: "take (nat (ar_GPUCount req)) (?av @ cr) = ?av @ cr" using True by (simp add: cr)
    have new: "{length (mm_heap m) ..< length (mm_heap m1)} = set cr" by (simp add: cr h1 lx)
    have "mig_granted m req (take (nat (ar_GPUCount req)) (?av @ cr)) m'"
      using gr by (rule mig_granted_extend) (use t(3) new in \<open>simp_all add: h1 ps del: take_append\<close>)
    moreover have "mig_filed m c (take (nat (ar_GPUCount req)) (?av @ cr)) m' c'"
      unfolding ps using mig_filed_append [OF av(2,3) h1 new createInstances_filed [OF loop new] t(2-4)] .
    moreover have "gm_get (mm_pools m') = (gm_get (mm_pools m))(pi_Name pool \<mapsto> c')"
      using spec by (simp add: t(1) gm_get_set fun_eq_iff)
    moreover have "MIG_Allocate ord m req pool = mig_grant prof req (?av @ cr) ?m2"
      using True c prof loop by (simp add: MIG_Allocate_def createInstances_def Let_def)
    ultimately show ?thesis using g ok' by metis
  qed
qed

text \<open>An identifier that was reported leads to one of the granted instances.\<close>

lemma mig_filed_led:
  assumes "mig_filed m c ps m' c'" and "p \<in> set ps"
  shows "\<exists>q \<in> set ps. gm_get (mpc_Instances c') (mi_InstanceID (mm_heap m' ! p)) = Some q"
proof (cases "\<exists>q \<in> set ps. length (mm_heap m) \<le> q \<and> mi_InstanceID (mm_heap m' ! q) = mi_InstanceID (mm_heap m' ! p)")
  case True
  then obtain q where "q \<in> set ps" "length (mm_heap m) \<le> q" "mi_InstanceID (mm_heap m' ! q) = mi_InstanceID (mm_heap m' ! p)" by blast
  then show ?thesis using assms(1) unfolding mig_filed_def by (metis not_less)
next
  case False
  then have "gm_get (mpc_Instances c') (mi_InstanceID (mm_heap m' ! p)) = gm_get (mpc_Instances c) (mi_InstanceID (mm_heap m' ! p))"
    using assms(1) unfolding mig_filed_def by blast
  moreover have "p < length (mm_heap m)" using False assms(2) not_less by blast
  ultimately show ?thesis using assms unfolding mig_filed_def by fastforce
qed

lemma MIG_Allocate_spec:
  assumes "mig_ok m" and "range_ok ord" and "gm_get (mm_pools m) (pi_Name pool) = Some c"
    and "gm_get migProfiles (ar_MIGProfile req) = Some prof" and "0 \<le> ar_GPUCount req"
  shows "\<exists>ps m'. MIG_Allocate ord m req pool = (Ok (map (\<lambda>p. mig_info prof (mm_heap m' ! p)) ps), m')
    \<and> mig_granted m req ps m' \<and> mig_ok m'"
  using MIG_Allocate_tables [OF assms] by blast

lemma MIG_Allocate_error:
  assumes "gm_get (mm_pools m) (pi_Name pool) = None \<or> gm_get migProfiles (ar_MIGProfile req) = None"
  shows "\<exists>e. MIG_Allocate ord m req pool = (Err e, m)"
  using assms by (cases "gm_get (mm_pools m) (pi_Name pool)") (auto simp: MIG_Allocate_def)

lemma MIG_Allocate_negative:
  assumes "gm_get (mm_pools m) (pi_Name pool) = Some c" "gm_get migProfiles (ar_MIGProfile req) = Some prof"
    and "ar_GPUCount req < 0"
  shows "MIG_Allocate ord m req pool = (Panic, m)"
  using assms by (auto simp: MIG_Allocate_def mig_grant_def Let_def)

lemma MIG_Allocate_ok [inv_intros]:
  assumes "mig_ok m" and "range_ok ord"
  shows "mig_ok (snd (MIG_Allocate ord m req pool))"
proof (cases "gm_get (mm_pools m) (pi_Name pool) = None \<or> gm_get migProfiles (ar_MIGProfile req) = None")
  case True
  with MIG_Allocate_error [OF True, of ord] assms show ?thesis by auto
next
  case False
  then obtain c prof where *: "gm_get (mm_pools m) (pi_Name pool) = Some c"
    "gm_get migProfiles (ar_MIGProfile req) = Some prof" by auto
  show ?thesis
  proof (cases "ar_GPUCount req < 0")
    case True
    with MIG_Allocate_negative [OF * True] assms show ?thesis by simp
  next
    case False
    then show ?thesis using MIG_Allocate_spec [OF assms *] by auto
  qed
qed

section \<open>What a service holds\<close>

definition mig_held_by :: "string \<Rightarrow> string \<Rightarrow> MIGInstanceInfo \<Rightarrow> bool" where
  "mig_held_by svc ns x \<longleftrightarrow> mi_InUse x \<and> mi_AllocatedTo x = svc \<and> mi_Namespace x = ns"

definition mig_holds :: "MIGManager \<Rightarrow> string \<Rightarrow> string \<Rightarrow> nat" where
  "mig_holds m svc ns = length (filter (\<lambda>(k, p). mig_held_by svc ns (mm_heap m ! p)) (mm_instances m))"

text \<open>
  \<open>mig_holds\<close> counts what the index has. \<open>mig_objects_held\<close> counts every instance object that was created
  and is marked as the service's, also one that an identifier collision has taken out of the tables.
\<close>

definition mig_objects_held :: "MIGManager \<Rightarrow> string \<Rightarrow> string \<Rightarrow> nat" where
  "mig_objects_held m svc ns = length (filter (mig_held_by svc ns) (mm_heap m))"

definition mig_indexed :: "MIGManager \<Rightarrow> string \<Rightarrow> string \<Rightarrow> bool" where
  "mig_indexed m svc ns \<longleftrightarrow> (\<forall>p \<in> set [0..<length (mm_heap m)]. mig_held_by svc ns (mm_heap m ! p) \<longrightarrow> p \<in> set (gm_vals (mm_instances m)))"

lemma mig_objects_held_card: "mig_objects_held m svc ns = card {p. p < length (mm_heap m) \<and> mig_held_by svc ns (mm_heap m ! p)}"
  by (simp add: mig_objects_held_def length_filter_conv_card)

text \<open>A grant adds exactly the granted instances to what the requesting service holds, and changes no other's.\<close>

lemma mig_granted_objects:
  assumes "mig_granted m req ps m'"
  shows "mig_objects_held m' svc ns = mig_objects_held m svc ns +
    (if ar_ServiceName req = svc \<and> ar_Namespace req = ns then length ps else 0)"
proof -
  note g = assms [unfolded mig_granted_def]
  let ?held = "\<lambda>m. {p. p < length (mm_heap m) \<and> mig_held_by svc ns (mm_heap m ! p)}"
  let ?new = "if ar_ServiceName req = svc \<and> ar_Namespace req = ns then set ps else {}"
  have "?held m' = ?held m \<union> ?new"
  proof (rule set_eqI)
    fix p
    consider "p \<in> set ps" | "p \<notin> set ps" "p < length (mm_heap m)" | "p \<notin> set ps" "length (mm_heap m') \<le> p"
      using g by (metis atLeastLessThan_iff not_le subsetD)
    then show "p \<in> ?held m' \<longleftrightarrow> p \<in> ?held m \<union> ?new"
      using g by cases (auto simp: mig_held_by_def)
  qed
  moreover have "?held m \<inter> ?new = {}" using g by (auto simp: mig_held_by_def)
  moreover have "card (set ps) = length ps" using g by (simp add: distinct_card)
  ultimately show ?thesis by (simp add: mig_objects_held_card card_Un_disjoint)
qed

lemma MIG_Allocate_other:
  assumes ok: "mig_ok m" and ord: "range_ok ord" and ne: "\<not> (ar_ServiceName req = svc \<and> ar_Namespace req = ns)"
  shows "mig_objects_held (snd (MIG_Allocate ord m req pool)) svc ns = mig_objects_held m svc ns"
proof (cases "gm_get (mm_pools m) (pi_Name pool) = None \<or> gm_get migProfiles (ar_MIGProfile req) = None")
  case True
  with MIG_Allocate_error [OF True, of ord] show ?thesis by auto
next
  case False
  then obtain c prof where c: "gm_get (mm_pools m) (pi_Name pool) = Some c"
    and prof: "gm_get migProfiles (ar_MIGProfile req) = Some prof" by auto
  show ?thesis
  proof (cases "ar_GPUCount req < 0")
    case True
    with MIG_Allocate_negative [OF c prof True] show ?thesis by simp
  next
    case False
    then have "0 \<le> ar_GPUCount req" by simp
    from MIG_Allocate_spec [OF ok ord c prof this] obtain infos ps m' where
      "MIG_Allocate ord m req pool = (Ok infos, m')" "mig_granted m req ps m'" by blast
    then show ?thesis using mig_granted_objects [of m req ps m' svc ns] ne by simp
  qed
qed

lemma MIG_Release_nth:
  "i < length (mm_heap m) \<Longrightarrow> mm_heap (MIG_Release m svc ns) ! i =
     (if i \<in> set (gm_vals (mm_instances m)) then mig_free svc ns (mm_heap m ! i) else mm_heap m ! i)"
  by (simp add: MIG_Release_def nth_heap_upd)

lemma MIG_Release_ok [inv_intros]: "mig_ok m \<Longrightarrow> mig_ok (MIG_Release m svc ns)"
  unfolding MIG_Release_def by (rule mig_ok_heap) (simp_all add: nth_heap_upd)

lemma MIG_Release_held:
  assumes "p < length (mm_heap m)"
  shows "mig_held_by s n (mm_heap (MIG_Release m svc ns) ! p) \<longleftrightarrow> mig_held_by s n (mm_heap m ! p) \<and>
    \<not> (s = svc \<and> n = ns \<and> p \<in> set (gm_vals (mm_instances m)))"
  using assms by (auto simp: MIG_Release_nth mig_free_def mig_held_by_def)

lemma MIG_Release_objects:
  shows "mig_indexed m svc ns \<Longrightarrow> mig_objects_held (MIG_Release m svc ns) svc ns = 0"
    and "mig_objects_held (MIG_Release m svc ns) s n \<le> mig_objects_held m s n"
    and "\<not> (s = svc \<and> n = ns) \<Longrightarrow> mig_objects_held (MIG_Release m svc ns) s n = mig_objects_held m s n"
proof -
  have len: "length (mm_heap (MIG_Release m svc ns)) = length (mm_heap m)" by (simp add: MIG_Release_def)
  have held: "{p. p < length (mm_heap (MIG_Release m svc ns)) \<and> mig_held_by s n (mm_heap (MIG_Release m svc ns) ! p)} =
      {p. p < length (mm_heap m) \<and> mig_held_by s n (mm_heap m ! p)} - (if s = svc \<and> n = ns then set (gm_vals (mm_instances m)) else {})" for s n
    by (auto simp: len MIG_Release_held simp del: set_map)
  show "mig_objects_held (MIG_Release m svc ns) s n \<le> mig_objects_held m s n"
    unfolding mig_objects_held_card held by (rule card_mono) auto
  show "\<not> (s = svc \<and> n = ns) \<Longrightarrow> mig_objects_held (MIG_Release m svc ns) s n = mig_objects_held m s n"
    unfolding mig_objects_held_card held by auto
  show "mig_indexed m svc ns \<Longrightarrow> mig_objects_held (MIG_Release m svc ns) svc ns = 0"
    unfolding mig_objects_held_card held by (auto simp: mig_indexed_def)
qed

section \<open>The MIG manager keeps the contract of a sharing manager\<close>

interpretation mig: sharing_manager
  "\<lambda>ord m req pool gpus. MIG_Allocate ord m req pool" MIG_Release
  "\<lambda>m n. gm_has (mm_pools m) n" mig_objects_held mig_indexed mig_ok range_ok
proof (unfold_locales, goal_cases)
  case (1 s e req pool gpus)
  then show ?case by (rule MIG_Allocate_ok)
next
  case (2 s svc ns)
  then show ?case by (rule MIG_Release_ok)
next
  case (3 s e req pool gpus infos s')
  then obtain c prof where c: "gm_get (mm_pools s) (pi_Name pool) = Some c"
    and prof: "gm_get migProfiles (ar_MIGProfile req) = Some prof"
    using MIG_Allocate_error [of s pool req e] by fastforce
  have "0 \<le> ar_GPUCount req" using MIG_Allocate_negative [OF c prof, of e] 3(3) by fastforce
  with MIG_Allocate_spec [OF 3(1,2) c prof] 3(3) show ?case by (auto simp: mig_granted_def)
next
  case (4 s pool e req gpus)
  then show ?case by (simp add: MIG_Allocate_def gm_has_def)
next
  case (5 s e req svc ns pool gpus)
  then show ?case by (simp add: MIG_Allocate_other)
qed (auto simp: MIG_Release_objects)

section \<open>The other operations keep well-formedness\<close>

lemma MIG_ConfigurePool_ok [inv_intros]: "mig_ok m \<Longrightarrow> mig_ok (snd (MIG_ConfigurePool m pool))"
  by (auto simp: MIG_ConfigurePool_def ix_ok_def intro: mig_ok_set_pool split: option.splits)

lemma MIG_CleanupPool_ok [inv_intros]: "mig_ok m \<Longrightarrow> mig_ok (snd (MIG_CleanupPool ord m n))"
  using set_gm_del_subset [of n "mm_pools m"]
  by (fastforce simp: MIG_CleanupPool_def mig_ok_def gm_ok_delete intro: ix_ok_dels
      split: option.splits)

lemma MIG_DestroyInstance_ok [inv_intros]: "mig_ok m \<Longrightarrow> mig_ok (snd (MIG_DestroyInstance m k))"
  by (auto simp: MIG_DestroyInstance_def mig_ok_def gm_map_def intro: ix_ok_del
      split: option.splits)
    (auto simp: comp_def split_beta intro!: ix_ok_del)

inductive mig_step :: "MIGManager \<Rightarrow> MIGManager \<Rightarrow> bool" where
  configure: "mig_step m (snd (MIG_ConfigurePool m pool))"
| cleanup: "range_ok ord \<Longrightarrow> mig_step m (snd (MIG_CleanupPool ord m n))"
| allocate: "range_ok ord \<Longrightarrow> mig_step m (snd (MIG_Allocate ord m req info))"
| release: "mig_step m (MIG_Release m svc ns)"
| destroy: "mig_step m (snd (MIG_DestroyInstance m k))"

inductive mig_reachable :: "MIGManager \<Rightarrow> bool" where
  new: "mig_reachable NewMIGManager"
| step: "mig_reachable m \<Longrightarrow> mig_step m m' \<Longrightarrow> mig_reachable m'"

lemma mig_ok_new: "mig_ok NewMIGManager"
  by (simp add: NewMIGManager_def mig_ok_def ix_ok_def)

lemma mig_step_ok: "mig_step m m' \<Longrightarrow> mig_ok m \<Longrightarrow> mig_ok m'"
  by (induction rule: mig_step.induct) (auto intro: inv_intros)

lemma mig_reachable_ok: "mig_reachable m \<Longrightarrow> mig_ok m"
  by (induction rule: mig_reachable.induct) (auto intro: mig_ok_new mig_step_ok)

section \<open>Properties\<close>

definition mig_demo_pool :: GPUPool where
  "mig_demo_pool = \<lparr>gp_Meta = \<lparr>om_Name = ''p'', om_Namespace = '''', om_Generation = 1,
       om_DeletionTimestamp = None, om_Finalizers = []\<rparr>,
     gp_Spec = \<lparr>gps_NodeSelector = [], gps_GPUType = '''',
       gps_Sharing = Some \<lparr>gss_Mode = ''mig'', gss_Profiles = [\<lparr>mps_Name = ''1g.5gb'', mps_Count = 4\<rparr>],
         gss_TimeSliceInterval = 100, gss_MPSActiveThreadPercentage = 100, gss_MPSMemoryLimit = None\<rparr>,
       gps_Oversubscription = None, gps_ReservationPolicy = '''', gps_PreemptionPolicy = '''',
       gps_HealthCheckInterval = None\<rparr>,
     gp_Status = \<lparr>gst_Phase = GPUPoolPhaseUnset, gst_TotalGPUs = 0, gst_AvailableGPUs = 0,
       gst_AllocatedGPUs = 0, gst_TotalMemory = 0, gst_AvailableMemory = 0, gst_Nodes = [],
       gst_Conditions = [], gst_LastSyncTime = None, gst_ObservedGeneration = 0\<rparr>\<rparr>"

definition mig_demo_info :: PoolInfo where
  "mig_demo_info = \<lparr>pi_Name = ''p'', pi_NodeSelector = [], pi_GPUType = '''', pi_SharingMode = ''mig'',
     pi_MIGProfiles = [], pi_OversubscriptionRatio = Fin 1, pi_TotalGPUs = 0, pi_AvailableGPUs = 0,
     pi_GPUs = []\<rparr>"

definition mig_demo_req :: "string \<Rightarrow> int \<Rightarrow> AllocationRequest" where
  "mig_demo_req svc n = \<lparr>ar_ServiceName = svc, ar_Namespace = ''ns'', ar_GPUType = '''', ar_GPUCount = n,
     ar_Memory = 0, ar_SharingMode = ''mig'', ar_MIGProfile = ''1g.5gb'', ar_PoolName = ''p''\<rparr>"

definition mig_demo :: MIGManager where
  "mig_demo = snd (MIG_ConfigurePool NewMIGManager mig_demo_pool)"

lemma mig_demo_reachable: "mig_reachable mig_demo"
  unfolding mig_demo_def by (rule mig_reachable.step [OF mig_reachable.new mig_step.configure])

text \<open>
  C4. In every state the MIG manager can reach, a request for a known profile on a configured
  pool succeeds with exactly the requested number of instances: the granted objects are
  distinct, none was in use, each is now marked as held by the requesting service, no other
  object changes or is created, and each reported allocation carries the profile's memory. Every
  reported identifier leads, in the pool's table, to one of the granted objects; an object that is
  new is filed under its identifier both there and in the manager's index; entries under other
  identifiers and the other pools stay. The identifier of a new object may be taken, then the entry
  is overwritten (\<open>mig_instance_id_collision\<close>).
\<close>

theorem mig_allocate_grants:
  assumes "mig_reachable m" and "range_ok ord" and "gm_get (mm_pools m) (pi_Name pool) = Some c"
    and "gm_get migProfiles (ar_MIGProfile req) = Some prof" and "0 \<le> ar_GPUCount req"
  shows "\<exists>ps m' c'. MIG_Allocate ord m req pool = (Ok (map (\<lambda>p. mig_info prof (mm_heap m' ! p)) ps), m')
    \<and> mig_granted m req ps m' \<and> mig_ok m' \<and> mig_filed m c ps m' c'
    \<and> gm_get (mm_pools m') = (gm_get (mm_pools m))(pi_Name pool \<mapsto> c')
    \<and> (\<forall>p \<in> set ps. \<exists>q \<in> set ps. gm_get (mpc_Instances c') (mi_InstanceID (mm_heap m' ! p)) = Some q)"
  using MIG_Allocate_tables [OF mig_reachable_ok [OF assms(1)] assms(2-5)] mig_filed_led by fast

lemma mig_demo_pool_known: "\<exists>c. gm_get (mm_pools mig_demo) (pi_Name mig_demo_info) = Some c"
  by (simp add: mig_demo_def mig_demo_info_def mig_demo_pool_def MIG_ConfigurePool_def NewMIGManager_def
      GPUSharingModeMIG_def gm_has_def migProfiles_def mk_profile_def)

lemma mig_demo_profile_known: "\<exists>prof. gm_get migProfiles (ar_MIGProfile (mig_demo_req svc n)) = Some prof"
  by (simp add: mig_demo_req_def migProfiles_def mk_profile_def)

theorem mig_allocate_grants_witness:
  "\<exists>prof ps m'. MIG_Allocate rev mig_demo (mig_demo_req ''a'' 3) mig_demo_info =
      (Ok (map (\<lambda>p. mig_info prof (mm_heap m' ! p)) ps), m') \<and> length ps = 3"
proof -
  obtain c where c: "gm_get (mm_pools mig_demo) (pi_Name mig_demo_info) = Some c"
    using mig_demo_pool_known by blast
  obtain prof where p: "gm_get migProfiles (ar_MIGProfile (mig_demo_req ''a'' 3)) = Some prof"
    using mig_demo_profile_known by blast
  show ?thesis
    using mig_allocate_grants [OF mig_demo_reachable range_ok_rev c p]
    by (force simp: mig_granted_def mig_demo_req_def)
qed

text \<open>
  Instance identifiers are not unique. A service that was granted three instances of a
  fresh pool and released none is recorded as holding only two after two further requests by
  other services: the last of them is given the identifier of its third instance, and the
  manager's index forgets the object that had it.
\<close>

theorem mig_instance_id_collision:
  "(let (r1, m1) = MIG_Allocate (\<lambda>x. x) mig_demo (mig_demo_req ''a'' 3) mig_demo_info;
        (r2, m2) = MIG_Allocate (\<lambda>x. x) m1 (mig_demo_req ''b'' 1) mig_demo_info;
        (r3, m3) = MIG_Allocate (\<lambda>x. x) m2 (mig_demo_req ''c'' 1) mig_demo_info
    in (case r1 of Ok is \<Rightarrow> map ai_MIGInstance is | _ \<Rightarrow> []) = [''mig-1g.5gb-0'', ''mig-1g.5gb-2'', ''mig-1g.5gb-4'']
     \<and> (case r3 of Ok is \<Rightarrow> map ai_MIGInstance is | _ \<Rightarrow> []) = [''mig-1g.5gb-4'']
     \<and> mig_holds m2 ''a'' ''ns'' = 3 \<and> mig_holds m3 ''a'' ''ns'' = 2)"
  by code_simp

text \<open>
  Two pools name their first instances alike. The index keeps the later one, so that a release of the
  service that holds the earlier one misses it: its pool still has it in use, for a service that is gone,
  and cannot be cleaned up.
\<close>

definition mig_demo_q :: MIGManager where
  "mig_demo_q = snd (MIG_ConfigurePool mig_demo (mig_demo_pool\<lparr>gp_Meta := (gp_Meta mig_demo_pool)\<lparr>om_Name := ''q''\<rparr>\<rparr>))"

lemma mig_release_misses:
  "let m1 = snd (MIG_Allocate (\<lambda>x. x) mig_demo_q (mig_demo_req ''a'' 1) mig_demo_info);
       m2 = snd (MIG_Allocate (\<lambda>x. x) m1 (mig_demo_req ''b'' 1) (mig_demo_info\<lparr>pi_Name := ''q''\<rparr>));
       m3 = MIG_Release m2 ''a'' ''ns''
   in mig_indexed m1 ''a'' ''ns'' \<and> \<not> mig_indexed m2 ''a'' ''ns'' \<and> mig_holds m3 ''a'' ''ns'' = 0 \<and>
      mig_objects_held m3 ''a'' ''ns'' = 1 \<and> \<not> is_ok (fst (MIG_CleanupPool (\<lambda>x. x) m3 ''p''))"
  by code_simp

text \<open>
  Cleaning a pool up is refused, and changes nothing, exactly while some instance of its
  table is in use; otherwise the pool is gone and so are all its identifiers from the index.
\<close>

theorem mig_cleanup_guard:
  assumes "range_ok ord" and "gm_get (mm_pools m) n = Some c"
  shows "if \<exists>(k, p) \<in> set (mpc_Instances c). mi_InUse (mm_heap m ! p)
    then \<exists>i. MIG_CleanupPool ord m n = (Err (PoolInUse n i), m)
    else \<exists>m'. MIG_CleanupPool ord m n = (Ok (), m') \<and> gm_get (mm_pools m') n = None
      \<and> (\<forall>k. gm_get (mm_instances m') k =
            (if gm_has (mpc_Instances c) k then None else gm_get (mm_instances m) k))"
proof -
  let ?P = "\<lambda>(k, p). mi_InUse (mm_heap m ! p)"
  have none: "find ?P (ord (mpc_Instances c)) = None \<longleftrightarrow> \<not> (\<exists>(k, p) \<in> set (mpc_Instances c). mi_InUse (mm_heap m ! p))"
    using range_ok_set [OF assms(1), of "mpc_Instances c"] by (auto simp: find_None_all)
  show ?thesis
  proof (cases "find ?P (ord (mpc_Instances c))")
    case None
    then show ?thesis using none assms(2) by (auto simp: MIG_CleanupPool_def delete_conv' gm_get_dels)
  next
    case (Some kp)
    then show ?thesis using none assms(2) by (cases kp) (auto simp: MIG_CleanupPool_def)
  qed
qed

theorem mig_cleanup_guard_witness:
  "\<exists>m'. MIG_CleanupPool rev mig_demo ''p'' = (Ok (), m') \<and> gm_get (mm_pools m') ''p'' = None"
proof -
  have c: "gm_get (mm_pools mig_demo) ''p'' = Some \<lparr>mpc_PoolName = ''p'',
      mpc_Profiles = [\<lparr>mps_Name = ''1g.5gb'', mps_Count = 4\<rparr>], mpc_Instances = []\<rparr>"
    by code_simp
  show ?thesis using mig_cleanup_guard [OF range_ok_rev c] by auto
qed

text \<open>
  Configuring a pool a second time, as every periodic reconciliation of a GPUPool does,
  empties its table while instances of it are in use: the pool then lists no instance, the
  guard of \<open>CleanupPool\<close> no longer sees them, and the objects themselves stay marked as held.
\<close>

theorem mig_reconfigure_forgets:
  assumes "range_ok ord" and "MIG_ConfigurePool m pool = (Ok (), m')"
  shows "MIG_ListInstances ord m' (gp_Name pool) = Ok [] \<and> mm_heap m' = mm_heap m
    \<and> mm_instances m' = mm_instances m \<and> is_ok (fst (MIG_CleanupPool ord m' (gp_Name pool)))"
proof -
  have nil: "ord [] = []" using range_ok_length [OF assms(1), of "[]"] by simp
  show ?thesis
    using assms(2) nil
    by (auto simp: MIG_ConfigurePool_def MIG_ListInstances_def MIG_CleanupPool_def update_conv'
        split: option.splits if_splits)
qed

theorem mig_reconfigure_forgets_witness:
  "let m1 = snd (MIG_Allocate rev mig_demo (mig_demo_req ''a'' 1) mig_demo_info);
       m2 = snd (MIG_ConfigurePool m1 mig_demo_pool)
   in mig_holds m2 ''a'' ''ns'' = 1 \<and> MIG_ListInstances rev m2 ''p'' = Ok []"
proof -
  let ?m1 = "snd (MIG_Allocate rev mig_demo (mig_demo_req ''a'' 1) mig_demo_info)"
  have ok: "MIG_ConfigurePool ?m1 mig_demo_pool = (Ok (), snd (MIG_ConfigurePool ?m1 mig_demo_pool))"
    by (simp add: MIG_ConfigurePool_def mig_demo_pool_def GPUSharingModeMIG_def gm_has_def
        migProfiles_def mk_profile_def)
  have "mig_holds ?m1 ''a'' ''ns'' = 1" by code_simp
  with mig_reconfigure_forgets [OF range_ok_rev ok] show ?thesis
    by (simp add: mig_holds_def mig_demo_pool_def)
qed

text \<open>
  The instances of one profile fit on one GPU: for every GPU type the manager knows, the
  profiles it offers never need more than the seven compute slices, the eight memory slices
  or the memory of the device, at their maximum number of instances.
\<close>

theorem mig_profiles_fit:
  assumes "range_ok ord" and "prof \<in> set (MIG_GetAvailableProfiles ord gpuType)"
    and "(gpuType, gib) \<in> {(''nvidia-a100'', 80), (''nvidia-a100-80gb'', 80), (''nvidia-a100-40gb'', 40), (''nvidia-h100'', 141)}"
  shows "mp_ComputeSlices prof * mp_MaxInstances prof \<le> 7
    \<and> mp_MemorySlices prof * mp_MaxInstances prof \<le> 8
    \<and> mp_Memory prof * mp_MaxInstances prof \<le> Gi gib"
proof -
  have "set (MIG_GetAvailableProfiles ord gpuType) = set (MIG_GetAvailableProfiles (\<lambda>m. m) gpuType)"
    by (simp add: MIG_GetAvailableProfiles_def range_ok_set [OF assms(1)])
  moreover have "\<forall>(g, n) \<in> {(''nvidia-a100'', 80), (''nvidia-a100-80gb'', 80), (''nvidia-a100-40gb'', 40), (''nvidia-h100'', 141)}.
      \<forall>p \<in> set (MIG_GetAvailableProfiles (\<lambda>m. m) g). mp_ComputeSlices p * mp_MaxInstances p \<le> 7
        \<and> mp_MemorySlices p * mp_MaxInstances p \<le> 8 \<and> mp_Memory p * mp_MaxInstances p \<le> Gi n"
    by code_simp
  ultimately show ?thesis using assms(2,3) by fastforce
qed

theorem mig_profiles_fit_witness:
  "\<exists>prof. prof \<in> set (MIG_GetAvailableProfiles rev ''nvidia-h100'') \<and> mp_Name prof = ''3g.47gb''
     \<and> mp_Memory prof * mp_MaxInstances prof \<le> Gi 141"
proof -
  define prof where "prof = snd (mk_profile ''3g.47gb'' 47 3 4 2)"
  have p: "prof \<in> set (MIG_GetAvailableProfiles rev ''nvidia-h100'')"
    unfolding prof_def by code_simp
  have "mp_Name prof = ''3g.47gb''" unfolding prof_def by code_simp
  with p mig_profiles_fit [OF range_ok_rev p, of 141] show ?thesis by auto
qed

end
