(* ===== verification/Mps.thy ===== *)
theory Mps
  imports SharingSpec
begin

text \<open>
  The MPS manager, \<open>internal/gpu/mps.go\<close>. An \<open>MPSDaemon\<close> is reachable from its pool's
  \<open>Daemons\<close> and from the manager's global \<open>daemons\<close> index, so daemons are heap objects; a client
  is only ever reached through its daemon and is a value. \<open>Allocate\<close> ranges over a map and
  reads the clock once per granted GPU: iteration \<open>i\<close> sees the order \<open>ord i\<close> and the time \<open>now i\<close>.
\<close>

section \<open>Data\<close>

record MPSClient =
  mcl_ClientID :: string
  mcl_ServiceName :: string
  mcl_Namespace :: string
  mcl_NodeName :: string
  mcl_DeviceID :: string
  mcl_ActiveThreadPct :: int
  mcl_MemoryLimit :: quantity
  mcl_ConnectedAt :: timestamp
  mcl_LastActivityTime :: timestamp

record MPSDaemon =
  md_NodeName :: string
  md_DeviceID :: string
  md_ProcessID :: int
  md_PipePath :: string
  md_LogPath :: string
  md_ActiveThreadPctLimit :: int
  md_DefaultMemoryLimit :: quantity
  md_Clients :: "(string, MPSClient) gomap"
  md_Started :: timestamp
  md_Status :: string

record MPSPoolConfig =
  mcf_PoolName :: string
  mcf_ActiveThreadPct :: int
  mcf_MemoryLimit :: "quantity option"
  mcf_Daemons :: "(string, ptr) gomap"

record MPSManager =
  ms_pools :: "(string, MPSPoolConfig) gomap"
  ms_daemons :: "(string, ptr) gomap"
  ms_running :: bool
  ms_stopCh_closed :: bool
  ms_heap :: "MPSDaemon list"

type_synonym daemon_ord = "(string, ptr) gomap \<Rightarrow> (string, ptr) gomap"

record mps_env =
  me_ord :: "nat \<Rightarrow> daemon_ord"
  me_now :: "nat \<Rightarrow> timestamp"

definition mps_env_ok :: "mps_env \<Rightarrow> bool" where
  "mps_env_ok e \<longleftrightarrow> (\<forall>i. range_ok (me_ord e i))"

definition NewMPSManager :: MPSManager where
  "NewMPSManager = \<lparr>ms_pools = [], ms_daemons = [], ms_running = False, ms_stopCh_closed = False,
    ms_heap = []\<rparr>"

definition MPS_Start :: "MPSManager \<Rightarrow> MPSManager" where
  "MPS_Start m = m\<lparr>ms_running := True\<rparr>"

definition MPS_Stop :: "MPSManager \<Rightarrow> (gpu_error, unit) outcome \<times> MPSManager" where
  "MPS_Stop m =
    (if ms_stopCh_closed m then (Panic, m\<lparr>ms_running := False\<rparr>)
     else (Ok (), m\<lparr>ms_running := False, ms_stopCh_closed := True\<rparr>))"

section \<open>Operations\<close>

definition MPS_checkDaemonHealth :: "daemon_ord \<Rightarrow> MPSManager \<Rightarrow> (string \<times> string) list" where
  "MPS_checkDaemonHealth ord m =
     map (\<lambda>(k, p). (k, md_Status (ms_heap m ! p)))
       (filter (\<lambda>(k, p). md_Status (ms_heap m ! p) \<noteq> ''Running'') (ord (ms_daemons m)))"

definition MPS_ConfigurePool :: "MPSManager \<Rightarrow> GPUPool \<Rightarrow> (gpu_error, unit) outcome \<times> MPSManager" where
  "MPS_ConfigurePool m pool =
    (case gps_Sharing (gp_Spec pool) of
       None \<Rightarrow> (Err (NotConfiguredForMode (gp_Name pool)), m)
     | Some sh \<Rightarrow>
         if gss_Mode sh \<noteq> GPUSharingModeMPS then (Err (NotConfiguredForMode (gp_Name pool)), m)
         else (Ok (), m\<lparr>ms_pools := gm_set (gp_Name pool)
                \<lparr>mcf_PoolName = gp_Name pool,
                 mcf_ActiveThreadPct = (if gss_MPSActiveThreadPercentage sh = 0 then 100
                                        else gss_MPSActiveThreadPercentage sh),
                 mcf_MemoryLimit = gss_MPSMemoryLimit sh, mcf_Daemons = []\<rparr> (ms_pools m)\<rparr>))"

definition stopDaemon :: "MPSDaemon \<Rightarrow> MPSDaemon" where
  "stopDaemon d = d\<lparr>md_Status := ''Stopped''\<rparr>"

definition MPS_CleanupPool :: "daemon_ord \<Rightarrow> MPSManager \<Rightarrow> string \<Rightarrow> (gpu_error, unit) outcome \<times> MPSManager" where
  "MPS_CleanupPool ord m poolName =
    (case gm_get (ms_pools m) poolName of
       None \<Rightarrow> (Ok (), m)
     | Some config \<Rightarrow>
         case find (\<lambda>(k, p). md_Clients (ms_heap m ! p) \<noteq> []) (ord (mcf_Daemons config)) of
           Some (k, p) \<Rightarrow> (Err (PoolInUse poolName k), m)
         | None \<Rightarrow> (Ok (), m\<lparr>ms_heap := heap_upd stopDaemon (gm_vals (mcf_Daemons config)) (ms_heap m),
                              ms_daemons := fold (\<lambda>(k, p). gm_del k) (mcf_Daemons config) (ms_daemons m),
                              ms_pools := gm_del poolName (ms_pools m)\<rparr>))"

definition new_daemon :: "timestamp \<Rightarrow> string \<Rightarrow> string \<Rightarrow> MPSPoolConfig \<Rightarrow> MPSDaemon" where
  "new_daemon now nodeName deviceID config =
     \<lparr>md_NodeName = nodeName, md_DeviceID = deviceID, md_ProcessID = 12345,
      md_PipePath = ''/tmp/nvidia-mps-'' @ deviceID, md_LogPath = ''/var/log/nvidia-mps-'' @ deviceID @ ''.log'',
      md_ActiveThreadPctLimit = mcf_ActiveThreadPct config,
      md_DefaultMemoryLimit = (case mcf_MemoryLimit config of None \<Rightarrow> 0 | Some q \<Rightarrow> q),
      md_Clients = [], md_Started = now, md_Status = ''Running''\<rparr>"

definition startDaemon :: "timestamp \<Rightarrow> MPSManager \<Rightarrow> string \<Rightarrow> string \<Rightarrow> MPSPoolConfig
    \<Rightarrow> ptr \<times> MPSPoolConfig \<times> MPSManager" where
  "startDaemon now m nodeName deviceID config =
     (let key = gpu_key nodeName deviceID; p = length (ms_heap m) in
      (p, config\<lparr>mcf_Daemons := gm_set key p (mcf_Daemons config)\<rparr>,
       m\<lparr>ms_heap := ms_heap m @ [new_daemon now nodeName deviceID config],
         ms_daemons := gm_set key p (ms_daemons m)\<rparr>))"

definition findOrCreateDaemon :: "daemon_ord \<Rightarrow> timestamp \<Rightarrow> MPSManager \<Rightarrow> MPSPoolConfig \<Rightarrow> GPUInfo list
    \<Rightarrow> (gpu_error, ptr \<times> MPSPoolConfig \<times> MPSManager) outcome" where
  "findOrCreateDaemon ord now m config gpus =
     (case find (\<lambda>(k, p). md_Status (ms_heap m ! p) = ''Running'' \<and> length (md_Clients (ms_heap m ! p)) < 48)
             (ord (mcf_Daemons config)) of
        Some (k, p) \<Rightarrow> Ok (p, config, m)
      | None \<Rightarrow>
          case find (\<lambda>g. \<not> gm_has (mcf_Daemons config) (gpu_key (gi_NodeName g) (gi_DeviceID g))) gpus of
            Some g \<Rightarrow> Ok (startDaemon now m (gi_NodeName g) (gi_DeviceID g) config)
          | None \<Rightarrow> Err NoAvailableGPUs)"

definition mps_client_of :: "string \<Rightarrow> string \<Rightarrow> MPSClient \<Rightarrow> bool" where
  "mps_client_of serviceName namespace cl \<longleftrightarrow> mcl_ServiceName cl = serviceName \<and> mcl_Namespace cl = namespace"

definition drop_clients :: "string \<Rightarrow> string \<Rightarrow> MPSDaemon \<Rightarrow> MPSDaemon" where
  "drop_clients serviceName namespace d =
     d\<lparr>md_Clients := filter (\<lambda>(k, cl). \<not> mps_client_of serviceName namespace cl) (md_Clients d)\<rparr>"

definition releaseClient :: "MPSManager \<Rightarrow> string \<Rightarrow> string \<Rightarrow> MPSManager" where
  "releaseClient m serviceName namespace =
     m\<lparr>ms_heap := heap_upd (drop_clients serviceName namespace) (gm_vals (ms_daemons m)) (ms_heap m)\<rparr>"

definition MPS_Release :: "MPSManager \<Rightarrow> string \<Rightarrow> string \<Rightarrow> MPSManager" where
  "MPS_Release m serviceName namespace = releaseClient m serviceName namespace"

definition mps_client_id :: "string \<Rightarrow> string \<Rightarrow> nat \<Rightarrow> string" where
  "mps_client_id namespace serviceName i = namespace @ ''/'' @ serviceName @ ''-'' @ itoa (int i)"

definition new_client :: "timestamp \<Rightarrow> AllocationRequest \<Rightarrow> MPSPoolConfig \<Rightarrow> MPSDaemon \<Rightarrow> nat \<Rightarrow> MPSClient" where
  "new_client now req config d i =
     \<lparr>mcl_ClientID = mps_client_id (ar_Namespace req) (ar_ServiceName req) i,
      mcl_ServiceName = ar_ServiceName req, mcl_Namespace = ar_Namespace req,
      mcl_NodeName = md_NodeName d, mcl_DeviceID = md_DeviceID d,
      mcl_ActiveThreadPct = mcf_ActiveThreadPct config,
      mcl_MemoryLimit = (case mcf_MemoryLimit config of None \<Rightarrow> 0 | Some q \<Rightarrow> q),
      mcl_ConnectedAt = now, mcl_LastActivityTime = now\<rparr>"

definition add_client :: "MPSClient \<Rightarrow> MPSDaemon \<Rightarrow> MPSDaemon" where
  "add_client cl d = d\<lparr>md_Clients := gm_set (mcl_ClientID cl) cl (md_Clients d)\<rparr>"

text \<open>
  One iteration per GPU. The rollback runs \<open>releaseClient\<close> once per client already created,
  and each run drops every client of the service.
\<close>

fun MPS_Allocate_loop :: "mps_env \<Rightarrow> AllocationRequest \<Rightarrow> string \<Rightarrow> GPUInfo list \<Rightarrow> nat \<Rightarrow> nat
    \<Rightarrow> MPSPoolConfig \<Rightarrow> MPSManager \<Rightarrow> GPUAllocationInfo list
    \<Rightarrow> (gpu_error, GPUAllocationInfo list) outcome \<times> MPSManager" where
  "MPS_Allocate_loop e req pn gpus i 0 config m infos = (Ok infos, m)"
| "MPS_Allocate_loop e req pn gpus i (Suc n) config m infos =
     (case findOrCreateDaemon (me_ord e i) (me_now e i) m config gpus of
        Ok (p, config', m') \<Rightarrow>
          let d = ms_heap m' ! p; cl = new_client (me_now e i) req config' d i;
              m'' = m'\<lparr>ms_heap := (ms_heap m')[p := add_client cl d],
                       ms_pools := gm_set pn config' (ms_pools m')\<rparr>
          in MPS_Allocate_loop e req pn gpus (Suc i) n config' m''
               (infos @ [\<lparr>ai_NodeName = md_NodeName d, ai_DeviceID = md_DeviceID d,
                          ai_MIGInstance = '''', ai_Memory = mcl_MemoryLimit cl\<rparr>])
      | Err err \<Rightarrow> (Err err, ((\<lambda>m. releaseClient m (ar_ServiceName req) (ar_Namespace req)) ^^ i) m)
      | Panic \<Rightarrow> (Panic, m)
      | Blocked \<Rightarrow> (Blocked, m))"

definition MPS_Allocate :: "mps_env \<Rightarrow> MPSManager \<Rightarrow> AllocationRequest \<Rightarrow> PoolInfo \<Rightarrow> GPUInfo list
    \<Rightarrow> (gpu_error, GPUAllocationInfo list) outcome \<times> MPSManager" where
  "MPS_Allocate e m req pool gpus =
    (case gm_get (ms_pools m) (pi_Name pool) of
       None \<Rightarrow> (Err (PoolNotFound (pi_Name pool)), m)
     | Some config \<Rightarrow>
         if ar_GPUCount req < 0 then (Panic, m)
         else MPS_Allocate_loop e req (pi_Name pool) gpus 0 (nat (ar_GPUCount req)) config m [])"

definition MPS_GetDaemonStatus :: "MPSManager \<Rightarrow> string \<Rightarrow> string \<Rightarrow> (gpu_error, MPSDaemon) outcome" where
  "MPS_GetDaemonStatus m nodeName deviceID =
     (case gm_get (ms_daemons m) (gpu_key nodeName deviceID) of
        None \<Rightarrow> Err (DaemonNotFound (gpu_key nodeName deviceID)) | Some p \<Rightarrow> Ok (ms_heap m ! p))"

definition MPS_ListClients :: "((string, MPSClient) gomap \<Rightarrow> (string, MPSClient) gomap) \<Rightarrow> MPSManager
    \<Rightarrow> string \<Rightarrow> string \<Rightarrow> (gpu_error, MPSClient list) outcome" where
  "MPS_ListClients ord m nodeName deviceID =
     (case gm_get (ms_daemons m) (gpu_key nodeName deviceID) of
        None \<Rightarrow> Err (DaemonNotFound (gpu_key nodeName deviceID))
      | Some p \<Rightarrow> Ok (map snd (ord (md_Clients (ms_heap m ! p)))))"

definition MPS_SetActiveThreadPercentage :: "daemon_ord \<Rightarrow> MPSManager \<Rightarrow> string \<Rightarrow> int
    \<Rightarrow> (gpu_error, unit) outcome \<times> MPSManager" where
  "MPS_SetActiveThreadPercentage ord m clientID percentage =
    (if percentage < 1 \<or> percentage > 100 then (Err (InvalidPercentage percentage), m)
     else case find (\<lambda>(k, p). gm_has (md_Clients (ms_heap m ! p)) clientID) (ord (ms_daemons m)) of
         None \<Rightarrow> (Err (ClientNotFound clientID), m)
       | Some (k, p) \<Rightarrow>
           (case gm_get (md_Clients (ms_heap m ! p)) clientID of
              None \<Rightarrow> (Err (ClientNotFound clientID), m)
            | Some cl \<Rightarrow> (Ok (), m\<lparr>ms_heap := (ms_heap m)[p := (ms_heap m ! p)\<lparr>md_Clients :=
                gm_set clientID (cl\<lparr>mcl_ActiveThreadPct := percentage\<rparr>) (md_Clients (ms_heap m ! p))\<rparr>]\<rparr>)))"

record mps_stats =
  mst_nodeName :: string
  mst_deviceId :: string
  mst_processId :: int
  mst_status :: string
  mst_clientCount :: int
  mst_started :: timestamp
  mst_uptime :: duration
  mst_threadLimit :: int

definition MPS_GetStats :: "timestamp \<Rightarrow> MPSManager \<Rightarrow> string \<Rightarrow> string \<Rightarrow> (gpu_error, mps_stats) outcome" where
  "MPS_GetStats now m nodeName deviceID =
     (case gm_get (ms_daemons m) (gpu_key nodeName deviceID) of
        None \<Rightarrow> Err (DaemonNotFound (gpu_key nodeName deviceID))
      | Some p \<Rightarrow> let d = ms_heap m ! p in
          Ok \<lparr>mst_nodeName = md_NodeName d, mst_deviceId = md_DeviceID d, mst_processId = md_ProcessID d,
              mst_status = md_Status d, mst_clientCount = int (length (md_Clients d)),
              mst_started = md_Started d, mst_uptime = now - md_Started d,
              mst_threadLimit = md_ActiveThreadPctLimit d\<rparr>)"

definition MPS_RestartDaemon :: "((string, MPSPoolConfig) gomap \<Rightarrow> (string, MPSPoolConfig) gomap) \<Rightarrow> timestamp
    \<Rightarrow> MPSManager \<Rightarrow> string \<Rightarrow> string \<Rightarrow> (gpu_error, unit) outcome \<times> MPSManager" where
  "MPS_RestartDaemon ord now m nodeName deviceID =
    (let key = gpu_key nodeName deviceID in
     case gm_get (ms_daemons m) key of
       None \<Rightarrow> (Err (DaemonNotFound key), m)
     | Some p \<Rightarrow>
         if md_Clients (ms_heap m ! p) \<noteq> [] then (Err DaemonHasClients, m)
         else case find (\<lambda>(n, c). gm_has (mcf_Daemons c) key) (ord (ms_pools m)) of
             None \<Rightarrow> (Err (PoolConfigNotFound key), m)
           | Some (n, config) \<Rightarrow>
               let m1 = m\<lparr>ms_heap := (ms_heap m)[p := stopDaemon (ms_heap m ! p)],
                          ms_daemons := gm_del key (ms_daemons m)\<rparr>;
                   config1 = config\<lparr>mcf_Daemons := gm_del key (mcf_Daemons config)\<rparr>
               in case startDaemon now m1 nodeName deviceID config1 of
                    (q, config2, m2) \<Rightarrow> (Ok (), m2\<lparr>ms_pools := gm_set n config2 (ms_pools m2)\<rparr>))"

section \<open>Well-formedness\<close>

definition daemon_key :: "MPSDaemon \<Rightarrow> string" where
  "daemon_key d = gpu_key (md_NodeName d) (md_DeviceID d)"

abbreviation mps_index_ok :: "MPSDaemon list \<Rightarrow> (string, ptr) gomap \<Rightarrow> bool" where
  "mps_index_ok \<equiv> ix_ok daemon_key"

definition mps_daemon_ok :: "MPSDaemon \<Rightarrow> bool" where
  "mps_daemon_ok d \<longleftrightarrow> gm_ok (md_Clients d) \<and> length (md_Clients d) \<le> 48"

definition mps_ok :: "MPSManager \<Rightarrow> bool" where
  "mps_ok m \<longleftrightarrow> gm_ok (ms_pools m) \<and> mps_index_ok (ms_heap m) (ms_daemons m) \<and>
     (\<forall>(n, c) \<in> set (ms_pools m). mps_index_ok (ms_heap m) (mcf_Daemons c)) \<and>
     (\<forall>d \<in> set (ms_heap m). mps_daemon_ok d)"

lemma mps_ok_index: "mps_ok m \<Longrightarrow> mps_index_ok (ms_heap m) (ms_daemons m)"
  by (simp add: mps_ok_def)

lemma mps_ok_pool: "mps_ok m \<Longrightarrow> gm_get (ms_pools m) n = Some c \<Longrightarrow> mps_index_ok (ms_heap m) (mcf_Daemons c)"
  by (auto simp: mps_ok_def dest: gm_get_mem)

lemma mps_ok_set_pool:
  assumes "mps_ok m" and "mps_index_ok (ms_heap m) (mcf_Daemons c)"
  shows "mps_ok (m\<lparr>ms_pools := gm_set n c (ms_pools m)\<rparr>)"
  using assms set_gm_set_subset [of n c "ms_pools m"] by (auto simp: mps_ok_def gm_ok_update)

lemma mps_ok_heap:
  assumes "mps_ok m" and "length h' = length (ms_heap m)"
    and "\<And>i. i < length (ms_heap m) \<Longrightarrow> daemon_key (h' ! i) = daemon_key (ms_heap m ! i) \<and> mps_daemon_ok (h' ! i)"
  shows "mps_ok (m\<lparr>ms_heap := h'\<rparr>)"
proof -
  have "mps_index_ok h' ix" if "mps_index_ok (ms_heap m) ix" for ix
    using that assms(2,3) by (auto intro: ix_ok_cong)
  moreover have "\<forall>d \<in> set h'. mps_daemon_ok d"
    using assms(2,3) by (auto simp: all_set_conv_all_nth)
  ultimately show ?thesis using assms(1) by (auto simp: mps_ok_def)
qed

lemma mps_daemon_nth: "mps_ok m \<Longrightarrow> i < length (ms_heap m) \<Longrightarrow> mps_daemon_ok (ms_heap m ! i)"
  by (simp add: mps_ok_def)

lemma drop_clients_idem [simp]: "drop_clients s n (drop_clients s n d) = drop_clients s n d"
  by (simp add: drop_clients_def)

lemma drop_clients_key [simp]: "daemon_key (drop_clients s n d) = daemon_key d"
  by (simp add: drop_clients_def daemon_key_def)

lemma add_client_key [simp]: "daemon_key (add_client cl d) = daemon_key d"
  by (simp add: add_client_def daemon_key_def)

lemma stopDaemon_key [simp]: "daemon_key (stopDaemon d) = daemon_key d"
  by (simp add: stopDaemon_def daemon_key_def)

lemma stopDaemon_idem [simp]: "stopDaemon (stopDaemon d) = stopDaemon d"
  by (simp add: stopDaemon_def)

lemma new_daemon_key [simp]: "daemon_key (new_daemon now n d c) = gpu_key n d"
  by (simp add: new_daemon_def daemon_key_def)

lemma drop_clients_ok: "mps_daemon_ok d \<Longrightarrow> mps_daemon_ok (drop_clients s n d)"
  by (auto simp: mps_daemon_ok_def drop_clients_def distinct_map_filter intro: le_trans [OF length_filter_le])

lemma add_client_ok: "mps_daemon_ok d \<Longrightarrow> length (md_Clients d) < 48 \<Longrightarrow> mps_daemon_ok (add_client cl d)"
  by (auto simp: mps_daemon_ok_def add_client_def gm_ok_update length_gm_set)

lemma stopDaemon_ok: "mps_daemon_ok d \<Longrightarrow> mps_daemon_ok (stopDaemon d)"
  by (simp add: mps_daemon_ok_def stopDaemon_def)

lemma releaseClient_nth: "i < length (ms_heap m) \<Longrightarrow> ms_heap (releaseClient m s n) ! i =
    (if i \<in> set (gm_vals (ms_daemons m)) then drop_clients s n (ms_heap m ! i) else ms_heap m ! i)"
  by (simp add: releaseClient_def nth_heap_upd)

lemma releaseClient_fields [simp]:
  "ms_daemons (releaseClient m s n) = ms_daemons m" "ms_pools (releaseClient m s n) = ms_pools m"
  "length (ms_heap (releaseClient m s n)) = length (ms_heap m)"
  by (simp_all add: releaseClient_def)

lemma releaseClient_ok [inv_intros]: "mps_ok m \<Longrightarrow> mps_ok (releaseClient m s n)"
  unfolding releaseClient_def
  by (rule mps_ok_heap) (simp_all add: nth_heap_upd drop_clients_ok mps_daemon_nth)

lemma releaseClient_pow_ok: "mps_ok m \<Longrightarrow> mps_ok (((\<lambda>m. releaseClient m s n) ^^ i) m)"
  by (induction i) (auto intro: releaseClient_ok)

lemma startDaemon_ok:
  assumes "mps_ok m" and "mps_index_ok (ms_heap m) (mcf_Daemons c)" and "startDaemon now m n d c = (p, c', m')"
  shows "mps_ok m' \<and> mps_index_ok (ms_heap m') (mcf_Daemons c') \<and> p < length (ms_heap m')
    \<and> md_Clients (ms_heap m' ! p) = [] \<and> ms_pools m' = ms_pools m"
proof -
  have d: "mps_daemon_ok (new_daemon now n d c)" by (simp add: mps_daemon_ok_def new_daemon_def)
  have *: "p = length (ms_heap m)" "c' = c\<lparr>mcf_Daemons := gm_set (gpu_key n d) p (mcf_Daemons c)\<rparr>"
    "m' = m\<lparr>ms_heap := ms_heap m @ [new_daemon now n d c], ms_daemons := gm_set (gpu_key n d) p (ms_daemons m)\<rparr>"
    using assms(3) by (auto simp: startDaemon_def Let_def)
  have "mps_index_ok (ms_heap m @ [new_daemon now n d c]) (gm_set (gpu_key n d) (length (ms_heap m)) ix)"
    if "mps_index_ok (ms_heap m) ix" for ix
    using that by (intro ix_ok_new) simp_all
  then show ?thesis
    using assms(1,2) d by (auto simp: mps_ok_def * new_daemon_def intro: ix_ok_append)
qed

lemma findOrCreateDaemon_ok:
  assumes ok: "mps_ok m" and c: "mps_index_ok (ms_heap m) (mcf_Daemons c)" and ord: "range_ok ord"
    and f: "findOrCreateDaemon ord now m c gpus = Ok (p, c', m')"
  shows "mps_ok m' \<and> mps_index_ok (ms_heap m') (mcf_Daemons c') \<and> p < length (ms_heap m')
    \<and> length (md_Clients (ms_heap m' ! p)) < 48 \<and> ms_pools m' = ms_pools m"
proof (cases "find (\<lambda>(k, p). md_Status (ms_heap m ! p) = ''Running'' \<and> length (md_Clients (ms_heap m ! p)) < 48)
             (ord (mcf_Daemons c))")
  case (Some kp)
  obtain k q where kp: "kp = (k, q)" by (cases kp)
  have "(k, q) \<in> set (mcf_Daemons c)" "length (md_Clients (ms_heap m ! q)) < 48"
    using find_Some_in [OF Some] range_ok_set [OF ord] kp by auto
  with f Some ok c kp ix_ok_ptr [OF c] show ?thesis
    by (auto simp: findOrCreateDaemon_def)
next
  case None
  then have "\<exists>g :: GPUInfo. startDaemon now m (gi_NodeName g) (gi_DeviceID g) c = (p, c', m')"
    using f by (auto simp: findOrCreateDaemon_def split: option.splits)
  then show ?thesis using startDaemon_ok [OF ok c] by fastforce
qed

lemma findOrCreateDaemon_cases:
  "(\<exists>p c' m'. findOrCreateDaemon ord now m c gpus = Ok (p, c', m')) \<or> findOrCreateDaemon ord now m c gpus = Err NoAvailableGPUs"
  by (auto simp: findOrCreateDaemon_def startDaemon_def Let_def split: option.splits)

lemma grant_client_ok:
  assumes "mps_ok m" and "p < length (ms_heap m)" and "length (md_Clients (ms_heap m ! p)) < 48"
    and "mps_index_ok (ms_heap m) (mcf_Daemons c)"
  shows "mps_ok (m\<lparr>ms_heap := (ms_heap m)[p := add_client cl (ms_heap m ! p)], ms_pools := gm_set n c (ms_pools m)\<rparr>)"
    and "mps_index_ok ((ms_heap m)[p := add_client cl (ms_heap m ! p)]) (mcf_Daemons c)"
proof -
  show *: "mps_index_ok ((ms_heap m)[p := add_client cl (ms_heap m ! p)]) (mcf_Daemons c)"
    using assms(4) by (rule ix_ok_cong) (use assms(2) in \<open>auto simp: nth_list_update\<close>)
  have "mps_ok (m\<lparr>ms_heap := (ms_heap m)[p := add_client cl (ms_heap m ! p)]\<rparr>)"
    using assms(1) by (rule mps_ok_heap) (use assms in \<open>auto simp: nth_list_update add_client_ok mps_daemon_nth\<close>)
  from mps_ok_set_pool [OF this, of c n] * show "mps_ok (m\<lparr>ms_heap := (ms_heap m)[p := add_client cl (ms_heap m ! p)],
      ms_pools := gm_set n c (ms_pools m)\<rparr>)" by simp
qed

lemma MPS_Allocate_loop_ok:
  assumes "mps_env_ok e" and "mps_ok m" and "mps_index_ok (ms_heap m) (mcf_Daemons c)"
  shows "mps_ok (snd (MPS_Allocate_loop e req pn gpus i n c m infos))"
  using assms(2,3)
proof (induction n arbitrary: i c m infos)
  case (Suc n)
  show ?case
  proof (cases "findOrCreateDaemon (me_ord e i) (me_now e i) m c gpus = Err NoAvailableGPUs")
    case True
    then show ?thesis using Suc.prems by (simp add: releaseClient_pow_ok)
  next
    case False
    then obtain p c' m' where f: "findOrCreateDaemon (me_ord e i) (me_now e i) m c gpus = Ok (p, c', m')"
      using findOrCreateDaemon_cases [of "me_ord e i" "me_now e i" m c gpus] by blast
    have r: "range_ok (me_ord e i)" using assms(1) by (simp add: mps_env_ok_def)
    from findOrCreateDaemon_ok [OF Suc.prems r f]
    have g: "mps_ok m'" "p < length (ms_heap m')" "length (md_Clients (ms_heap m' ! p)) < 48"
      "mps_index_ok (ms_heap m') (mcf_Daemons c')" by blast+
    from f show ?thesis by (simp add: Let_def) (intro Suc.IH; simp add: grant_client_ok [OF g])
  qed
qed simp

lemma MPS_Allocate_ok [inv_intros]: "mps_ok m \<Longrightarrow> mps_env_ok e \<Longrightarrow> mps_ok (snd (MPS_Allocate e m req pool gpus))"
  by (auto simp: MPS_Allocate_def intro: MPS_Allocate_loop_ok mps_ok_pool split: option.splits)

section \<open>What a service holds\<close>

definition clients_of :: "string \<Rightarrow> string \<Rightarrow> MPSDaemon \<Rightarrow> nat" where
  "clients_of svc ns d = length (filter (\<lambda>(k, cl). mps_client_of svc ns cl) (md_Clients d))"

text \<open>
  All clients of a service, on every daemon that was ever started, and whether the index that a
  release goes through leads to all of them.
\<close>

definition mps_holds :: "MPSManager \<Rightarrow> string \<Rightarrow> string \<Rightarrow> nat" where
  "mps_holds m svc ns = sum_list (map (clients_of svc ns) (ms_heap m))"

definition mps_indexed :: "MPSManager \<Rightarrow> string \<Rightarrow> string \<Rightarrow> bool" where
  "mps_indexed m svc ns \<longleftrightarrow> (\<forall>p \<in> set [0..<length (ms_heap m)]. clients_of svc ns (ms_heap m ! p) \<noteq> 0 \<longrightarrow> p \<in> set (gm_vals (ms_daemons m)))"

lemma mps_holds_sum: "mps_holds m svc ns = (\<Sum>p < length (ms_heap m). clients_of svc ns (ms_heap m ! p))"
  by (simp add: mps_holds_def sum_list_sum_nth atLeast0LessThan)

lemma mps_holds_mono:
  assumes "length (ms_heap m') = length (ms_heap m)"
    and "\<And>p. p < length (ms_heap m) \<Longrightarrow> clients_of svc ns (ms_heap m' ! p) \<le> clients_of svc ns (ms_heap m ! p)"
  shows "mps_holds m' svc ns \<le> mps_holds m svc ns"
  unfolding mps_holds_sum assms(1) by (rule sum_mono) (use assms(2) in simp)

lemma clients_of_drop: "clients_of s n (drop_clients svc ns d) = (if s = svc \<and> n = ns then 0 else clients_of s n d)"
proof -
  have c: "md_Clients (drop_clients svc ns d) = filter (\<lambda>(k, cl). \<not> mps_client_of svc ns cl) (md_Clients d)"
    by (simp add: drop_clients_def)
  have *: "filter (\<lambda>(k, cl). mps_client_of s n cl) (filter (\<lambda>(k, cl). \<not> mps_client_of svc ns cl) xs) =
      (if s = svc \<and> n = ns then [] else filter (\<lambda>(k, cl). mps_client_of s n cl) xs)" for xs
    by (cases "s = svc \<and> n = ns"; induction xs) (simp_all, auto simp: mps_client_of_def)
  show ?thesis unfolding clients_of_def c * by simp
qed

lemma releaseClient_clients:
  "p < length (ms_heap m) \<Longrightarrow> clients_of s n (ms_heap (releaseClient m svc ns) ! p) =
    (if s = svc \<and> n = ns \<and> p \<in> set (gm_vals (ms_daemons m)) then 0 else clients_of s n (ms_heap m ! p))"
  by (simp add: releaseClient_nth clients_of_drop)

lemma releaseClient_holds:
  shows "mps_indexed m svc ns \<Longrightarrow> mps_holds (releaseClient m svc ns) svc ns = 0"
    and "mps_holds (releaseClient m svc ns) s n \<le> mps_holds m s n"
    and "\<not> (s = svc \<and> n = ns) \<Longrightarrow> mps_holds (releaseClient m svc ns) s n = mps_holds m s n"
proof -
  show "mps_holds (releaseClient m svc ns) s n \<le> mps_holds m s n"
    by (rule mps_holds_mono) (simp_all add: releaseClient_clients)
  show "\<not> (s = svc \<and> n = ns) \<Longrightarrow> mps_holds (releaseClient m svc ns) s n = mps_holds m s n"
    by (auto simp: mps_holds_sum releaseClient_clients)
  assume "mps_indexed m svc ns"
  then have "clients_of svc ns (ms_heap (releaseClient m svc ns) ! p) = 0" if "p < length (ms_heap m)" for p
    using that releaseClient_clients [OF that, of svc ns svc ns] by (auto simp: mps_indexed_def)
  then show "mps_holds (releaseClient m svc ns) svc ns = 0" by (simp add: mps_holds_sum)
qed

lemma releaseClient_pow_le: "mps_holds (((\<lambda>m. releaseClient m svc ns) ^^ i) m) s n \<le> mps_holds m s n"
  by (induction i) (auto intro: le_trans [OF releaseClient_holds(2)])

lemma startDaemon_holds: "startDaemon now m n d c = (p, c', m') \<Longrightarrow> mps_holds m' svc ns = mps_holds m svc ns"
  by (auto simp: startDaemon_def Let_def mps_holds_def clients_of_def new_daemon_def)

lemma findOrCreateDaemon_holds:
  assumes "findOrCreateDaemon ord now m c gpus = Ok (p, c', m')"
  shows "mps_holds m' svc ns = mps_holds m svc ns"
  using assms startDaemon_holds
  by (auto simp: findOrCreateDaemon_def split: option.splits)

lemma clients_of_add:
  assumes "\<not> mps_client_of svc ns cl"
  shows "clients_of svc ns (add_client cl d) \<le> clients_of svc ns d"
  using assms unfolding clients_of_def add_client_def by simp (rule filter_gm_set_le, simp)

lemma MPS_Allocate_loop_other:
  assumes "mps_env_ok e" and "mps_ok m" and "mps_index_ok (ms_heap m) (mcf_Daemons c)"
    and ne: "\<not> (ar_ServiceName req = svc \<and> ar_Namespace req = ns)"
  shows "mps_holds (snd (MPS_Allocate_loop e req pn gpus i n c m infos)) svc ns \<le> mps_holds m svc ns"
  using assms(2,3)
proof (induction n arbitrary: i c m infos)
  case (Suc n)
  show ?case
  proof (cases "findOrCreateDaemon (me_ord e i) (me_now e i) m c gpus = Err NoAvailableGPUs")
    case True
    then show ?thesis by (simp add: releaseClient_pow_le)
  next
    case False
    then obtain p c' m' where f: "findOrCreateDaemon (me_ord e i) (me_now e i) m c gpus = Ok (p, c', m')"
      using findOrCreateDaemon_cases [of "me_ord e i" "me_now e i" m c gpus] by blast
    have r: "range_ok (me_ord e i)" using assms(1) by (simp add: mps_env_ok_def)
    from findOrCreateDaemon_ok [OF Suc.prems r f]
    have g: "mps_ok m'" "p < length (ms_heap m')" "length (md_Clients (ms_heap m' ! p)) < 48"
      "mps_index_ok (ms_heap m') (mcf_Daemons c')" by blast+
    let ?cl = "new_client (me_now e i) req c' (ms_heap m' ! p) i"
    let ?m = "m'\<lparr>ms_heap := (ms_heap m')[p := add_client ?cl (ms_heap m' ! p)], ms_pools := gm_set pn c' (ms_pools m')\<rparr>"
    have "mps_holds ?m svc ns \<le> mps_holds m' svc ns"
    proof (rule mps_holds_mono)
      fix q assume "q < length (ms_heap m')"
      moreover have "\<not> mps_client_of svc ns ?cl" using ne by (simp add: mps_client_of_def new_client_def)
      ultimately show "clients_of svc ns (ms_heap ?m ! q) \<le> clients_of svc ns (ms_heap m' ! q)"
        using g(2) by (cases "q = p") (simp_all add: clients_of_add)
    qed simp
    moreover have "mps_holds (snd (MPS_Allocate_loop e req pn gpus (Suc i) n c' ?m infos')) svc ns \<le> mps_holds ?m svc ns"
      for infos' by (rule Suc.IH) (simp_all add: grant_client_ok [OF g])
    ultimately show ?thesis
      using f findOrCreateDaemon_holds [OF f, of svc ns]
      by (simp add: Let_def) (meson le_trans)
  qed
qed simp

lemma MPS_Allocate_loop_count:
  "MPS_Allocate_loop e req pn gpus i n c m infos = (Ok infos', m') \<Longrightarrow> length infos' = length infos + n"
proof (induction n arbitrary: i c m infos)
  case (Suc n)
  then show ?case by (auto simp: Let_def split: outcome.splits)
qed simp

section \<open>The MPS manager keeps the contract of a sharing manager\<close>

interpretation mps: sharing_manager MPS_Allocate MPS_Release "\<lambda>m n. gm_has (ms_pools m) n"
  mps_holds mps_indexed mps_ok mps_env_ok
proof (unfold_locales, goal_cases)
  case (1 s e req pool gpus)
  then show ?case by (rule MPS_Allocate_ok)
next
  case (2 s svc ns)
  then show ?case by (simp add: MPS_Release_def releaseClient_ok)
next
  case (3 s e req pool gpus infos s')
  then show ?case by (auto simp: MPS_Allocate_def dest: MPS_Allocate_loop_count split: option.splits if_splits)
next
  case (4 s pool e req gpus)
  then show ?case by (simp add: MPS_Allocate_def gm_has_def)
next
  case (5 s e req svc ns pool gpus)
  show ?case
  proof (cases "gm_get (ms_pools s) (pi_Name pool)")
    case (Some c)
    with MPS_Allocate_loop_other [OF 5(2,1) mps_ok_pool [OF 5(1) Some] 5(3)] show ?thesis
      by (simp add: MPS_Allocate_def)
  qed (simp add: MPS_Allocate_def)
qed (auto simp: MPS_Release_def releaseClient_holds)

section \<open>What Allocate registers\<close>

lemma mps_client_id_inj: "mps_client_id ns svc i = mps_client_id ns svc j \<longleftrightarrow> i = j"
  by (auto simp: mps_client_id_def dest: itoa_inj)

text \<open>Client \<open>id\<close> is registered in some daemon of the heap, for the GPU of the reported allocation.\<close>

definition registered :: "MPSDaemon list \<Rightarrow> AllocationRequest \<Rightarrow> nat \<Rightarrow> GPUAllocationInfo \<Rightarrow> bool" where
  "registered h req j info \<longleftrightarrow> (\<exists>p < length h. \<exists>cl.
     gm_get (md_Clients (h ! p)) (mps_client_id (ar_Namespace req) (ar_ServiceName req) j) = Some cl \<and>
     mps_client_of (ar_ServiceName req) (ar_Namespace req) cl \<and>
     mcl_NodeName cl = ai_NodeName info \<and> mcl_DeviceID cl = ai_DeviceID info)"

definition keeps_clients :: "AllocationRequest \<Rightarrow> nat \<Rightarrow> MPSDaemon list \<Rightarrow> MPSDaemon list \<Rightarrow> bool" where
  "keeps_clients req i h h' \<longleftrightarrow> length h \<le> length h' \<and> (\<forall>p < length h. \<forall>k.
     (\<forall>j \<ge> i. k \<noteq> mps_client_id (ar_Namespace req) (ar_ServiceName req) j) \<longrightarrow>
     gm_get (md_Clients (h' ! p)) k = gm_get (md_Clients (h ! p)) k)"

lemma keeps_clients_trans:
  assumes "keeps_clients req i h1 h2" and "keeps_clients req i h2 h3"
  shows "keeps_clients req i h1 h3"
  using assms by (auto simp: keeps_clients_def)

lemma keeps_clients_Suc: "keeps_clients req (Suc i) h h' \<Longrightarrow> keeps_clients req i h h'"
  unfolding keeps_clients_def by auto

lemma registered_keeps:
  assumes "registered h req j info" and "keeps_clients req i h h'" and "j < i"
  shows "registered h' req j info"
proof -
  have "\<forall>l \<ge> i. mps_client_id (ar_Namespace req) (ar_ServiceName req) j \<noteq> mps_client_id (ar_Namespace req) (ar_ServiceName req) l"
    using assms(3) by (auto simp: mps_client_id_inj)
  moreover obtain p cl where "p < length h"
    "gm_get (md_Clients (h ! p)) (mps_client_id (ar_Namespace req) (ar_ServiceName req) j) = Some cl"
    "mps_client_of (ar_ServiceName req) (ar_Namespace req) cl"
    "mcl_NodeName cl = ai_NodeName info" "mcl_DeviceID cl = ai_DeviceID info"
    using assms(1) by (auto simp: registered_def)
  ultimately show ?thesis using assms(2)
    unfolding registered_def keeps_clients_def by (intro exI [of _ p] conjI exI [of _ cl]) simp_all
qed

lemma findOrCreateDaemon_heap:
  assumes "findOrCreateDaemon ord now m c gpus = Ok (p, c', m')"
  shows "\<exists>xs. ms_heap m' = ms_heap m @ xs"
  using assms by (auto simp: findOrCreateDaemon_def startDaemon_def Let_def split: option.splits)

lemma MPS_Allocate_loop_registers:
  assumes "mps_env_ok e" and "mps_ok m" and "mps_index_ok (ms_heap m) (mcf_Daemons c)"
    and "MPS_Allocate_loop e req pn gpus i n c m infos = (Ok infos', m')"
  shows "\<exists>news. infos' = infos @ news \<and> length news = n
    \<and> (\<forall>j < n. registered (ms_heap m') req (i + j) (news ! j)) \<and> keeps_clients req i (ms_heap m) (ms_heap m')"
  using assms(2-4)
proof (induction n arbitrary: i c m infos)
  case 0
  then show ?case by (simp add: keeps_clients_def)
next
  case (Suc n)
  have "findOrCreateDaemon (me_ord e i) (me_now e i) m c gpus \<noteq> Err NoAvailableGPUs"
    using Suc.prems(3) by auto
  then obtain p c' m1 where f: "findOrCreateDaemon (me_ord e i) (me_now e i) m c gpus = Ok (p, c', m1)"
    using findOrCreateDaemon_cases [of "me_ord e i" "me_now e i" m c gpus] by blast
  have r: "range_ok (me_ord e i)" using assms(1) by (simp add: mps_env_ok_def)
  from findOrCreateDaemon_ok [OF Suc.prems(1,2) r f]
  have g: "mps_ok m1" "p < length (ms_heap m1)" "length (md_Clients (ms_heap m1 ! p)) < 48"
    "mps_index_ok (ms_heap m1) (mcf_Daemons c')" by blast+
  let ?d = "ms_heap m1 ! p"
  let ?cl = "new_client (me_now e i) req c' ?d i"
  let ?m = "m1\<lparr>ms_heap := (ms_heap m1)[p := add_client ?cl ?d], ms_pools := gm_set pn c' (ms_pools m1)\<rparr>"
  let ?info = "\<lparr>ai_NodeName = md_NodeName ?d, ai_DeviceID = md_DeviceID ?d, ai_MIGInstance = '''',
      ai_Memory = mcl_MemoryLimit ?cl\<rparr>"
  have call: "MPS_Allocate_loop e req pn gpus (Suc i) n c' ?m (infos @ [?info]) = (Ok infos', m')"
    using Suc.prems(3) f by (simp add: Let_def)
  obtain news where news: "infos' = (infos @ [?info]) @ news" "length news = n"
      "\<forall>j < n. registered (ms_heap m') req (Suc i + j) (news ! j)"
      "keeps_clients req (Suc i) (ms_heap ?m) (ms_heap m')"
    using Suc.IH [OF _ _ call] by (simp add: grant_client_ok [OF g]) blast
  have "keeps_clients req i (ms_heap m) (ms_heap ?m)"
    using findOrCreateDaemon_heap [OF f] g(2)
    by (auto simp: keeps_clients_def nth_list_update nth_append add_client_def new_client_def update_conv')
  then have keep: "keeps_clients req i (ms_heap m) (ms_heap m')"
    using keeps_clients_trans keeps_clients_Suc [OF news(4)] by blast
  have "registered (ms_heap ?m) req i ?info"
    unfolding registered_def using g(2)
    by (intro exI [of _ p] conjI exI [of _ ?cl])
      (simp_all add: add_client_def new_client_def update_conv' mps_client_of_def)
  then have "registered (ms_heap m') req i ?info"
    using registered_keeps [OF _ news(4)] by simp
  then have "\<forall>j < Suc n. registered (ms_heap m') req (i + j) ((?info # news) ! j)"
    using news(3) by (auto simp: less_Suc_eq_0_disj)
  then show ?case using news(1,2) keep by (intro exI [of _ "?info # news"]) simp
qed

text \<open>
  The daemons of a pool are the ones that the index has for their GPUs. It is so unless another pool has
  started a daemon on one of them.
\<close>

definition pool_indexed :: "MPSManager \<Rightarrow> MPSPoolConfig \<Rightarrow> bool" where
  "pool_indexed m c \<longleftrightarrow> (\<forall>(k, p) \<in> set (mcf_Daemons c). gm_get (ms_daemons m) k = Some p)"

definition pool_clear :: "MPSManager \<Rightarrow> string \<Rightarrow> string \<Rightarrow> string \<Rightarrow> bool" where
  "pool_clear m pn svc ns \<longleftrightarrow> (\<exists>c. gm_get (ms_pools m) pn = Some c \<and>
     (\<forall>p \<in> set (gm_vals (mcf_Daemons c)) \<union> set (gm_vals (ms_daemons m)). clients_of svc ns (ms_heap m ! p) = 0))"

lemma findOrCreateDaemon_indexed:
  assumes "pool_indexed m c" and "findOrCreateDaemon ord now m c gpus = Ok (p, c', m')"
  shows "pool_indexed m' c'"
proof -
  have "pool_indexed (m\<lparr>ms_heap := h, ms_daemons := gm_set k q (ms_daemons m)\<rparr>) (c\<lparr>mcf_Daemons := gm_set k q (mcf_Daemons c)\<rparr>)"
    if "\<not> gm_has (mcf_Daemons c) k" for h k q
  proof -
    have "k \<notin> fst ` set (mcf_Daemons c)" using that by (simp add: gm_has_def gm_get_none)
    then have "gm_get (gm_set k q (ms_daemons m)) k' = Some p" if "(k', p) \<in> set (gm_set k q (mcf_Daemons c))" for k' p
      using that assms(1) set_gm_set_subset [of k q "mcf_Daemons c"] by (force simp: pool_indexed_def gm_get_set)
    then show ?thesis by (auto simp: pool_indexed_def)
  qed
  then show ?thesis using assms
    by (auto simp: findOrCreateDaemon_def startDaemon_def Let_def split: option.splits dest: find_Some_in)
qed

lemma releaseClient_pow_fields [simp]:
  "ms_daemons (((\<lambda>m. releaseClient m s n) ^^ i) m) = ms_daemons m" "ms_pools (((\<lambda>m. releaseClient m s n) ^^ i) m) = ms_pools m"
  "length (ms_heap (((\<lambda>m. releaseClient m s n) ^^ i) m)) = length (ms_heap m)"
  by (induction i) simp_all

lemma releaseClient_pow_clear:
  assumes "mps_ok m" and "gm_get (ms_pools m) pn = Some c" and "pool_indexed m c"
  shows "pool_clear (((\<lambda>m. releaseClient m svc ns) ^^ Suc i) m) pn svc ns"
proof -
  let ?m = "((\<lambda>m. releaseClient m svc ns) ^^ i) m"
  have "clients_of svc ns (ms_heap (releaseClient ?m svc ns) ! p) = 0" if "p \<in> set (gm_vals (ms_daemons m))" for p
    using that ix_ok_ptr [OF mps_ok_index [OF assms(1)]] by (subst releaseClient_clients) auto
  moreover have "p \<in> set (gm_vals (ms_daemons m))" if "p \<in> set (gm_vals (mcf_Daemons c))" for p
    using that assms(3) by (force simp: pool_indexed_def dest: gm_get_mem)
  ultimately show ?thesis using assms(2) by (auto simp: pool_clear_def simp del: set_map)
qed

lemma MPS_Allocate_loop_rollback:
  assumes "mps_env_ok e" and "mps_ok m" and "gm_get (ms_pools m) pn = Some c" and "pool_indexed m c"
    and "MPS_Allocate_loop e req pn gpus i n c m infos = (Err err, m')"
  shows "(i = 0 \<and> m' = m) \<or> pool_clear m' pn (ar_ServiceName req) (ar_Namespace req)"
  using assms(2-5)
proof (induction n arbitrary: i c m infos)
  case (Suc n)
  show ?case
  proof (cases "findOrCreateDaemon (me_ord e i) (me_now e i) m c gpus = Err NoAvailableGPUs")
    case True
    then show ?thesis using Suc.prems releaseClient_pow_clear [OF Suc.prems(1-3)] by (cases i) auto
  next
    case False
    then obtain p c' m1 where f: "findOrCreateDaemon (me_ord e i) (me_now e i) m c gpus = Ok (p, c', m1)"
      using findOrCreateDaemon_cases [of "me_ord e i" "me_now e i" m c gpus] by blast
    have r: "range_ok (me_ord e i)" using assms(1) by (simp add: mps_env_ok_def)
    from findOrCreateDaemon_ok [OF Suc.prems(1) mps_ok_pool [OF Suc.prems(1,2)] r f]
    have g: "mps_ok m1" "p < length (ms_heap m1)" "length (md_Clients (ms_heap m1 ! p)) < 48"
      "mps_index_ok (ms_heap m1) (mcf_Daemons c')" by blast+
    let ?d = "ms_heap m1 ! p"
    let ?cl = "new_client (me_now e i) req c' ?d i"
    let ?m = "m1\<lparr>ms_heap := (ms_heap m1)[p := add_client ?cl ?d], ms_pools := gm_set pn c' (ms_pools m1)\<rparr>"
    have call: "MPS_Allocate_loop e req pn gpus (Suc i) n c' ?m (infos @ [\<lparr>ai_NodeName = md_NodeName ?d,
        ai_DeviceID = md_DeviceID ?d, ai_MIGInstance = [], ai_Memory = mcl_MemoryLimit ?cl\<rparr>]) = (Err err, m')"
      using Suc.prems(4) f by (simp add: Let_def)
    have "pool_indexed ?m c'" using findOrCreateDaemon_indexed [OF Suc.prems(3) f] by (simp add: pool_indexed_def)
    then show ?thesis using Suc.IH [OF _ _ _ call] by (simp add: grant_client_ok [OF g] gm_get_set)
  qed
qed simp

section \<open>The other operations keep well-formedness\<close>

lemma MPS_ConfigurePool_ok [inv_intros]: "mps_ok m \<Longrightarrow> mps_ok (snd (MPS_ConfigurePool m pool))"
  by (auto simp: MPS_ConfigurePool_def intro!: mps_ok_set_pool split: option.splits)

lemma MPS_CleanupPool_ok [inv_intros]:
  assumes "mps_ok m"
  shows "mps_ok (snd (MPS_CleanupPool ord m n))"
proof -
  have "mps_ok (m\<lparr>ms_heap := heap_upd stopDaemon ps (ms_heap m)\<rparr>)" for ps
    using assms by (rule mps_ok_heap) (simp_all add: nth_heap_upd stopDaemon_ok mps_daemon_nth [OF assms])
  then have "mps_ok (m\<lparr>ms_heap := heap_upd stopDaemon ps (ms_heap m),
      ms_daemons := fold (\<lambda>(k, p). gm_del k) ks (ms_daemons m), ms_pools := gm_del n (ms_pools m)\<rparr>)" for ps ks
    using set_gm_del_subset [of n "ms_pools m"] by (auto simp: mps_ok_def gm_ok_delete intro: ix_ok_dels)
  with assms show ?thesis by (auto simp: MPS_CleanupPool_def split: option.splits)
qed

lemma MPS_SetActiveThreadPercentage_ok [inv_intros]:
  assumes "mps_ok m" and "range_ok ord"
  shows "mps_ok (snd (MPS_SetActiveThreadPercentage ord m cid pct))"
proof (cases "find (\<lambda>(k, p). gm_has (md_Clients (ms_heap m ! p)) cid) (ord (ms_daemons m))")
  case (Some kp)
  obtain k p where kp: "kp = (k, p)" by (cases kp)
  have "(k, p) \<in> set (ms_daemons m)" "gm_has (md_Clients (ms_heap m ! p)) cid"
    using find_Some_in [OF Some] range_ok_set [OF assms(2)] kp by auto
  then have p: "p < length (ms_heap m)" and cid: "cid \<in> fst ` set (md_Clients (ms_heap m ! p))"
    using ix_ok_ptr [OF mps_ok_index [OF assms(1)]] by (auto simp: gm_has_def gm_get_none)
  have "mps_ok (m\<lparr>ms_heap := (ms_heap m)[p := (ms_heap m ! p)\<lparr>md_Clients := gm_set cid cl (md_Clients (ms_heap m ! p))\<rparr>]\<rparr>)" for cl
    using assms(1)
    by (rule mps_ok_heap) (use p cid mps_daemon_nth [OF assms(1)] in
      \<open>auto simp: nth_list_update daemon_key_def mps_daemon_ok_def gm_ok_update length_gm_set\<close>)
  then show ?thesis using assms(1) Some kp by (auto simp: MPS_SetActiveThreadPercentage_def split: option.splits)
qed (use assms(1) in \<open>simp add: MPS_SetActiveThreadPercentage_def\<close>)

lemma MPS_RestartDaemon_ok [inv_intros]:
  assumes ok: "mps_ok m" and ord: "range_ok ord"
  shows "mps_ok (snd (MPS_RestartDaemon ord now m n d))"
proof -
  let ?key = "gpu_key n d"
  let ?F = "find (\<lambda>(n, c). gm_has (mcf_Daemons c) ?key) (ord (ms_pools m))"
  consider "snd (MPS_RestartDaemon ord now m n d) = m"
    | p pn c where "gm_get (ms_daemons m) ?key = Some p" "md_Clients (ms_heap m ! p) = []" "?F = Some (pn, c)"
  proof (cases "gm_get (ms_daemons m) ?key")
    case None
    then show thesis by (intro that(1)) (simp add: MPS_RestartDaemon_def Let_def)
  next
    case (Some p)
    show thesis
    proof (cases "md_Clients (ms_heap m ! p) = [] \<and> ?F \<noteq> None")
      case True
      then obtain pn c where "?F = Some (pn, c)" by auto
      with True Some show thesis by (intro that(2)) auto
    next
      case False
      then have "?F = None \<or> md_Clients (ms_heap m ! p) \<noteq> []" by auto
      with Some show thesis by (intro that(1)) (elim disjE, simp_all add: MPS_RestartDaemon_def Let_def)
    qed
  qed
  then show ?thesis
  proof cases
    case 1
    with ok show ?thesis by simp
  next
    case (2 p pn c)
    let ?m1 = "m\<lparr>ms_heap := (ms_heap m)[p := stopDaemon (ms_heap m ! p)], ms_daemons := gm_del ?key (ms_daemons m)\<rparr>"
    let ?c1 = "c\<lparr>mcf_Daemons := gm_del ?key (mcf_Daemons c)\<rparr>"
    have p: "p < length (ms_heap m)"
      using ix_ok_ptr [OF mps_ok_index [OF ok] gm_get_mem [OF 2(1)]] by simp
    have "(pn, c) \<in> set (ms_pools m)" using find_Some_in [OF 2(3)] range_ok_set [OF ord] by auto
    then have c: "mps_index_ok (ms_heap m) (mcf_Daemons c)" using ok by (auto simp: mps_ok_def)
    have m0: "mps_ok (m\<lparr>ms_heap := (ms_heap m)[p := stopDaemon (ms_heap m ! p)]\<rparr>)"
      using ok by (rule mps_ok_heap) (use p mps_daemon_nth [OF ok] in \<open>auto simp: nth_list_update stopDaemon_ok\<close>)
    then have m1: "mps_ok ?m1" by (auto simp: mps_ok_def intro: ix_ok_del)
    have "mps_index_ok (ms_heap ?m1) (mcf_Daemons c)"
      using c by (rule ix_ok_cong) (use p in \<open>auto simp: nth_list_update\<close>)
    then have c1: "mps_index_ok (ms_heap ?m1) (mcf_Daemons ?c1)" by (simp add: ix_ok_del)
    obtain q c2 m2 where s: "startDaemon now ?m1 n d ?c1 = (q, c2, m2)" by (metis prod_cases3)
    from startDaemon_ok [OF m1 c1 s] have "mps_ok (m2\<lparr>ms_pools := gm_set pn c2 (ms_pools m2)\<rparr>)"
      by (intro mps_ok_set_pool) auto
    with 2 s show ?thesis by (simp add: MPS_RestartDaemon_def Let_def)
  qed
qed

inductive mps_step :: "MPSManager \<Rightarrow> MPSManager \<Rightarrow> bool" where
  start: "mps_step m (MPS_Start m)"
| stop: "mps_step m (snd (MPS_Stop m))"
| configure: "mps_step m (snd (MPS_ConfigurePool m pool))"
| cleanup: "range_ok ord \<Longrightarrow> mps_step m (snd (MPS_CleanupPool ord m n))"
| allocate: "mps_env_ok e \<Longrightarrow> mps_step m (snd (MPS_Allocate e m req info gpus))"
| release: "mps_step m (MPS_Release m svc ns)"
| set_pct: "range_ok ord \<Longrightarrow> mps_step m (snd (MPS_SetActiveThreadPercentage ord m cid pct))"
| restart: "range_ok pord \<Longrightarrow> mps_step m (snd (MPS_RestartDaemon pord now m node dev))"

inductive mps_reachable :: "MPSManager \<Rightarrow> bool" where
  new: "mps_reachable NewMPSManager"
| step: "mps_reachable m \<Longrightarrow> mps_step m m' \<Longrightarrow> mps_reachable m'"

lemma mps_step_ok: "mps_step m m' \<Longrightarrow> mps_ok m \<Longrightarrow> mps_ok m'"
proof (induction rule: mps_step.induct)
  case (release m svc ns)
  then show ?case by (simp add: MPS_Release_def releaseClient_ok)
next
  case (start m)
  then show ?case by (simp add: MPS_Start_def mps_ok_def)
next
  case (stop m)
  then show ?case by (simp add: MPS_Stop_def mps_ok_def)
qed (blast intro: inv_intros)+

lemma mps_reachable_ok: "mps_reachable m \<Longrightarrow> mps_ok m"
proof (induction rule: mps_reachable.induct)
  case new
  show ?case by (simp add: NewMPSManager_def mps_ok_def)
next
  case (step m m')
  then show ?case by (blast intro: mps_step_ok)
qed

section \<open>Properties\<close>

definition mps_demo_pool :: GPUPool where
  "mps_demo_pool = \<lparr>gp_Meta = \<lparr>om_Name = ''p'', om_Namespace = '''', om_Generation = 1,
       om_DeletionTimestamp = None, om_Finalizers = []\<rparr>,
     gp_Spec = \<lparr>gps_NodeSelector = [], gps_GPUType = '''',
       gps_Sharing = Some \<lparr>gss_Mode = ''mps'', gss_Profiles = [], gss_TimeSliceInterval = 100,
         gss_MPSActiveThreadPercentage = 50, gss_MPSMemoryLimit = Some 1024\<rparr>,
       gps_Oversubscription = None, gps_ReservationPolicy = '''', gps_PreemptionPolicy = '''',
       gps_HealthCheckInterval = None\<rparr>,
     gp_Status = \<lparr>gst_Phase = GPUPoolPhaseUnset, gst_TotalGPUs = 0, gst_AvailableGPUs = 0,
       gst_AllocatedGPUs = 0, gst_TotalMemory = 0, gst_AvailableMemory = 0, gst_Nodes = [],
       gst_Conditions = [], gst_LastSyncTime = None, gst_ObservedGeneration = 0\<rparr>\<rparr>"

definition mps_demo_info :: PoolInfo where
  "mps_demo_info = \<lparr>pi_Name = ''p'', pi_NodeSelector = [], pi_GPUType = '''', pi_SharingMode = ''mps'',
     pi_MIGProfiles = [], pi_OversubscriptionRatio = Fin 1, pi_TotalGPUs = 0, pi_AvailableGPUs = 0,
     pi_GPUs = []\<rparr>"

definition demo_gpu :: "string \<Rightarrow> GPUInfo" where
  "demo_gpu dev = \<lparr>gi_DeviceID = dev, gi_UUID = dev, gi_Model = '''', gi_NodeName = ''n1'', gi_TotalMemory = 1024,
     gi_AvailableMemory = 1024, gi_Utilization = 0, gi_Temperature = 40, gi_PowerUsage = 0,
     gi_MIGEnabled = False, gi_MIGInstances = [], gi_Allocations = []\<rparr>"

definition mps_demo_req :: "string \<Rightarrow> int \<Rightarrow> AllocationRequest" where
  "mps_demo_req svc n = \<lparr>ar_ServiceName = svc, ar_Namespace = ''ns'', ar_GPUType = '''', ar_GPUCount = n,
     ar_Memory = 0, ar_SharingMode = ''mps'', ar_MIGProfile = '''', ar_PoolName = ''p''\<rparr>"

definition mps_demo_env :: mps_env where
  "mps_demo_env = \<lparr>me_ord = (\<lambda>i m. m), me_now = (\<lambda>i. int i)\<rparr>"

definition mps_demo :: MPSManager where
  "mps_demo = snd (MPS_ConfigurePool NewMPSManager mps_demo_pool)"

definition mps_demo2 :: MPSManager where
  "mps_demo2 = snd (MPS_Allocate mps_demo_env mps_demo (mps_demo_req ''a'' 2) mps_demo_info [demo_gpu ''0''])"

lemma mps_demo_env_ok [simp]: "mps_env_ok mps_demo_env"
  by (simp add: mps_env_ok_def mps_demo_env_def)

lemma mps_demo_reachable: "mps_reachable mps_demo"
  unfolding mps_demo_def by (rule mps_reachable.step [OF mps_reachable.new mps_step.configure])

lemma mps_demo2_reachable: "mps_reachable mps_demo2"
  unfolding mps_demo2_def by (rule mps_reachable.step [OF mps_demo_reachable mps_step.allocate]) simp

text \<open>
  C14. No MPS daemon ever serves more than the 48 clients the hardware supports: the bound
  holds of every daemon, in every state that any sequence of the manager's operations reaches.
\<close>

theorem mps_client_limit:
  assumes "mps_reachable m" and "d \<in> set (ms_heap m)"
  shows "length (md_Clients d) \<le> 48 \<and> gm_ok (md_Clients d)"
  using mps_reachable_ok [OF assms(1)] assms(2) by (auto simp: mps_ok_def mps_daemon_ok_def)

theorem mps_client_limit_witness:
  "ms_heap mps_demo2 \<noteq> [] \<and> length (md_Clients (hd (ms_heap mps_demo2))) \<le> 48"
proof -
  have ne: "ms_heap mps_demo2 \<noteq> []" by code_simp
  then show ?thesis using mps_client_limit [OF mps_demo2_reachable hd_in_set [OF ne]] by simp
qed

text \<open>
  A successful request is booked: it reports exactly the requested number of GPUs, and the
  \<open>j\<close>-th of them is backed by a registered client \<open>namespace/service-j\<close> of the requesting
  service on the reported node and device.
\<close>

theorem mps_allocate_registers:
  assumes "mps_reachable m" and "mps_env_ok e" and "MPS_Allocate e m req pool gpus = (Ok infos, m')"
  shows "int (length infos) = ar_GPUCount req \<and> (\<forall>j < length infos. registered (ms_heap m') req j (infos ! j))"
proof -
  have ok: "mps_ok m" using assms(1) by (rule mps_reachable_ok)
  obtain c where c: "gm_get (ms_pools m) (pi_Name pool) = Some c" and n: "0 \<le> ar_GPUCount req"
    and loop: "MPS_Allocate_loop e req (pi_Name pool) gpus 0 (nat (ar_GPUCount req)) c m [] = (Ok infos, m')"
    using assms(3) by (auto simp: MPS_Allocate_def split: option.splits if_splits)
  from MPS_Allocate_loop_registers [OF assms(2) ok mps_ok_pool [OF ok c] loop] n show ?thesis by auto
qed

theorem mps_allocate_registers_witness:
  "\<exists>infos m'. MPS_Allocate mps_demo_env mps_demo (mps_demo_req ''a'' 2) mps_demo_info [demo_gpu ''0''] = (Ok infos, m')
    \<and> length infos = 2 \<and> registered (ms_heap m') (mps_demo_req ''a'' 2) 1 (infos ! 1)"
proof -
  have "is_ok (fst (MPS_Allocate mps_demo_env mps_demo (mps_demo_req ''a'' 2) mps_demo_info [demo_gpu ''0'']))"
    by code_simp
  then obtain infos m' where a: "MPS_Allocate mps_demo_env mps_demo (mps_demo_req ''a'' 2) mps_demo_info [demo_gpu ''0''] = (Ok infos, m')"
    by (metis is_ok_iff prod.collapse)
  from mps_allocate_registers [OF mps_demo_reachable mps_demo_env_ok a] a show ?thesis
    by (auto simp: mps_demo_req_def)
qed

text \<open>
  C29. A request that fails for lack of GPUs is rolled back, on a pool whose daemons are the ones that
  the index has for their GPUs: either the request changed nothing, or no daemon of the pool and none
  in the index has a client of the service any more. The second case includes the clients that
  earlier, successful requests of the same service had been given. Where another pool has started a
  daemon on the same GPU, clients stay behind (\<open>mps_rollback_misses\<close>).
\<close>

theorem mps_allocate_rollback:
  assumes "mps_reachable m" and "mps_env_ok e" and "MPS_Allocate e m req pool gpus = (Err err, m')"
    and "\<And>c. gm_get (ms_pools m) (pi_Name pool) = Some c \<Longrightarrow> pool_indexed m c"
  shows "m' = m \<or> pool_clear m' (pi_Name pool) (ar_ServiceName req) (ar_Namespace req)"
proof -
  have ok: "mps_ok m" using assms(1) by (rule mps_reachable_ok)
  show ?thesis
  proof (cases "gm_get (ms_pools m) (pi_Name pool)")
    case (Some c)
    from MPS_Allocate_loop_rollback [OF assms(2) ok Some assms(4) [OF Some]] assms(3) Some show ?thesis
      by (fastforce simp: MPS_Allocate_def split: if_splits)
  qed (use assms(3) in \<open>simp add: MPS_Allocate_def\<close>)
qed

theorem mps_allocate_rollback_witness:
  "\<exists>err m'. MPS_Allocate mps_demo_env mps_demo (mps_demo_req ''a'' 1) mps_demo_info [] = (Err err, m')
    \<and> (m' = mps_demo \<or> pool_clear m' ''p'' ''a'' ''ns'')"
proof -
  have "is_err (fst (MPS_Allocate mps_demo_env mps_demo (mps_demo_req ''a'' 1) mps_demo_info []))"
    by code_simp
  then obtain err m' where a: "MPS_Allocate mps_demo_env mps_demo (mps_demo_req ''a'' 1) mps_demo_info [] = (Err err, m')"
    by (metis is_err_iff prod.collapse)
  have "map_option (pool_indexed mps_demo) (gm_get (ms_pools mps_demo) ''p'') = Some True" by code_simp
  then have "pool_indexed mps_demo c" if "gm_get (ms_pools mps_demo) (pi_Name mps_demo_info) = Some c" for c
    using that by (simp add: mps_demo_info_def)
  from mps_allocate_rollback [OF mps_demo_reachable mps_demo_env_ok a this] a show ?thesis
    by (auto simp: mps_demo_req_def mps_demo_info_def)
qed

text \<open>
  Two pools with one GPU: each starts a daemon on it, and the index keeps the later one. A release of
  the service that has its clients on the earlier one misses them.
\<close>

definition mps_demo_q :: MPSManager where
  "mps_demo_q = snd (MPS_Allocate mps_demo_env (snd (MPS_ConfigurePool mps_demo2
       (mps_demo_pool\<lparr>gp_Meta := (gp_Meta mps_demo_pool)\<lparr>om_Name := ''q''\<rparr>\<rparr>)))
     (mps_demo_req ''b'' 1) (mps_demo_info\<lparr>pi_Name := ''q''\<rparr>) [demo_gpu ''0''])"

lemma mps_release_misses:
  "mps_indexed mps_demo2 ''a'' ''ns'' \<and> \<not> mps_indexed mps_demo_q ''a'' ''ns'' \<and>
   mps_holds (MPS_Release mps_demo2 ''a'' ''ns'') ''a'' ''ns'' = 0 \<and> mps_holds (MPS_Release mps_demo_q ''a'' ''ns'') ''a'' ''ns'' = 2"
  by code_simp

text \<open>
  And so does the rollback of a failed request. Once 45 more clients have come to the daemon of the first
  pool, a request for two gets the last place on it and is then refused; the rollback looks at the
  other daemon, and the client stays.
\<close>

definition mps_demo_full :: MPSManager where
  "mps_demo_full = mps_demo_q\<lparr>ms_heap := (ms_heap mps_demo_q)[0 := (ms_heap mps_demo_q ! 0)\<lparr>md_Clients :=
     md_Clients (ms_heap mps_demo_q ! 0) @ map (\<lambda>i. ([char_of i], new_client 0 (mps_demo_req ''z'' 1)
       (the (gm_get (ms_pools mps_demo_q) ''p'')) (ms_heap mps_demo_q ! 0) i)) [0..<45]\<rparr>]\<rparr>"

lemma mps_rollback_misses:
  "case MPS_Allocate mps_demo_env mps_demo_full (mps_demo_req ''c'' 2) mps_demo_info [demo_gpu ''0''] of
     (r, m') \<Rightarrow> is_err r \<and> mps_holds m' ''c'' ''ns'' = 1"
  by code_simp

end
