(* ===== verification/Timeslice.thy ===== *)
theory Timeslice
  imports SharingSpec
begin

text \<open>
  The time-slice manager, \<open>internal/gpu/timeslice.go\<close>. A \<open>TimesliceGPU\<close> is reached only through
  its pool and a \<open>TimeSlot\<close> only through its GPU, so both are values. Durations are nanoseconds
  (64-bit, wrapping), priorities 32-bit (wrapping), weights \<open>float64\<close>; \<open>CurrentSlotIdx\<close> starts at 0
  and is only ever a remainder, so it is a \<^typ>\<open>nat\<close>. \<open>sort.Slice\<close> sorts up to twelve elements by
  insertion and the manager keeps at most ten slots, so the sort is stable. The wake-up
  channel has room for one message: \<open>tm_schedulerCh\<close> says whether it is full.
\<close>

section \<open>Data\<close>

record TimeSlot =
  sl_SlotID :: string
  sl_ServiceName :: string
  sl_Namespace :: string
  sl_StartOffset :: duration
  sl_Duration :: duration
  sl_Priority :: int
  sl_Active :: bool

record TimesliceGPU =
  tg_NodeName :: string
  tg_DeviceID :: string
  tg_SlotInterval :: duration
  tg_Slots :: "TimeSlot list"
  tg_MaxSlots :: int
  tg_CurrentSlotIdx :: nat
  tg_LastScheduled :: timestamp
  tg_TotalAllocated :: duration

record TimeslicePoolConfig =
  tcf_PoolName :: string
  tcf_SlotInterval :: duration
  tcf_MaxSlots :: int
  tcf_GPUs :: "(string, TimesliceGPU) gomap"

record TimesliceAllocation =
  ta_ServiceName :: string
  ta_Namespace :: string
  ta_NodeName :: string
  ta_DeviceID :: string
  ta_SlotID :: string
  ta_SlotDuration :: duration
  ta_SlotFraction :: gofloat
  ta_AllocatedAt :: timestamp

record TimesliceManager =
  tm_pools :: "(string, TimeslicePoolConfig) gomap"
  tm_allocations :: "(string, TimesliceAllocation list) gomap"
  tm_schedulerCh :: bool
  tm_running :: bool
  tm_stopCh_closed :: bool

type_synonym ts_gpu_ord = "(string, TimesliceGPU) gomap \<Rightarrow> (string, TimesliceGPU) gomap"
type_synonym ts_pool_ord = "(string, TimeslicePoolConfig) gomap \<Rightarrow> (string, TimeslicePoolConfig) gomap"

text \<open>What an \<open>Allocate\<close> reads from outside; iteration \<open>i\<close> may read the clock twice.\<close>

record ts_env =
  te_ord :: "nat \<Rightarrow> ts_gpu_ord"
  te_now :: "nat \<Rightarrow> timestamp"
  te_at :: "nat \<Rightarrow> timestamp"
  te_impl :: "gofloat \<Rightarrow> int"

definition ts_env_ok :: "ts_env \<Rightarrow> bool" where
  "ts_env_ok e \<longleftrightarrow> (\<forall>i. range_ok (te_ord e i))"

definition millisecond :: duration where
  "millisecond = 1000000"

definition NewTimesliceManager :: TimesliceManager where
  "NewTimesliceManager = \<lparr>tm_pools = [], tm_allocations = [], tm_schedulerCh = False, tm_running = False,
     tm_stopCh_closed = False\<rparr>"

definition TS_Start :: "TimesliceManager \<Rightarrow> TimesliceManager" where
  "TS_Start m = m\<lparr>tm_running := True\<rparr>"

definition TS_Stop :: "TimesliceManager \<Rightarrow> (gpu_error, unit) outcome \<times> TimesliceManager" where
  "TS_Stop m =
    (if tm_stopCh_closed m then (Panic, m\<lparr>tm_running := False\<rparr>)
     else (Ok (), m\<lparr>tm_running := False, tm_stopCh_closed := True\<rparr>))"

section \<open>Scheduling\<close>

definition schedule_gpu :: "timestamp \<Rightarrow> TimesliceGPU \<Rightarrow> TimesliceGPU" where
  "schedule_gpu now gpu =
    (if tg_Slots gpu = [] then gpu
     else let elapsed = now - tg_LastScheduled gpu;
              slotDuration = go_div (tg_SlotInterval gpu) (int (length (tg_Slots gpu)))
          in if elapsed \<ge> slotDuration
             then gpu\<lparr>tg_CurrentSlotIdx := (tg_CurrentSlotIdx gpu + 1) mod length (tg_Slots gpu),
                      tg_LastScheduled := now\<rparr>
             else gpu)"

definition schedule_pool :: "timestamp \<Rightarrow> TimeslicePoolConfig \<Rightarrow> TimeslicePoolConfig" where
  "schedule_pool now c = c\<lparr>tcf_GPUs := gm_map (schedule_gpu now) (tcf_GPUs c)\<rparr>"

definition scheduleSlots :: "timestamp \<Rightarrow> TimesliceManager \<Rightarrow> TimesliceManager" where
  "scheduleSlots now m = m\<lparr>tm_pools := gm_map (schedule_pool now) (tm_pools m)\<rparr>"

text \<open>The scheduler goroutine, on the sequence of events its \<open>select\<close> receives.\<close>

datatype sched_event = CtxDone | StopCh | Tick timestamp | SchedulerCh timestamp

fun runScheduler :: "sched_event list \<Rightarrow> TimesliceManager \<Rightarrow> TimesliceManager" where
  "runScheduler [] m = m"
| "runScheduler (CtxDone # _) m = m"
| "runScheduler (StopCh # _) m = m"
| "runScheduler (Tick now # es) m = runScheduler es (scheduleSlots now m)"
| "runScheduler (SchedulerCh now # es) m =
     runScheduler es (scheduleSlots now (m\<lparr>tm_schedulerCh := False\<rparr>))"

section \<open>Pools\<close>

definition TS_ConfigurePool :: "TimesliceManager \<Rightarrow> GPUPool \<Rightarrow> (gpu_error, unit) outcome \<times> TimesliceManager" where
  "TS_ConfigurePool m pool =
    (case gps_Sharing (gp_Spec pool) of
       None \<Rightarrow> (Err (NotConfiguredForMode (gp_Name pool)), m)
     | Some sh \<Rightarrow>
         if gss_Mode sh \<noteq> GPUSharingModeTimeslice then (Err (NotConfiguredForMode (gp_Name pool)), m)
         else let slotInterval = wrap64 (gss_TimeSliceInterval sh * millisecond) in
           (Ok (), m\<lparr>tm_pools := gm_set (gp_Name pool)
              \<lparr>tcf_PoolName = gp_Name pool,
               tcf_SlotInterval = (if slotInterval = 0 then 100 * millisecond else slotInterval),
               tcf_MaxSlots = 10, tcf_GPUs = []\<rparr> (tm_pools m)\<rparr>))"

definition TS_CleanupPool :: "ts_gpu_ord \<Rightarrow> TimesliceManager \<Rightarrow> string \<Rightarrow> (gpu_error, unit) outcome \<times> TimesliceManager" where
  "TS_CleanupPool ord m poolName =
    (case gm_get (tm_pools m) poolName of
       None \<Rightarrow> (Ok (), m)
     | Some config \<Rightarrow>
         case find (\<lambda>(k, g). tg_Slots g \<noteq> []) (ord (tcf_GPUs config)) of
           Some (k, g) \<Rightarrow> (Err (PoolInUse poolName k), m)
         | None \<Rightarrow> (Ok (), m\<lparr>tm_pools := gm_del poolName (tm_pools m)\<rparr>))"

section \<open>Rebalancing\<close>

text \<open>The order \<open>sort.Slice\<close> establishes: higher priority first.\<close>

definition sort_slots :: "TimeSlot list \<Rightarrow> TimeSlot list" where
  "sort_slots slots = sort_key (\<lambda>s. - sl_Priority s) slots"

definition totalPriority :: "TimeSlot list \<Rightarrow> int" where
  "totalPriority slots = fold (\<lambda>s acc. wrap32 (acc + wrap32 (sl_Priority s + 1))) slots 0"

definition slot_duration :: "(gofloat \<Rightarrow> int) \<Rightarrow> duration \<Rightarrow> int \<Rightarrow> int \<Rightarrow> duration" where
  "slot_duration impl totalInterval tp priority =
    (let weight = f_div (f_of_int (wrap32 (priority + 1))) (f_of_int tp);
         d = f_to_int64 impl (f_mul (f_of_int totalInterval) weight)
     in if d < 10 * millisecond then 10 * millisecond else d)"

fun assign_slots :: "(gofloat \<Rightarrow> int) \<Rightarrow> duration \<Rightarrow> int \<Rightarrow> duration \<Rightarrow> TimeSlot list \<Rightarrow> TimeSlot list \<times> duration" where
  "assign_slots impl totalInterval tp offset [] = ([], offset)"
| "assign_slots impl totalInterval tp offset (s # ss) =
    (let d = slot_duration impl totalInterval tp (sl_Priority s);
         (ss', off') = assign_slots impl totalInterval tp (wrap64 (offset + d)) ss
     in (s\<lparr>sl_Duration := d, sl_StartOffset := offset\<rparr> # ss', off'))"

definition fill_last :: "duration \<Rightarrow> TimeSlot list \<Rightarrow> TimeSlot list" where
  "fill_last rest slots =
    slots[length slots - 1 := (last slots)\<lparr>sl_Duration := wrap64 (sl_Duration (last slots) + rest)\<rparr>]"

definition rebalanceSlots :: "(gofloat \<Rightarrow> int) \<Rightarrow> TimesliceGPU \<Rightarrow> duration \<Rightarrow> TimesliceGPU" where
  "rebalanceSlots impl gpu totalInterval =
    (if tg_Slots gpu = [] then gpu
     else let slots = sort_slots (tg_Slots gpu);
              (slots', offset) = assign_slots impl totalInterval (totalPriority slots) 0 slots;
              slots'' = (if offset < totalInterval then fill_last (wrap64 (totalInterval - offset)) slots' else slots')
          in gpu\<lparr>tg_Slots := slots'', tg_TotalAllocated := offset\<rparr>)"

section \<open>Releasing\<close>

definition slot_of :: "string \<Rightarrow> string \<Rightarrow> TimeSlot \<Rightarrow> bool" where
  "slot_of serviceName namespace s \<longleftrightarrow> sl_ServiceName s = serviceName \<and> sl_Namespace s = namespace"

definition release_gpu :: "(gofloat \<Rightarrow> int) \<Rightarrow> duration \<Rightarrow> string \<Rightarrow> string \<Rightarrow> TimesliceGPU \<Rightarrow> TimesliceGPU" where
  "release_gpu impl interval serviceName namespace gpu =
    (let newSlots = filter (\<lambda>s. sl_ServiceName s \<noteq> serviceName \<or> sl_Namespace s \<noteq> namespace) (tg_Slots gpu)
     in if length newSlots \<noteq> length (tg_Slots gpu)
        then rebalanceSlots impl (gpu\<lparr>tg_Slots := newSlots\<rparr>) interval
        else gpu)"

definition release_pool :: "(gofloat \<Rightarrow> int) \<Rightarrow> string \<Rightarrow> string \<Rightarrow> TimeslicePoolConfig \<Rightarrow> TimeslicePoolConfig" where
  "release_pool impl serviceName namespace c =
     c\<lparr>tcf_GPUs := gm_map (release_gpu impl (tcf_SlotInterval c) serviceName namespace) (tcf_GPUs c)\<rparr>"

definition service_key :: "string \<Rightarrow> string \<Rightarrow> string" where
  "service_key namespace serviceName = namespace @ ''/'' @ serviceName"

definition releaseSlots :: "(gofloat \<Rightarrow> int) \<Rightarrow> TimesliceManager \<Rightarrow> string \<Rightarrow> string \<Rightarrow> TimesliceManager" where
  "releaseSlots impl m serviceName namespace =
     m\<lparr>tm_pools := gm_map (release_pool impl serviceName namespace) (tm_pools m),
       tm_allocations := gm_del (service_key namespace serviceName) (tm_allocations m)\<rparr>"

definition TS_Release :: "(gofloat \<Rightarrow> int) \<Rightarrow> TimesliceManager \<Rightarrow> string \<Rightarrow> string \<Rightarrow> TimesliceManager" where
  "TS_Release impl m serviceName namespace =
     (releaseSlots impl m serviceName namespace)\<lparr>tm_schedulerCh := True\<rparr>"

section \<open>Allocating\<close>

definition new_timeslice_gpu :: "timestamp \<Rightarrow> TimeslicePoolConfig \<Rightarrow> GPUInfo \<Rightarrow> TimesliceGPU" where
  "new_timeslice_gpu now config g =
     \<lparr>tg_NodeName = gi_NodeName g, tg_DeviceID = gi_DeviceID g, tg_SlotInterval = tcf_SlotInterval config,
      tg_Slots = [], tg_MaxSlots = tcf_MaxSlots config, tg_CurrentSlotIdx = 0, tg_LastScheduled = now,
      tg_TotalAllocated = 0\<rparr>"

definition findOrCreateTimesliceGPU :: "ts_gpu_ord \<Rightarrow> timestamp \<Rightarrow> TimeslicePoolConfig \<Rightarrow> GPUInfo list
    \<Rightarrow> (gpu_error, string \<times> TimesliceGPU \<times> TimeslicePoolConfig) outcome" where
  "findOrCreateTimesliceGPU ord now config gpus =
     (case find (\<lambda>(k, g). int (length (tg_Slots g)) < tg_MaxSlots g) (ord (tcf_GPUs config)) of
        Some (k, g) \<Rightarrow> Ok (k, g, config)
      | None \<Rightarrow>
          case find (\<lambda>g. \<not> gm_has (tcf_GPUs config) (gpu_key (gi_NodeName g) (gi_DeviceID g))) gpus of
            Some g \<Rightarrow>
              let key = gpu_key (gi_NodeName g) (gi_DeviceID g); tsGPU = new_timeslice_gpu now config g
              in Ok (key, tsGPU, config\<lparr>tcf_GPUs := gm_set key tsGPU (tcf_GPUs config)\<rparr>)
          | None \<Rightarrow> Err NoAvailableGPUs)"

definition slot_id :: "AllocationRequest \<Rightarrow> nat \<Rightarrow> string" where
  "slot_id req n = ''slot-'' @ ar_ServiceName req @ ''-'' @ ar_Namespace req @ ''-'' @ itoa (int n)"

definition new_slot :: "AllocationRequest \<Rightarrow> TimeslicePoolConfig \<Rightarrow> TimesliceGPU \<Rightarrow> TimeSlot" where
  "new_slot req config gpu =
     \<lparr>sl_SlotID = slot_id req (length (tg_Slots gpu)), sl_ServiceName = ar_ServiceName req,
      sl_Namespace = ar_Namespace req, sl_StartOffset = 0,
      sl_Duration = go_div (tcf_SlotInterval config) (int (length (tg_Slots gpu)) + 1),
      sl_Priority = 0, sl_Active = True\<rparr>"

text \<open>
  After the stable sort the new slot, appended with priority 0, comes right behind the
  slots of priority at least 0: the pointer the code still holds leads to this position.
\<close>

definition new_slot_pos :: "TimeSlot list \<Rightarrow> nat" where
  "new_slot_pos slots = length (filter (\<lambda>s. 0 \<le> sl_Priority s) slots)"

definition add_slot :: "(gofloat \<Rightarrow> int) \<Rightarrow> AllocationRequest \<Rightarrow> TimeslicePoolConfig \<Rightarrow> TimesliceGPU \<Rightarrow> TimesliceGPU" where
  "add_slot impl req config gpu =
     rebalanceSlots impl (gpu\<lparr>tg_Slots := tg_Slots gpu @ [new_slot req config gpu]\<rparr>) (tcf_SlotInterval config)"

definition place_slot :: "(gofloat \<Rightarrow> int) \<Rightarrow> AllocationRequest \<Rightarrow> TimeslicePoolConfig \<Rightarrow> TimesliceGPU \<Rightarrow> TimesliceGPU \<times> nat" where
  "place_slot impl req config gpu = (add_slot impl req config gpu, new_slot_pos (tg_Slots gpu))"

definition new_allocation :: "timestamp \<Rightarrow> AllocationRequest \<Rightarrow> TimeslicePoolConfig \<Rightarrow> TimesliceGPU \<Rightarrow> TimeSlot
    \<Rightarrow> TimesliceAllocation" where
  "new_allocation now req config gpu slot =
     \<lparr>ta_ServiceName = ar_ServiceName req, ta_Namespace = ar_Namespace req, ta_NodeName = tg_NodeName gpu,
      ta_DeviceID = tg_DeviceID gpu, ta_SlotID = sl_SlotID slot, ta_SlotDuration = sl_Duration slot,
      ta_SlotFraction = f_div (f_of_int (sl_Duration slot)) (f_of_int (tcf_SlotInterval config)),
      ta_AllocatedAt = now\<rparr>"

definition append_allocation :: "string \<Rightarrow> TimesliceAllocation \<Rightarrow> (string, TimesliceAllocation list) gomap
    \<Rightarrow> (string, TimesliceAllocation list) gomap" where
  "append_allocation key a m = gm_set key ((case gm_get m key of None \<Rightarrow> [] | Some as \<Rightarrow> as) @ [a]) m"

fun TS_Allocate_loop :: "ts_env \<Rightarrow> AllocationRequest \<Rightarrow> string \<Rightarrow> GPUInfo list \<Rightarrow> nat \<Rightarrow> nat
    \<Rightarrow> TimeslicePoolConfig \<Rightarrow> TimesliceManager \<Rightarrow> GPUAllocationInfo list
    \<Rightarrow> (gpu_error, GPUAllocationInfo list) outcome \<times> TimesliceManager" where
  "TS_Allocate_loop e req pn gpus i 0 config m infos = (Ok infos, m\<lparr>tm_schedulerCh := True\<rparr>)"
| "TS_Allocate_loop e req pn gpus i (Suc n) config m infos =
     (case findOrCreateTimesliceGPU (te_ord e i) (te_now e i) config gpus of
        Ok (k, gpu, config') \<Rightarrow>
          (case place_slot (te_impl e) req config' gpu of (gpu', pos) \<Rightarrow>
             TS_Allocate_loop e req pn gpus (Suc i) n (config'\<lparr>tcf_GPUs := gm_set k gpu' (tcf_GPUs config')\<rparr>)
               (m\<lparr>tm_pools := gm_set pn (config'\<lparr>tcf_GPUs := gm_set k gpu' (tcf_GPUs config')\<rparr>) (tm_pools m),
                  tm_allocations := append_allocation (service_key (ar_Namespace req) (ar_ServiceName req))
                     (new_allocation (te_at e i) req config' gpu' (tg_Slots gpu' ! pos)) (tm_allocations m)\<rparr>)
               (infos @ [\<lparr>ai_NodeName = tg_NodeName gpu, ai_DeviceID = tg_DeviceID gpu,
                          ai_MIGInstance = '''', ai_Memory = ar_Memory req\<rparr>]))
      | Err err \<Rightarrow> (Err err, releaseSlots (te_impl e) m (ar_ServiceName req) (ar_Namespace req))
      | Panic \<Rightarrow> (Panic, m)
      | Blocked \<Rightarrow> (Blocked, m))"

definition TS_Allocate :: "ts_env \<Rightarrow> TimesliceManager \<Rightarrow> AllocationRequest \<Rightarrow> PoolInfo \<Rightarrow> GPUInfo list
    \<Rightarrow> (gpu_error, GPUAllocationInfo list) outcome \<times> TimesliceManager" where
  "TS_Allocate e m req pool gpus =
    (case gm_get (tm_pools m) (pi_Name pool) of
       None \<Rightarrow> (Err (PoolNotFound (pi_Name pool)), m)
     | Some config \<Rightarrow>
         if ar_GPUCount req < 0 then (Panic, m)
         else TS_Allocate_loop e req (pi_Name pool) gpus 0 (nat (ar_GPUCount req)) config m [])"

section \<open>Operations on one slot\<close>

text \<open>The nested \<open>range\<close> loops that look for a slot by its identifier: the first site that matches.\<close>

definition slot_sites :: "ts_pool_ord \<Rightarrow> ts_gpu_ord \<Rightarrow> TimesliceManager
    \<Rightarrow> (string \<times> TimeslicePoolConfig \<times> string \<times> TimesliceGPU \<times> nat) list" where
  "slot_sites pord gord m =
     concat (map (\<lambda>(pn, c). concat (map (\<lambda>(k, g). map (\<lambda>i. (pn, c, k, g, i)) [0..<length (tg_Slots g)])
        (gord (tcf_GPUs c)))) (pord (tm_pools m)))"

definition find_slot :: "ts_pool_ord \<Rightarrow> ts_gpu_ord \<Rightarrow> TimesliceManager \<Rightarrow> string
    \<Rightarrow> (string \<times> TimeslicePoolConfig \<times> string \<times> TimesliceGPU \<times> nat) option" where
  "find_slot pord gord m slotID =
     find (\<lambda>(pn, c, k, g, i). sl_SlotID (tg_Slots g ! i) = slotID) (slot_sites pord gord m)"

definition put_gpu :: "string \<Rightarrow> TimeslicePoolConfig \<Rightarrow> string \<Rightarrow> TimesliceGPU \<Rightarrow> TimesliceManager \<Rightarrow> TimesliceManager" where
  "put_gpu pn c k g m = m\<lparr>tm_pools := gm_set pn (c\<lparr>tcf_GPUs := gm_set k g (tcf_GPUs c)\<rparr>) (tm_pools m)\<rparr>"

definition GetSlotInfo :: "ts_pool_ord \<Rightarrow> ts_gpu_ord \<Rightarrow> TimesliceManager \<Rightarrow> string \<Rightarrow> (gpu_error, TimeSlot) outcome" where
  "GetSlotInfo pord gord m slotID =
    (case find_slot pord gord m slotID of
       None \<Rightarrow> Err (SlotNotFound slotID) | Some (pn, c, k, g, i) \<Rightarrow> Ok (tg_Slots g ! i))"

definition SetSlotPriority :: "(gofloat \<Rightarrow> int) \<Rightarrow> ts_pool_ord \<Rightarrow> ts_gpu_ord \<Rightarrow> TimesliceManager \<Rightarrow> string \<Rightarrow> int
    \<Rightarrow> (gpu_error, unit) outcome \<times> TimesliceManager" where
  "SetSlotPriority impl pord gord m slotID priority =
    (case find_slot pord gord m slotID of
       None \<Rightarrow> (Err (SlotNotFound slotID), m)
     | Some (pn, c, k, g, i) \<Rightarrow>
         (Ok (), put_gpu pn c k (rebalanceSlots impl
            (g\<lparr>tg_Slots := (tg_Slots g)[i := (tg_Slots g ! i)\<lparr>sl_Priority := priority\<rparr>]\<rparr>) (tcf_SlotInterval c)) m))"

definition set_active :: "bool \<Rightarrow> nat \<Rightarrow> TimesliceGPU \<Rightarrow> TimesliceGPU" where
  "set_active b i g = g\<lparr>tg_Slots := (tg_Slots g)[i := (tg_Slots g ! i)\<lparr>sl_Active := b\<rparr>]\<rparr>"

definition PauseSlot :: "ts_pool_ord \<Rightarrow> ts_gpu_ord \<Rightarrow> TimesliceManager \<Rightarrow> string
    \<Rightarrow> (gpu_error, unit) outcome \<times> TimesliceManager" where
  "PauseSlot pord gord m slotID =
    (case find_slot pord gord m slotID of
       None \<Rightarrow> (Err (SlotNotFound slotID), m)
     | Some (pn, c, k, g, i) \<Rightarrow> (Ok (), put_gpu pn c k (set_active False i g) m))"

definition ResumeSlot :: "ts_pool_ord \<Rightarrow> ts_gpu_ord \<Rightarrow> TimesliceManager \<Rightarrow> string
    \<Rightarrow> (gpu_error, unit) outcome \<times> TimesliceManager" where
  "ResumeSlot pord gord m slotID =
    (case find_slot pord gord m slotID of
       None \<Rightarrow> (Err (SlotNotFound slotID), m)
     | Some (pn, c, k, g, i) \<Rightarrow> (Ok (), put_gpu pn c k (set_active True i g) m))"

record ts_slot_stats =
  tss_slotId :: string
  tss_serviceName :: string
  tss_namespace :: string
  tss_duration :: duration
  tss_priority :: int
  tss_active :: bool

record ts_gpu_stats =
  tgs_nodeName :: string
  tgs_deviceId :: string
  tgs_slotInterval :: duration
  tgs_slotCount :: int
  tgs_maxSlots :: int
  tgs_currentSlot :: int
  tgs_lastScheduled :: timestamp
  tgs_totalAllocated :: duration
  tgs_utilization :: gofloat
  tgs_slots :: "ts_slot_stats list"

definition slot_stats :: "TimeSlot \<Rightarrow> ts_slot_stats" where
  "slot_stats s = \<lparr>tss_slotId = sl_SlotID s, tss_serviceName = sl_ServiceName s, tss_namespace = sl_Namespace s,
     tss_duration = sl_Duration s, tss_priority = sl_Priority s, tss_active = sl_Active s\<rparr>"

definition GetGPUStats :: "ts_pool_ord \<Rightarrow> TimesliceManager \<Rightarrow> string \<Rightarrow> string \<Rightarrow> (gpu_error, ts_gpu_stats) outcome" where
  "GetGPUStats pord m nodeName deviceID =
    (let key = gpu_key nodeName deviceID in
     case find (\<lambda>(pn, c). gm_has (tcf_GPUs c) key) (pord (tm_pools m)) of
       None \<Rightarrow> Err (GPUNotFound key)
     | Some (pn, c) \<Rightarrow>
         (case gm_get (tcf_GPUs c) key of
            None \<Rightarrow> Err (GPUNotFound key)
          | Some gpu \<Rightarrow> Ok \<lparr>tgs_nodeName = tg_NodeName gpu, tgs_deviceId = tg_DeviceID gpu,
              tgs_slotInterval = tg_SlotInterval gpu, tgs_slotCount = int (length (tg_Slots gpu)),
              tgs_maxSlots = tg_MaxSlots gpu, tgs_currentSlot = int (tg_CurrentSlotIdx gpu),
              tgs_lastScheduled = tg_LastScheduled gpu, tgs_totalAllocated = tg_TotalAllocated gpu,
              tgs_utilization = f_mul (f_div (f_of_int (tg_TotalAllocated gpu)) (f_of_int (tg_SlotInterval gpu))) (Fin 100),
              tgs_slots = map slot_stats (tg_Slots gpu)\<rparr>))"

definition GetAllocations :: "TimesliceManager \<Rightarrow> string \<Rightarrow> string \<Rightarrow> (gpu_error, TimesliceAllocation list) outcome" where
  "GetAllocations m serviceName namespace =
    (let key = service_key namespace serviceName in
     case gm_get (tm_allocations m) key of None \<Rightarrow> Err (NoAllocations key) | Some as \<Rightarrow> Ok as)"

section \<open>What rebalancing keeps\<close>

text \<open>All of a slot but its place in the interval.\<close>

definition slot_core :: "TimeSlot \<Rightarrow> string \<times> string \<times> string \<times> int \<times> bool" where
  "slot_core s = (sl_SlotID s, sl_ServiceName s, sl_Namespace s, sl_Priority s, sl_Active s)"

lemma slot_core_eqD:
  assumes "slot_core s = slot_core t"
  shows "sl_SlotID s = sl_SlotID t" "sl_Priority s = sl_Priority t" "slot_of svc ns s = slot_of svc ns t"
  using assms by (auto simp: slot_core_def slot_of_def)

lemma assign_slots_core: "map slot_core (fst (assign_slots impl T tp off ss)) = map slot_core ss"
proof (induction ss arbitrary: off)
  case (Cons s ss)
  from Cons.IH [of "wrap64 (off + slot_duration impl T tp (sl_Priority s))"] show ?case
    by (cases "assign_slots impl T tp (wrap64 (off + slot_duration impl T tp (sl_Priority s))) ss")
      (simp add: Let_def slot_core_def)
qed simp

lemma assign_slots_length [simp]: "length (fst (assign_slots impl T tp off ss)) = length ss"
  using arg_cong [OF assign_slots_core, of length impl T tp off ss] by simp

lemma fill_last_core: "ss \<noteq> [] \<Longrightarrow> map slot_core (fill_last r ss) = map slot_core ss"
  by (auto simp: fill_last_def map_update slot_core_def last_conv_nth intro!: list_update_same_conv [THEN iffD2])

lemma rebalanceSlots_core:
  "map slot_core (tg_Slots (rebalanceSlots impl g T)) = map slot_core (sort_slots (tg_Slots g))"
proof (cases "tg_Slots g = []")
  case False
  let ?ss = "sort_slots (tg_Slots g)"
  obtain ss' off where a: "assign_slots impl T (totalPriority ?ss) 0 ?ss = (ss', off)" by fastforce
  have c: "map slot_core ss' = map slot_core ?ss" using assign_slots_core [of impl T "totalPriority ?ss" 0 ?ss] a by simp
  moreover have "ss' \<noteq> []"
    using False arg_cong [OF c, of length] by (auto simp: sort_slots_def)
  ultimately show ?thesis using False a by (simp add: rebalanceSlots_def Let_def fill_last_core)
qed (simp add: rebalanceSlots_def sort_slots_def)

lemma rebalanceSlots_fields [simp]:
  "tg_NodeName (rebalanceSlots impl g T) = tg_NodeName g" "tg_DeviceID (rebalanceSlots impl g T) = tg_DeviceID g"
  "tg_SlotInterval (rebalanceSlots impl g T) = tg_SlotInterval g" "tg_MaxSlots (rebalanceSlots impl g T) = tg_MaxSlots g"
  "tg_CurrentSlotIdx (rebalanceSlots impl g T) = tg_CurrentSlotIdx g"
  "tg_LastScheduled (rebalanceSlots impl g T) = tg_LastScheduled g"
  by (simp_all add: rebalanceSlots_def Let_def split_beta)

lemma rebalanceSlots_length [simp]: "length (tg_Slots (rebalanceSlots impl g T)) = length (tg_Slots g)"
  using arg_cong [OF rebalanceSlots_core, of length impl g T] by (simp add: sort_slots_def)

lemma mset_map_filter_length:
  assumes "mset (map f xs) = mset (map f ys)" and "\<And>x y. f x = f y \<Longrightarrow> P x = P y"
  shows "length (filter P xs) = length (filter P ys)"
proof -
  have "(\<exists>x. f x = f z \<and> P x) \<longleftrightarrow> P z" for z using assms(2) by metis
  then have *: "length (filter P zs) = length (filter (\<lambda>c. \<exists>x. f x = c \<and> P x) (map f zs))" for zs
    by (induction zs) simp_all
  have "mset (filter Q (map f xs)) = mset (filter Q (map f ys))" for Q
    using assms(1) by (simp only: mset_filter)
  then have "length (filter Q (map f xs)) = length (filter Q (map f ys))" for Q
    by (metis size_mset)
  then show ?thesis by (simp only: *)
qed

definition slots_of :: "string \<Rightarrow> string \<Rightarrow> TimesliceGPU \<Rightarrow> nat" where
  "slots_of svc ns g = length (filter (slot_of svc ns) (tg_Slots g))"

lemma rebalanceSlots_slots_of [simp]: "slots_of svc ns (rebalanceSlots impl g T) = slots_of svc ns g"
proof -
  have "mset (map slot_core (tg_Slots (rebalanceSlots impl g T))) = mset (map slot_core (tg_Slots g))"
    unfolding rebalanceSlots_core by (simp add: sort_slots_def)
  then show ?thesis unfolding slots_of_def by (rule mset_map_filter_length) (rule slot_core_eqD)
qed

lemma release_gpu_fields [simp]:
  "tg_NodeName (release_gpu impl T svc ns g) = tg_NodeName g" "tg_DeviceID (release_gpu impl T svc ns g) = tg_DeviceID g"
  "tg_SlotInterval (release_gpu impl T svc ns g) = tg_SlotInterval g" "tg_MaxSlots (release_gpu impl T svc ns g) = tg_MaxSlots g"
  by (auto simp: release_gpu_def Let_def)

lemma release_gpu_length: "length (tg_Slots (release_gpu impl T svc ns g)) \<le> length (tg_Slots g)"
  by (auto simp: release_gpu_def Let_def)

lemma release_gpu_slots_of:
  "slots_of s n (release_gpu impl T svc ns g) = (if s = svc \<and> n = ns then 0 else slots_of s n g)"
proof -
  let ?new = "filter (\<lambda>s. sl_ServiceName s \<noteq> svc \<or> sl_Namespace s \<noteq> ns) (tg_Slots g)"
  have "filter (slot_of s n) ?new = (if s = svc \<and> n = ns then [] else filter (slot_of s n) (tg_Slots g))"
    by (auto simp: slot_of_def filter_empty_conv intro!: filter_cong)
  then have new: "slots_of s n (g\<lparr>tg_Slots := ?new\<rparr>) = (if s = svc \<and> n = ns then 0 else slots_of s n g)"
    by (simp add: slots_of_def)
  have "length ?new = length (tg_Slots g) \<Longrightarrow> ?new = tg_Slots g"
    by (metis filter_True length_filter_less less_irrefl)
  then have same: "length ?new = length (tg_Slots g) \<Longrightarrow> slots_of s n (g\<lparr>tg_Slots := ?new\<rparr>) = slots_of s n g"
    by (simp add: slots_of_def)
  show ?thesis
  proof (cases "length ?new = length (tg_Slots g)")
    case True
    then have "release_gpu impl T svc ns g = g" by (simp only: release_gpu_def Let_def simp_thms if_False)
    then show ?thesis using same [OF True] new by (simp only:)
  next
    case False
    then have "release_gpu impl T svc ns g = rebalanceSlots impl (g\<lparr>tg_Slots := ?new\<rparr>) T"
      by (simp only: release_gpu_def Let_def not_False_eq_True if_True)
    then show ?thesis using new by (simp only: rebalanceSlots_slots_of)
  qed
qed

section \<open>Well-formedness\<close>

definition ts_gpu_ok :: "TimeslicePoolConfig \<Rightarrow> string \<Rightarrow> TimesliceGPU \<Rightarrow> bool" where
  "ts_gpu_ok c k g \<longleftrightarrow> k = gpu_key (tg_NodeName g) (tg_DeviceID g) \<and> length (tg_Slots g) \<le> 10 \<and>
     tg_MaxSlots g = 10 \<and> tg_SlotInterval g = tcf_SlotInterval c"

definition ts_pool_ok :: "TimeslicePoolConfig \<Rightarrow> bool" where
  "ts_pool_ok c \<longleftrightarrow> tcf_MaxSlots c = 10 \<and> tcf_SlotInterval c \<noteq> 0 \<and> gm_ok (tcf_GPUs c) \<and>
     (\<forall>(k, g) \<in> set (tcf_GPUs c). ts_gpu_ok c k g)"

definition ts_ok :: "TimesliceManager \<Rightarrow> bool" where
  "ts_ok m \<longleftrightarrow> gm_ok (tm_pools m) \<and> gm_ok (tm_allocations m) \<and> (\<forall>(n, c) \<in> set (tm_pools m). ts_pool_ok c)"

lemma ts_ok_pool: "ts_ok m \<Longrightarrow> gm_get (tm_pools m) n = Some c \<Longrightarrow> ts_pool_ok c"
  by (auto simp: ts_ok_def dest: gm_get_mem)

lemma ts_pool_ok_gpu: "ts_pool_ok c \<Longrightarrow> (k, g) \<in> set (tcf_GPUs c) \<Longrightarrow> ts_gpu_ok c k g"
  by (auto simp: ts_pool_ok_def)

lemma ts_gpu_ok_cong [simp]: "ts_gpu_ok (c\<lparr>tcf_GPUs := gs\<rparr>) k g = ts_gpu_ok c k g"
  by (simp add: ts_gpu_ok_def)

lemma ts_pool_ok_set:
  assumes "ts_pool_ok c" and "ts_gpu_ok c k g"
  shows "ts_pool_ok (c\<lparr>tcf_GPUs := gm_set k g (tcf_GPUs c)\<rparr>)"
  using assms set_gm_set_subset [of k g "tcf_GPUs c"] by (auto simp: ts_pool_ok_def gm_ok_update)

lemma ts_pool_ok_map:
  assumes "ts_pool_ok c" and "\<And>k g. ts_gpu_ok c k g \<Longrightarrow> ts_gpu_ok c k (f g)"
  shows "ts_pool_ok (c\<lparr>tcf_GPUs := gm_map f (tcf_GPUs c)\<rparr>)"
proof -
  have "(k, g') \<in> set (gm_map f (tcf_GPUs c)) \<Longrightarrow> ts_gpu_ok c k g'" for k g'
    using assms ts_pool_ok_gpu [OF assms(1)] by (auto simp: gm_map_def)
  then show ?thesis using assms(1) by (auto simp: ts_pool_ok_def)
qed

lemma ts_ok_set:
  assumes "ts_ok m" and "ts_pool_ok c"
  shows "ts_ok (m\<lparr>tm_pools := gm_set n c (tm_pools m)\<rparr>)"
  using assms set_gm_set_subset [of n c "tm_pools m"] by (auto simp: ts_ok_def gm_ok_update)

lemma ts_ok_map:
  assumes "ts_ok m" and "\<And>c. ts_pool_ok c \<Longrightarrow> ts_pool_ok (f c)"
  shows "ts_ok (m\<lparr>tm_pools := gm_map f (tm_pools m)\<rparr>)"
proof -
  have "(n, c') \<in> set (gm_map f (tm_pools m)) \<Longrightarrow> ts_pool_ok c'" for n c'
    using assms by (auto simp: gm_map_def ts_ok_def)
  then show ?thesis using assms(1) by (auto simp: ts_ok_def)
qed

lemma ts_ok_irrelevant [simp]:
  "ts_ok (m\<lparr>tm_schedulerCh := b\<rparr>) = ts_ok m" "ts_ok (m\<lparr>tm_running := b\<rparr>) = ts_ok m"
  "ts_ok (m\<lparr>tm_stopCh_closed := b\<rparr>) = ts_ok m"
  by (simp_all add: ts_ok_def)

lemma releaseSlots_ok: "ts_ok m \<Longrightarrow> ts_ok (releaseSlots impl m svc ns)"
proof -
  assume ok: "ts_ok m"
  have "ts_pool_ok c \<Longrightarrow> ts_pool_ok (release_pool impl svc ns c)" for c
    unfolding release_pool_def
  proof (erule ts_pool_ok_map)
    fix k g assume "ts_gpu_ok c k g"
    then show "ts_gpu_ok c k (release_gpu impl (tcf_SlotInterval c) svc ns g)"
      using release_gpu_length [of impl "tcf_SlotInterval c" svc ns g] by (simp add: ts_gpu_ok_def)
  qed
  from ts_ok_map [OF ok this] show ?thesis by (auto simp: releaseSlots_def ts_ok_def gm_ok_delete)
qed

lemma findOrCreateTimesliceGPU_cases:
  "findOrCreateTimesliceGPU ord now c gpus = Err NoAvailableGPUs \<or>
   (\<exists>k g c'. findOrCreateTimesliceGPU ord now c gpus = Ok (k, g, c'))"
  by (auto simp: findOrCreateTimesliceGPU_def Let_def split: option.splits)

lemma findOrCreateTimesliceGPU_ok:
  assumes "ts_pool_ok c" and "range_ok ord" and "findOrCreateTimesliceGPU ord now c gpus = Ok (k, g, c')"
  shows "ts_pool_ok c' \<and> ts_gpu_ok c' k g \<and> length (tg_Slots g) < 10 \<and> gm_get (tcf_GPUs c') k = Some g \<and>
    tcf_SlotInterval c' = tcf_SlotInterval c"
proof (cases "find (\<lambda>(k, g). int (length (tg_Slots g)) < tg_MaxSlots g) (ord (tcf_GPUs c))")
  case (Some kg)
  then have e: "kg = (k, g)" "c' = c" using assms(3) by (auto simp: findOrCreateTimesliceGPU_def split: prod.splits)
  from find_Some_in [OF Some] have kg: "(k, g) \<in> set (tcf_GPUs c)" "int (length (tg_Slots g)) < tg_MaxSlots g"
    using range_ok_set [OF assms(2)] e by auto
  then show ?thesis using assms(1) e ts_pool_ok_gpu [OF assms(1) kg(1)]
    by (auto simp: ts_pool_ok_def ts_gpu_ok_def)
next
  case None
  let ?P = "\<lambda>g. \<not> gm_has (tcf_GPUs c) (gpu_key (gi_NodeName g) (gi_DeviceID g))"
  obtain pg where "find ?P gpus = Some pg"
    and r: "k = gpu_key (gi_NodeName pg) (gi_DeviceID pg)" "g = new_timeslice_gpu now c pg"
      "c' = c\<lparr>tcf_GPUs := gm_set k g (tcf_GPUs c)\<rparr>"
    using assms(3) None by (auto simp: findOrCreateTimesliceGPU_def Let_def split: option.splits)
  have g: "ts_gpu_ok c k g" using r assms(1) by (simp add: ts_gpu_ok_def ts_pool_ok_def new_timeslice_gpu_def)
  have "length (tg_Slots g) < 10" using r(2) by (simp add: new_timeslice_gpu_def)
  with g ts_pool_ok_set [OF assms(1) g] show ?thesis unfolding r(3) by (simp add: gm_get_set)
qed

lemma add_slot_length [simp]: "length (tg_Slots (add_slot impl req c g)) = Suc (length (tg_Slots g))"
  by (simp add: add_slot_def)

lemma add_slot_ok: "ts_gpu_ok c k g \<Longrightarrow> length (tg_Slots g) < 10 \<Longrightarrow> ts_gpu_ok c k (add_slot impl req c g)"
  by (simp add: ts_gpu_ok_def add_slot_def)

lemma grant_slot_ok:
  assumes "ts_ok m" "ts_pool_ok c" "ts_gpu_ok c k g" "length (tg_Slots g) < 10"
  shows "ts_pool_ok (c\<lparr>tcf_GPUs := gm_set k (add_slot impl req c g) (tcf_GPUs c)\<rparr>)"
    and "ts_ok (m\<lparr>tm_pools := gm_set pn (c\<lparr>tcf_GPUs := gm_set k (add_slot impl req c g) (tcf_GPUs c)\<rparr>) (tm_pools m),
           tm_allocations := append_allocation sk a (tm_allocations m)\<rparr>)"
proof -
  show c: "ts_pool_ok (c\<lparr>tcf_GPUs := gm_set k (add_slot impl req c g) (tcf_GPUs c)\<rparr>)"
    using assms(2-4) by (intro ts_pool_ok_set add_slot_ok)
  from ts_ok_set [OF assms(1) c, of pn]
  show "ts_ok (m\<lparr>tm_pools := gm_set pn (c\<lparr>tcf_GPUs := gm_set k (add_slot impl req c g) (tcf_GPUs c)\<rparr>) (tm_pools m),
           tm_allocations := append_allocation sk a (tm_allocations m)\<rparr>)"
    by (simp add: ts_ok_def append_allocation_def gm_ok_update)
qed

lemma TS_Allocate_loop_ok:
  assumes "ts_env_ok e" and "ts_ok m" and "ts_pool_ok c"
  shows "ts_ok (snd (TS_Allocate_loop e req pn gpus i n c m infos))"
  using assms(2,3)
proof (induction n arbitrary: i c m infos)
  case (Suc n)
  show ?case
  proof (cases "findOrCreateTimesliceGPU (te_ord e i) (te_now e i) c gpus = Err NoAvailableGPUs")
    case True
    then show ?thesis using Suc.prems by (simp add: releaseSlots_ok)
  next
    case False
    then obtain k g c' where f: "findOrCreateTimesliceGPU (te_ord e i) (te_now e i) c gpus = Ok (k, g, c')"
      using findOrCreateTimesliceGPU_cases [of "te_ord e i" "te_now e i" c gpus] by blast
    have "range_ok (te_ord e i)" using assms(1) by (simp add: ts_env_ok_def)
    from findOrCreateTimesliceGPU_ok [OF Suc.prems(2) this f]
    have "ts_pool_ok c'" "ts_gpu_ok c' k g" "length (tg_Slots g) < 10" by auto
    from grant_slot_ok [OF Suc.prems(1) this] f show ?thesis by (simp add: place_slot_def Suc.IH)
  qed
qed simp

lemma TS_Allocate_ok [inv_intros]:
  assumes "ts_ok m" and "ts_env_ok e"
  shows "ts_ok (snd (TS_Allocate e m req pool gpus))"
  using assms TS_Allocate_loop_ok [OF assms(2,1)] ts_ok_pool [OF assms(1)]
  by (auto simp: TS_Allocate_def split: option.splits)

lemma TS_Release_ok [inv_intros]: "ts_ok m \<Longrightarrow> ts_ok (TS_Release impl m svc ns)"
  by (simp add: TS_Release_def releaseSlots_ok)

section \<open>What a service holds\<close>

definition pool_slots_of :: "string \<Rightarrow> string \<Rightarrow> TimeslicePoolConfig \<Rightarrow> nat" where
  "pool_slots_of svc ns c = sum_list (map (\<lambda>(k, g). slots_of svc ns g) (tcf_GPUs c))"

definition ts_holds :: "TimesliceManager \<Rightarrow> string \<Rightarrow> string \<Rightarrow> nat" where
  "ts_holds m svc ns = sum_list (map (\<lambda>(n, c). pool_slots_of svc ns c) (tm_pools m))"

lemma releaseSlots_holds:
  "ts_holds (releaseSlots impl m svc ns) s n = (if s = svc \<and> n = ns then 0 else ts_holds m s n)"
proof -
  have p: "pool_slots_of s n (release_pool impl svc ns c) = (if s = svc \<and> n = ns then 0 else pool_slots_of s n c)" for c
    by (cases "s = svc \<and> n = ns") (auto simp: pool_slots_of_def release_pool_def sum_list_gm_map release_gpu_slots_of split_beta)
  have "ts_holds (releaseSlots impl m svc ns) s n =
      sum_list (map (\<lambda>(k, c). if s = svc \<and> n = ns then 0 else pool_slots_of s n c) (tm_pools m))"
    by (simp add: ts_holds_def releaseSlots_def sum_list_gm_map p)
  then show ?thesis by (simp only: ts_holds_def) (cases "s = svc \<and> n = ns", auto simp: split_beta)
qed

lemma add_slot_slots_of:
  "slots_of svc ns (add_slot impl req c g) =
    slots_of svc ns g + (if ar_ServiceName req = svc \<and> ar_Namespace req = ns then 1 else 0)"
  by (simp add: add_slot_def) (simp add: slots_of_def new_slot_def slot_of_def)

lemma findOrCreateTimesliceGPU_slots_of:
  assumes "findOrCreateTimesliceGPU ord now c gpus = Ok (k, g, c')"
  shows "pool_slots_of svc ns c' \<le> pool_slots_of svc ns c"
proof -
  have "slots_of svc ns (new_timeslice_gpu now c pg) = 0" for pg
    by (simp add: slots_of_def new_timeslice_gpu_def)
  then show ?thesis using assms
    by (auto simp: findOrCreateTimesliceGPU_def Let_def pool_slots_of_def split: option.splits intro!: sum_list_gm_set_le)
qed

lemma TS_Allocate_loop_other:
  assumes "ts_env_ok e" and "ts_ok m" and "gm_get (tm_pools m) pn = Some c"
    and ne: "\<not> (ar_ServiceName req = svc \<and> ar_Namespace req = ns)"
  shows "ts_holds (snd (TS_Allocate_loop e req pn gpus i n c m infos)) svc ns \<le> ts_holds m svc ns"
  using assms(2,3)
proof (induction n arbitrary: i c m infos)
  case (Suc n)
  show ?case
  proof (cases "findOrCreateTimesliceGPU (te_ord e i) (te_now e i) c gpus = Err NoAvailableGPUs")
    case True
    then show ?thesis using ne by (auto simp: releaseSlots_holds)
  next
    case False
    then obtain k g c' where f: "findOrCreateTimesliceGPU (te_ord e i) (te_now e i) c gpus = Ok (k, g, c')"
      using findOrCreateTimesliceGPU_cases [of "te_ord e i" "te_now e i" c gpus] by blast
    have "range_ok (te_ord e i)" using assms(1) by (simp add: ts_env_ok_def)
    from findOrCreateTimesliceGPU_ok [OF ts_ok_pool [OF Suc.prems] this f]
    have c': "ts_pool_ok c'" "ts_gpu_ok c' k g" "length (tg_Slots g) < 10" and kg: "gm_get (tcf_GPUs c') k = Some g" by auto
    let ?g = "add_slot (te_impl e) req c' g"
    let ?c = "c'\<lparr>tcf_GPUs := gm_set k ?g (tcf_GPUs c')\<rparr>"
    let ?m = "\<lambda>a. m\<lparr>tm_pools := gm_set pn ?c (tm_pools m),
      tm_allocations := append_allocation (service_key (ar_Namespace req) (ar_ServiceName req)) a (tm_allocations m)\<rparr>"
    have "slots_of svc ns ?g = slots_of svc ns g" using ne by (simp only: add_slot_slots_of if_False add_0_right)
    then have "pool_slots_of svc ns ?c \<le> pool_slots_of svc ns c'"
      using kg by (simp add: pool_slots_of_def sum_list_gm_set_mono)
    with findOrCreateTimesliceGPU_slots_of [OF f] have "pool_slots_of svc ns ?c \<le> pool_slots_of svc ns c"
      by (rule le_trans [rotated])
    then have "ts_holds (?m a) svc ns \<le> ts_holds m svc ns" for a
      using Suc.prems(2) by (simp add: ts_holds_def sum_list_gm_set_mono)
    moreover have "ts_holds (snd (TS_Allocate_loop e req pn gpus (Suc i) n ?c (?m a) infos')) svc ns \<le> ts_holds (?m a) svc ns"
      for infos' a using grant_slot_ok [OF Suc.prems(1) c'] by (intro Suc.IH) (simp_all add: gm_get_set)
    ultimately show ?thesis using f by (simp add: place_slot_def) (meson le_trans)
  qed
qed (simp add: ts_holds_def)

lemma TS_Allocate_loop_count:
  "TS_Allocate_loop e req pn gpus i n c m infos = (Ok infos', m') \<Longrightarrow> length infos' = length infos + n"
proof (induction n arbitrary: i c m infos)
  case (Suc n)
  then show ?case by (auto simp: place_slot_def split: outcome.splits)
qed simp

section \<open>The time-slice manager keeps the contract of a sharing manager\<close>

interpretation ts: sharing_manager TS_Allocate "TS_Release impl" "\<lambda>m n. gm_has (tm_pools m) n" ts_holds
  "\<lambda>m svc ns. True" ts_ok ts_env_ok
  for impl
proof (unfold_locales, goal_cases)
  case (1 s e req pool gpus)
  then show ?case by (rule TS_Allocate_ok)
next
  case (2 s svc ns)
  then show ?case by (rule TS_Release_ok)
next
  case (3 s e req pool gpus infos s')
  then show ?case by (auto simp: TS_Allocate_def dest: TS_Allocate_loop_count split: option.splits if_splits)
next
  case (4 s pool e req gpus)
  then show ?case by (simp add: TS_Allocate_def gm_has_def)
next
  case (5 s e req svc ns pool gpus)
  show ?case
  proof (cases "gm_get (tm_pools s) (pi_Name pool)")
    case (Some c)
    with TS_Allocate_loop_other [OF 5(2,1) Some 5(3)] show ?thesis by (simp add: TS_Allocate_def)
  qed (simp add: TS_Allocate_def)
next
  case (6 s svc ns)
  then show ?case using releaseSlots_holds [of impl s svc ns svc ns] by (simp add: TS_Release_def ts_holds_def)
next
  case (7 s svc ns svc' ns')
  then show ?case using releaseSlots_holds [of impl s svc ns svc' ns'] by (auto simp: TS_Release_def ts_holds_def)
next
  case (8 s svc' svc ns' ns)
  then show ?case using releaseSlots_holds [of impl s svc ns svc' ns'] by (auto simp: TS_Release_def ts_holds_def)
qed

section \<open>How rebalancing divides the interval\<close>

text \<open>
  The bounds under which no arithmetic wraps: what \<open>ConfigurePool\<close> can set as an interval
  (an \<open>int32\<close> of milliseconds) is below \<open>2 ^ 51\<close> nanoseconds, and a GPU has at most ten slots.
\<close>

definition rebalance_pre :: "TimeSlot list \<Rightarrow> duration \<Rightarrow> bool" where
  "rebalance_pre slots T \<longleftrightarrow> slots \<noteq> [] \<and> length slots \<le> 10 \<and>
     (\<forall>s \<in> set slots. 0 \<le> sl_Priority s \<and> sl_Priority s < 2 ^ 20) \<and> 0 < T \<and> T \<le> 2 ^ 51"

lemma totalPriority_eq:
  assumes "length slots \<le> 10" and "\<forall>s \<in> set slots. 0 \<le> sl_Priority s \<and> sl_Priority s < 2 ^ 20"
  shows "totalPriority slots = sum_list (map (\<lambda>s. sl_Priority s + 1) slots)"
proof -
  have "fold (\<lambda>s acc. wrap32 (acc + wrap32 (sl_Priority s + 1))) ss a = a + sum_list (map (\<lambda>s. sl_Priority s + 1) ss)"
    if "\<forall>s \<in> set ss. 0 \<le> sl_Priority s \<and> sl_Priority s < 2 ^ 20" "0 \<le> a" "a + int (length ss) * 2 ^ 20 < 2 ^ 31" for ss a
    using that
  proof (induction ss arbitrary: a)
    case (Cons s ss)
    then have "wrap32 (sl_Priority s + 1) = sl_Priority s + 1" by (intro wrap32_id) auto
    moreover have "wrap32 (a + (sl_Priority s + 1)) = a + (sl_Priority s + 1)"
      using Cons.prems by (intro wrap32_id) (auto simp: algebra_simps)
    moreover have "fold (\<lambda>s acc. wrap32 (acc + wrap32 (sl_Priority s + 1))) ss (a + (sl_Priority s + 1)) =
        a + (sl_Priority s + 1) + sum_list (map (\<lambda>s. sl_Priority s + 1) ss)"
      using Cons.prems by (intro Cons.IH) (auto simp: algebra_simps)
    ultimately show ?case by simp
  qed simp
  from this [of slots 0] assms show ?thesis by (simp add: totalPriority_def)
qed

lemma f_to_int64_range: "0 \<le> x \<Longrightarrow> x \<le> of_int n \<Longrightarrow> n < 2 ^ 63 \<Longrightarrow> f_to_int64 impl (Fin x) = \<lfloor>x\<rfloor>"
proof -
  assume "0 \<le> x" "x \<le> of_int n" "n < 2 ^ 63"
  moreover from this have "0 \<le> \<lfloor>x\<rfloor>" "\<lfloor>x\<rfloor> \<le> n" by (auto simp: floor_le_iff)
  ultimately show ?thesis by (simp add: trunc_rat_def Let_def)
qed

text \<open>The share of the interval before the minimum is applied, as an exact expression.\<close>

definition share :: "duration \<Rightarrow> int \<Rightarrow> int \<Rightarrow> rat" where
  "share T tp p = fl (fl (of_int T) * fl (fl (of_int (p + 1)) / fl (of_int tp)))"

lemma share_bounds:
  assumes "0 \<le> p" "p + 1 \<le> tp" "0 \<le> T" "T \<le> 2 ^ 51"
  shows "0 \<le> share T tp p \<and> share T tp p \<le> of_int T"
proof -
  have T: "fl (of_int T) = of_int T" using assms by (intro fl_of_int_exact) auto
  have w: "0 \<le> fl (fl (of_int (p + 1)) / fl (of_int tp))" "fl (fl (of_int (p + 1)) / fl (of_int tp)) \<le> 1"
    using fl_ratio_unit [of "p + 1" tp] assms by auto
  have "of_int T * fl (fl (of_int (p + 1)) / fl (of_int tp)) \<le> of_int T"
    using mult_left_mono [OF w(2), of "of_int T :: rat"] assms(3) by simp
  then have "share T tp p \<le> of_int T" unfolding share_def T using fl_mono T by metis
  moreover have "0 \<le> share T tp p" unfolding share_def T using w(1) assms(3) by (intro fl_nonneg) simp
  ultimately show ?thesis by simp
qed

lemma slot_duration_eq:
  assumes "0 \<le> p" "p < 2 ^ 20" "p + 1 \<le> tp" "0 \<le> T" "T \<le> 2 ^ 51"
  shows "slot_duration impl T tp p = max (10 * millisecond) \<lfloor>share T tp p\<rfloor>"
proof -
  have "wrap32 (p + 1) = p + 1" using assms by (intro wrap32_id) auto
  moreover have "f_mul (f_of_int T) (f_div (f_of_int (p + 1)) (f_of_int tp)) = Fin (share T tp p)"
    using fl_int_pos [of tp] assms by (simp add: f_of_int_def share_def)
  moreover have "f_to_int64 impl (Fin (share T tp p)) = \<lfloor>share T tp p\<rfloor>"
    using share_bounds [of p tp T] assms by (intro f_to_int64_range [of _ T]) auto
  ultimately show ?thesis unfolding slot_duration_def Let_def by (simp only: max_def) auto
qed

lemma share_mono:
  assumes "0 \<le> p" "p \<le> q" "0 < tp" "0 \<le> T"
  shows "share T tp p \<le> share T tp q"
proof -
  have "fl (of_int (p + 1)) / fl (of_int tp) \<le> fl (of_int (q + 1)) / fl (of_int tp)"
    using assms fl_int_pos [of tp] by (intro divide_right_mono fl_mono) auto
  then show ?thesis unfolding share_def using assms fl_nonneg [of "of_int T"]
    by (intro fl_mono mult_left_mono) auto
qed

lemma assign_slots_eq:
  assumes "\<forall>s \<in> set ss. 0 \<le> D (sl_Priority s)" and "\<forall>s \<in> set ss. slot_duration impl T tp (sl_Priority s) = D (sl_Priority s)"
    and "0 \<le> off" "off + sum_list (map (\<lambda>s. D (sl_Priority s)) ss) < 2 ^ 63"
  shows "snd (assign_slots impl T tp off ss) = off + sum_list (map (\<lambda>s. D (sl_Priority s)) ss) \<and>
    (\<forall>i < length ss. fst (assign_slots impl T tp off ss) ! i = (ss ! i)\<lparr>sl_Duration := D (sl_Priority (ss ! i)),
       sl_StartOffset := off + sum_list (map (\<lambda>s. D (sl_Priority s)) (take i ss))\<rparr>)"
  using assms
proof (induction ss arbitrary: off)
  case (Cons s ss)
  let ?d = "D (sl_Priority s)"
  have nn: "0 \<le> sum_list (map (\<lambda>s. D (sl_Priority s)) ss)" using Cons.prems(1) by (intro sum_list_nonneg) auto
  have w: "wrap64 (off + ?d) = off + ?d" using Cons.prems nn by (intro wrap64_id) auto
  obtain ss' off' where a: "assign_slots impl T tp (off + ?d) ss = (ss', off')" by fastforce
  from Cons.IH [of "off + ?d"] Cons.prems a have
    IH: "off' = off + ?d + sum_list (map (\<lambda>s. D (sl_Priority s)) ss)"
     "\<forall>i < length ss. ss' ! i = (ss ! i)\<lparr>sl_Duration := D (sl_Priority (ss ! i)),
       sl_StartOffset := off + ?d + sum_list (map (\<lambda>s. D (sl_Priority s)) (take i ss))\<rparr>" by auto
  have "assign_slots impl T tp off (s # ss) = (s\<lparr>sl_Duration := ?d, sl_StartOffset := off\<rparr> # ss', off')"
    using Cons.prems(2) a w by (simp add: Let_def)
  with IH show ?case by (auto simp: nth_Cons' less_Suc_eq_0_disj take_Cons')
qed simp

definition share_ms :: "duration \<Rightarrow> TimeSlot list \<Rightarrow> TimeSlot \<Rightarrow> duration" where
  "share_ms T slots s = max (10 * millisecond) \<lfloor>share T (sum_list (map (\<lambda>s. sl_Priority s + 1) slots)) (sl_Priority s)\<rfloor>"

lemma sort_slots_set [simp]: "set (sort_slots slots) = set slots"
  by (simp add: sort_slots_def)

lemma sort_slots_length [simp]: "length (sort_slots slots) = length slots"
  by (simp add: sort_slots_def)

lemma rebalance_pre_sort [simp]: "rebalance_pre (sort_slots slots) T = rebalance_pre slots T"
proof -
  have "sort_slots slots = [] \<longleftrightarrow> slots = []" by (metis length_0_conv sort_slots_length)
  then show ?thesis by (simp add: rebalance_pre_def)
qed

lemma share_ms_bounds:
  assumes "rebalance_pre slots T" and "s \<in> set slots"
  shows "10 * millisecond \<le> share_ms T slots s" and "share_ms T slots s \<le> 2 ^ 51"
    and "slot_duration impl T (totalPriority slots) (sl_Priority s) = share_ms T slots s"
proof -
  let ?tp = "sum_list (map (\<lambda>s. sl_Priority s + 1) slots)"
  have s: "0 \<le> sl_Priority s" "sl_Priority s < 2 ^ 20" "sl_Priority s + 1 \<le> ?tp"
    using assms by (auto simp: rebalance_pre_def intro!: member_le_sum_list)
  have T: "0 \<le> T" "T \<le> 2 ^ 51" using assms by (auto simp: rebalance_pre_def)
  have "\<lfloor>share T ?tp (sl_Priority s)\<rfloor> \<le> T"
    using share_bounds [OF s(1,3) T] by (simp add: floor_le_iff)
  then have "\<lfloor>share T ?tp (sl_Priority s)\<rfloor> \<le> 2 ^ 51" using T(2) by (rule order_trans)
  moreover have "10 * millisecond \<le> 2 ^ 51" by (simp add: millisecond_def)
  ultimately show "share_ms T slots s \<le> 2 ^ 51" unfolding share_ms_def by (rule max.boundedI [rotated])
  show "10 * millisecond \<le> share_ms T slots s" by (simp add: share_ms_def)
  have "totalPriority slots = ?tp" using assms by (intro totalPriority_eq) (auto simp: rebalance_pre_def)
  then show "slot_duration impl T (totalPriority slots) (sl_Priority s) = share_ms T slots s"
    unfolding share_ms_def using slot_duration_eq [OF s T] by (simp only:)
qed

lemma share_ms_sum:
  assumes "rebalance_pre slots T" and "set xs \<subseteq> set slots" "length xs \<le> 10"
  shows "0 \<le> sum_list (map (share_ms T slots) xs)" and "sum_list (map (share_ms T slots) xs) < 2 ^ 62"
proof -
  have b: "\<forall>s \<in> set xs. 0 \<le> share_ms T slots s \<and> share_ms T slots s \<le> 2 ^ 51"
    using share_ms_bounds(1,2) [OF assms(1)] assms(2) by (fastforce simp: millisecond_def)
  then show "0 \<le> sum_list (map (share_ms T slots) xs)" by (intro sum_list_nonneg) auto
  have "sum_list (map (share_ms T slots) xs) \<le> sum_list (map (\<lambda>_. 2 ^ 51) xs)" using b by (intro sum_list_mono) auto
  also have "\<dots> = int (length xs) * 2 ^ 51" by (simp add: sum_list_triv)
  also have "\<dots> < 2 ^ 62" using assms(3) by auto
  finally show "sum_list (map (share_ms T slots) xs) < 2 ^ 62" .
qed

lemma rebalanceSlots_eq:
  fixes g T
  defines "ss \<equiv> sort_slots (tg_Slots g)"
  defines "D \<equiv> share_ms T ss"
  assumes pre: "rebalance_pre (tg_Slots g) T"
  shows "tg_TotalAllocated (rebalanceSlots impl g T) = sum_list (map D ss)"
    and "i < length ss \<Longrightarrow> tg_Slots (rebalanceSlots impl g T) ! i =
      (ss ! i)\<lparr>sl_Duration := D (ss ! i) + (if Suc i = length ss then max 0 (T - sum_list (map D ss)) else 0),
        sl_StartOffset := sum_list (map D (take i ss))\<rparr>"
proof -
  let ?S = "sum_list (map D ss)"
  have pre': "rebalance_pre ss T" using pre by (simp add: ss_def)
  have ne: "tg_Slots g \<noteq> []" "ss \<noteq> []" and len: "length ss \<le> 10" using pre pre' by (auto simp: rebalance_pre_def)
  obtain ss' off where a: "assign_slots impl T (totalPriority ss) 0 ss = (ss', off)" by fastforce
  have D: "sl_Priority s = sl_Priority t \<Longrightarrow> D s = D t" for s t by (simp add: D_def share_ms_def)
  let ?D = "\<lambda>p. D (\<lparr>sl_SlotID = '''', sl_ServiceName = '''', sl_Namespace = '''', sl_StartOffset = 0, sl_Duration = 0, sl_Priority = p, sl_Active = True\<rparr>)"
  have D2: "?D (sl_Priority s) = D s" for s by (rule D) simp
  have "\<forall>s \<in> set ss. 0 \<le> D s" using share_ms_bounds(1) [OF pre'] by (fastforce simp: D_def millisecond_def)
  moreover have "\<forall>s \<in> set ss. slot_duration impl T (totalPriority ss) (sl_Priority s) = D s"
    using share_ms_bounds(3) [OF pre'] by (simp add: D_def)
  moreover have S: "0 \<le> ?S" "?S < 2 ^ 62" using share_ms_sum [OF pre', of ss] len by (auto simp: D_def)
  ultimately have off: "off = ?S"
    and nth: "i < length ss \<Longrightarrow> ss' ! i = (ss ! i)\<lparr>sl_Duration := D (ss ! i), sl_StartOffset := sum_list (map D (take i ss))\<rparr>" for i
    using assign_slots_eq [of ss ?D impl T "totalPriority ss" 0] a unfolding D2 by auto
  have len': "length ss' = length ss" using assign_slots_length [of impl T "totalPriority ss" 0 ss] a by simp
  have r: "rebalanceSlots impl g T = g\<lparr>tg_Slots := (if off < T then fill_last (wrap64 (T - off)) ss' else ss'), tg_TotalAllocated := off\<rparr>"
    using ne a by (simp add: rebalanceSlots_def Let_def ss_def)
  show "tg_TotalAllocated (rebalanceSlots impl g T) = ?S" using r off by simp
  assume i: "i < length ss"
  have last: "last ss' = ss' ! (length ss - 1)" using ne len' by (metis last_conv_nth length_0_conv)
  have T: "0 < T" "T \<le> 2 ^ 51" using pre' by (auto simp: rebalance_pre_def)
  have w: "wrap64 (T - ?S) = T - ?S" using S T by (intro wrap64_id) auto
  have dl: "D (ss ! i) \<le> 2 ^ 51" "0 \<le> D (ss ! i)"
    using share_ms_bounds(1,2) [OF pre', of "ss ! i"] i by (auto simp: D_def millisecond_def)
  have w2: "wrap64 (D (ss ! i) + (T - ?S)) = D (ss ! i) + (T - ?S)" using S T dl by (intro wrap64_id) auto
  show "tg_Slots (rebalanceSlots impl g T) ! i =
      (ss ! i)\<lparr>sl_Duration := D (ss ! i) + (if Suc i = length ss then max 0 (T - ?S) else 0),
        sl_StartOffset := sum_list (map D (take i ss))\<rparr>"
  proof (cases "off < T \<and> Suc i = length ss")
    case True
    then have "i = length ss - 1" by linarith
    with True show ?thesis using i nth [OF i] last len' r off w w2 by (simp add: fill_last_def)
  next
    case False
    then show ?thesis using i nth [OF i] len' r off by (auto simp: fill_last_def nth_list_update)
  qed
qed

section \<open>The other operations\<close>

lemma find_slot_site:
  assumes "find_slot pord gord m sid = Some (pn, c, k, g, i)" and "range_ok pord" "range_ok gord" and "ts_ok m"
  shows "gm_get (tm_pools m) pn = Some c" "gm_get (tcf_GPUs c) k = Some g" "i < length (tg_Slots g)"
    "sl_SlotID (tg_Slots g ! i) = sid" "ts_pool_ok c" "ts_gpu_ok c k g"
proof -
  from find_Some_in [OF assms(1) [unfolded find_slot_def]]
  have site: "(pn, c, k, g, i) \<in> set (slot_sites pord gord m)" and sid: "sl_SlotID (tg_Slots g ! i) = sid" by auto
  then have s: "(pn, c) \<in> set (tm_pools m)" "(k, g) \<in> set (tcf_GPUs c)" "i < length (tg_Slots g)"
    by (auto simp: slot_sites_def range_ok_set [OF assms(2)] range_ok_set [OF assms(3)])
  show "ts_pool_ok c" using s assms(4) by (auto simp: ts_ok_def)
  then show "ts_gpu_ok c k g" and "gm_get (tcf_GPUs c) k = Some g"
    using s ts_pool_ok_gpu [of c k g] by (auto simp: ts_pool_ok_def)
  show "gm_get (tm_pools m) pn = Some c" using s assms(4) by (auto simp: ts_ok_def)
  show "i < length (tg_Slots g)" "sl_SlotID (tg_Slots g ! i) = sid" using s sid by auto
qed

lemma put_gpu_ok: "ts_ok m \<Longrightarrow> ts_pool_ok c \<Longrightarrow> ts_gpu_ok c k g \<Longrightarrow> ts_ok (put_gpu pn c k g m)"
  unfolding put_gpu_def by (intro ts_ok_set ts_pool_ok_set)

lemma SetSlotPriority_ok [inv_intros]:
  assumes "ts_ok m" "range_ok pord" "range_ok gord"
  shows "ts_ok (snd (SetSlotPriority impl pord gord m sid p))"
proof (cases "find_slot pord gord m sid")
  case (Some x)
  obtain pn c k g i where x: "x = (pn, c, k, g, i)" by (metis prod_cases5)
  note s = find_slot_site [OF Some [unfolded x] assms(2,3,1)]
  show ?thesis using Some x s assms(1) by (auto simp: SetSlotPriority_def ts_gpu_ok_def intro!: put_gpu_ok)
qed (simp add: SetSlotPriority_def assms(1))

lemma PauseSlot_ok [inv_intros]:
  assumes "ts_ok m" "range_ok pord" "range_ok gord"
  shows "ts_ok (snd (PauseSlot pord gord m sid))" "ts_ok (snd (ResumeSlot pord gord m sid))"
proof -
  have "ts_ok (put_gpu pn c k (set_active b i g) m)" if "find_slot pord gord m sid = Some (pn, c, k, g, i)" for pn c k g i b
    using find_slot_site [OF that assms(2,3,1)] assms(1) by (intro put_gpu_ok) (auto simp: ts_gpu_ok_def set_active_def)
  then show "ts_ok (snd (PauseSlot pord gord m sid))" "ts_ok (snd (ResumeSlot pord gord m sid))"
    using assms(1) by (auto simp: PauseSlot_def ResumeSlot_def split: option.splits)
qed

lemma TS_ConfigurePool_ok [inv_intros]: "ts_ok m \<Longrightarrow> ts_ok (snd (TS_ConfigurePool m pool))"
  by (auto simp: TS_ConfigurePool_def Let_def ts_pool_ok_def millisecond_def split: option.splits intro!: ts_ok_set)

lemma TS_CleanupPool_ok [inv_intros]: "ts_ok m \<Longrightarrow> ts_ok (snd (TS_CleanupPool ord m n))"
  using set_gm_del_subset [of n "tm_pools m"]
  by (auto simp: TS_CleanupPool_def ts_ok_def gm_ok_delete split: option.splits)

lemma schedule_gpu_fields [simp]:
  "tg_Slots (schedule_gpu now g) = tg_Slots g" "tg_NodeName (schedule_gpu now g) = tg_NodeName g"
  "tg_DeviceID (schedule_gpu now g) = tg_DeviceID g" "tg_MaxSlots (schedule_gpu now g) = tg_MaxSlots g"
  "tg_SlotInterval (schedule_gpu now g) = tg_SlotInterval g"
  by (simp_all add: schedule_gpu_def Let_def)

lemma scheduleSlots_ok [inv_intros]: "ts_ok m \<Longrightarrow> ts_ok (scheduleSlots now m)"
  unfolding scheduleSlots_def
  by (erule ts_ok_map) (simp add: schedule_pool_def, erule ts_pool_ok_map, simp add: ts_gpu_ok_def)

lemma runScheduler_ok [inv_intros]: "ts_ok m \<Longrightarrow> ts_ok (runScheduler es m)"
  by (induction es m rule: runScheduler.induct) (simp_all add: scheduleSlots_ok)

inductive ts_step :: "TimesliceManager \<Rightarrow> TimesliceManager \<Rightarrow> bool" where
  start: "ts_step m (TS_Start m)"
| stop: "ts_step m (snd (TS_Stop m))"
| configure: "ts_step m (snd (TS_ConfigurePool m pool))"
| cleanup: "range_ok ord \<Longrightarrow> ts_step m (snd (TS_CleanupPool ord m n))"
| allocate: "ts_env_ok e \<Longrightarrow> ts_step m (snd (TS_Allocate e m req info gpus))"
| release: "ts_step m (TS_Release impl m svc ns)"
| schedule: "ts_step m (runScheduler es m)"
| set_priority: "range_ok pord \<Longrightarrow> range_ok gord \<Longrightarrow> ts_step m (snd (SetSlotPriority impl pord gord m sid p))"
| pause: "range_ok pord \<Longrightarrow> range_ok gord \<Longrightarrow> ts_step m (snd (PauseSlot pord gord m sid))"
| resume: "range_ok pord \<Longrightarrow> range_ok gord \<Longrightarrow> ts_step m (snd (ResumeSlot pord gord m sid))"

inductive ts_reachable :: "TimesliceManager \<Rightarrow> bool" where
  new: "ts_reachable NewTimesliceManager"
| step: "ts_reachable m \<Longrightarrow> ts_step m m' \<Longrightarrow> ts_reachable m'"

lemma ts_step_ok: "ts_step m m' \<Longrightarrow> ts_ok m \<Longrightarrow> ts_ok m'"
proof (induction rule: ts_step.induct)
  case (start m)
  then show ?case by (simp add: TS_Start_def)
next
  case (stop m)
  then show ?case by (simp add: TS_Stop_def)
qed (blast intro: inv_intros)+

lemma ts_reachable_ok: "ts_reachable m \<Longrightarrow> ts_ok m"
proof (induction rule: ts_reachable.induct)
  case new
  show ?case by (simp add: NewTimesliceManager_def ts_ok_def)
next
  case (step m m')
  then show ?case by (blast intro: ts_step_ok)
qed

section \<open>The scheduler visits every slot\<close>

definition ts_gpu_at :: "TimesliceManager \<Rightarrow> string \<Rightarrow> string \<Rightarrow> TimesliceGPU option" where
  "ts_gpu_at m pn k = Option.bind (gm_get (tm_pools m) pn) (\<lambda>c. gm_get (tcf_GPUs c) k)"

definition current_slot :: "TimesliceManager \<Rightarrow> string \<Rightarrow> string \<Rightarrow> TimeSlot option" where
  "current_slot m pn k = map_option (\<lambda>g. tg_Slots g ! tg_CurrentSlotIdx g) (ts_gpu_at m pn k)"

definition equal_share :: "TimesliceGPU \<Rightarrow> duration" where
  "equal_share g = go_div (tg_SlotInterval g) (int (length (tg_Slots g)))"

fun spaced :: "duration \<Rightarrow> timestamp \<Rightarrow> timestamp list \<Rightarrow> bool" where
  "spaced d t [] = True"
| "spaced d t (t' # ts) = (t' - t \<ge> d \<and> spaced d t' ts)"

lemma ts_gpu_at_schedule: "ts_gpu_at (scheduleSlots now m) pn k = map_option (schedule_gpu now) (ts_gpu_at m pn k)"
  by (simp add: ts_gpu_at_def scheduleSlots_def schedule_pool_def gm_get_map Option.bind_map_option Option.map_option_bind comp_def)

lemma ts_gpu_at_ticks:
  "ts_gpu_at (runScheduler (map Tick ts) m) pn k = map_option (\<lambda>g. fold schedule_gpu ts g) (ts_gpu_at m pn k)"
  by (induction ts arbitrary: m) (simp_all add: ts_gpu_at_schedule option.map_comp comp_def option.map_id)

lemma schedule_gpus_slots [simp]: "tg_Slots (fold schedule_gpu ts g) = tg_Slots g"
  by (induction ts arbitrary: g) simp_all

lemma schedule_gpus_idx:
  assumes "tg_Slots g \<noteq> []" and "spaced (equal_share g) (tg_LastScheduled g) ts"
  shows "tg_CurrentSlotIdx (fold schedule_gpu ts g) mod length (tg_Slots g) =
    (tg_CurrentSlotIdx g + length ts) mod length (tg_Slots g)"
  using assms
proof (induction ts arbitrary: g)
  case (Cons t ts)
  let ?g = "schedule_gpu t g"
  have g: "tg_CurrentSlotIdx ?g = (tg_CurrentSlotIdx g + 1) mod length (tg_Slots g)" "tg_LastScheduled ?g = t"
    using Cons.prems by (simp_all add: schedule_gpu_def equal_share_def Let_def)
  have "equal_share ?g = equal_share g" by (simp add: equal_share_def)
  with Cons.prems g have "tg_CurrentSlotIdx (fold schedule_gpu ts ?g) mod length (tg_Slots ?g) =
      (tg_CurrentSlotIdx ?g + length ts) mod length (tg_Slots ?g)"
    by (intro Cons.IH) simp_all
  then show ?case using g(1) by (simp add: mod_add_left_eq)
qed simp

lemma schedule_gpus_idx_less:
  assumes "tg_Slots g \<noteq> []" and "spaced (equal_share g) (tg_LastScheduled g) ts" and "ts \<noteq> []"
  shows "tg_CurrentSlotIdx (fold schedule_gpu ts g) < length (tg_Slots g)"
  using assms
proof (induction ts arbitrary: g)
  case (Cons t ts)
  let ?g = "schedule_gpu t g"
  have g: "tg_CurrentSlotIdx ?g < length (tg_Slots g)" "tg_LastScheduled ?g = t"
    using Cons.prems by (simp_all add: schedule_gpu_def equal_share_def Let_def)
  have "equal_share ?g = equal_share g" by (simp add: equal_share_def)
  then show ?case using Cons.IH [of ?g] Cons.prems g by (cases "ts = []") simp_all
qed simp

lemma spaced_take: "spaced d t ts \<Longrightarrow> spaced d t (take j ts)"
proof (induction ts arbitrary: t j)
  case (Cons t' ts)
  then show ?case by (cases j) simp_all
qed simp

lemma round_step: "n > 0 \<Longrightarrow> i < n \<Longrightarrow> \<exists>j. 0 < j \<and> j \<le> n \<and> (a + j) mod n = i" for n :: nat
proof -
  assume n: "n > 0" "i < n"
  let ?j = "if i > a mod n then i - a mod n else i + n - a mod n"
  have a: "a mod n < n" using n by simp
  have e: "a mod n + (i + n - a mod n) = i + n" using a by linarith
  have "(a mod n + (i + n - a mod n)) mod n = i" unfolding e using n by simp
  then have "(a mod n + ?j) mod n = i" using n a by (cases "i > a mod n") simp_all
  then have "(a + ?j) mod n = i" by (metis mod_add_left_eq)
  moreover have "0 < ?j" "?j \<le> n" using n a by (auto intro: trans_less_add2)
  ultimately show ?thesis by blast
qed

section \<open>Pausing and the scheduler\<close>

definition forget_active :: "TimesliceGPU \<Rightarrow> TimesliceGPU" where
  "forget_active g = g\<lparr>tg_Slots := map (\<lambda>s. s\<lparr>sl_Active := True\<rparr>) (tg_Slots g)\<rparr>"

lemma forget_set_active: "i < length (tg_Slots g) \<Longrightarrow> forget_active (set_active b i g) = forget_active g"
  by (auto simp: forget_active_def set_active_def intro!: TimesliceGPU.fold_congs nth_equalityI)
    (simp add: nth_list_update)

lemma forget_schedule: "forget_active (schedule_gpu now g) = schedule_gpu now (forget_active g)"
  by (simp add: forget_active_def schedule_gpu_def Let_def)

lemma ts_gpu_at_put: "ts_gpu_at (put_gpu pn c k g m) pn' k' =
    (if pn' = pn then (if k' = k then Some g else gm_get (tcf_GPUs c) k') else ts_gpu_at m pn' k')"
  by (simp add: ts_gpu_at_def put_gpu_def gm_get_set)

definition same_but_active :: "TimesliceManager \<Rightarrow> TimesliceManager \<Rightarrow> bool" where
  "same_but_active m m' \<longleftrightarrow> (\<forall>pn k. map_option forget_active (ts_gpu_at m pn k) = map_option forget_active (ts_gpu_at m' pn k))"

lemma PauseSlot_same:
  assumes "ts_ok m" "range_ok pord" "range_ok gord"
  shows "same_but_active (snd (PauseSlot pord gord m sid)) m"
proof (cases "find_slot pord gord m sid")
  case (Some x)
  obtain pn c k g i where x: "x = (pn, c, k, g, i)" by (metis prod_cases5)
  note s = find_slot_site [OF Some [unfolded x] assms(2,3,1)]
  show ?thesis using Some x s
    by (auto simp: PauseSlot_def same_but_active_def ts_gpu_at_put forget_set_active) (simp_all add: ts_gpu_at_def)
qed (simp add: PauseSlot_def same_but_active_def)

lemma runScheduler_same: "same_but_active m m' \<Longrightarrow> same_but_active (runScheduler es m) (runScheduler es m')"
proof (induction es m arbitrary: m' rule: runScheduler.induct)
  case (4 now es m)
  have "same_but_active (scheduleSlots now m) (scheduleSlots now m')"
    using 4(2) by (simp add: same_but_active_def ts_gpu_at_schedule option.map_comp comp_def forget_schedule)
      (metis (no_types, lifting) option.map_comp comp_apply option.map_cong)
  with 4 show ?case by simp
next
  case (5 now es m)
  have "same_but_active (scheduleSlots now (m\<lparr>tm_schedulerCh := False\<rparr>)) (scheduleSlots now (m'\<lparr>tm_schedulerCh := False\<rparr>))"
    using 5(2) by (simp add: same_but_active_def ts_gpu_at_schedule option.map_comp comp_def forget_schedule)
      (simp add: ts_gpu_at_def, metis (no_types, lifting) option.map_comp comp_apply option.map_cong)
  with 5 show ?case by simp
qed simp_all

section \<open>What Allocate books\<close>

definition allocs_of :: "TimesliceManager \<Rightarrow> string \<Rightarrow> string \<Rightarrow> TimesliceAllocation list" where
  "allocs_of m svc ns = (case gm_get (tm_allocations m) (service_key ns svc) of None \<Rightarrow> [] | Some as \<Rightarrow> as)"

lemma findOrCreateTimesliceGPU_slots_eq:
  assumes "findOrCreateTimesliceGPU ord now c gpus = Ok (k, g, c')"
  shows "pool_slots_of svc ns c' = pool_slots_of svc ns c"
proof -
  have z: "slots_of svc ns (new_timeslice_gpu now c pg) = 0" for pg
    by (simp add: slots_of_def new_timeslice_gpu_def)
  from assms show ?thesis
  proof (cases "find (\<lambda>(k, g). int (length (tg_Slots g)) < tg_MaxSlots g) (ord (tcf_GPUs c))")
    case None
    with assms obtain pg where p: "\<not> gm_has (tcf_GPUs c) (gpu_key (gi_NodeName pg) (gi_DeviceID pg))"
      and c': "c' = c\<lparr>tcf_GPUs := gm_set (gpu_key (gi_NodeName pg) (gi_DeviceID pg)) (new_timeslice_gpu now c pg) (tcf_GPUs c)\<rparr>"
      by (auto simp: findOrCreateTimesliceGPU_def Let_def split: option.splits dest: find_Some_in)
    then show ?thesis using z by (simp add: pool_slots_of_def gm_has_def sum_list_gm_set_none)
  qed (auto simp: findOrCreateTimesliceGPU_def)
qed

lemma TS_Allocate_loop_books:
  assumes "ts_env_ok e" and "ts_ok m" and "gm_get (tm_pools m) pn = Some c"
  shows "case TS_Allocate_loop e req pn gpus i n c m infos of
      (Ok infos', m') \<Rightarrow> ts_holds m' (ar_ServiceName req) (ar_Namespace req) = ts_holds m (ar_ServiceName req) (ar_Namespace req) + n \<and>
        length (allocs_of m' (ar_ServiceName req) (ar_Namespace req)) = length (allocs_of m (ar_ServiceName req) (ar_Namespace req)) + n
    | (Err err, m') \<Rightarrow> ts_holds m' (ar_ServiceName req) (ar_Namespace req) = 0 \<and> allocs_of m' (ar_ServiceName req) (ar_Namespace req) = []
    | _ \<Rightarrow> False"
  using assms(2,3)
proof (induction n arbitrary: i c m infos)
  case 0
  show ?case by (simp add: ts_holds_def allocs_of_def)
next
  case (Suc n)
  let ?svc = "ar_ServiceName req" and ?ns = "ar_Namespace req"
  show ?case
  proof (cases "findOrCreateTimesliceGPU (te_ord e i) (te_now e i) c gpus = Err NoAvailableGPUs")
    case True
    have "allocs_of (releaseSlots impl m ?svc ?ns) ?svc ?ns = []" for impl
      by (simp add: releaseSlots_def allocs_of_def delete_conv')
    with True show ?thesis by (simp add: releaseSlots_holds)
  next
    case False
    then obtain k g c' where f: "findOrCreateTimesliceGPU (te_ord e i) (te_now e i) c gpus = Ok (k, g, c')"
      using findOrCreateTimesliceGPU_cases [of "te_ord e i" "te_now e i" c gpus] by blast
    have "range_ok (te_ord e i)" using assms(1) by (simp add: ts_env_ok_def)
    from findOrCreateTimesliceGPU_ok [OF ts_ok_pool [OF Suc.prems] this f]
    have c': "ts_pool_ok c'" "ts_gpu_ok c' k g" "length (tg_Slots g) < 10" and kg: "gm_get (tcf_GPUs c') k = Some g" by auto
    let ?g = "add_slot (te_impl e) req c' g"
    let ?c = "c'\<lparr>tcf_GPUs := gm_set k ?g (tcf_GPUs c')\<rparr>"
    let ?m = "\<lambda>a. m\<lparr>tm_pools := gm_set pn ?c (tm_pools m),
      tm_allocations := append_allocation (service_key ?ns ?svc) a (tm_allocations m)\<rparr>"
    have "pool_slots_of ?svc ?ns ?c = Suc (pool_slots_of ?svc ?ns c)"
      using sum_list_gm_set_some [OF kg, of "slots_of ?svc ?ns" ?g] findOrCreateTimesliceGPU_slots_eq [OF f, of ?svc ?ns]
      by (simp add: pool_slots_of_def add_slot_slots_of)
    then have h: "ts_holds (?m a) ?svc ?ns = Suc (ts_holds m ?svc ?ns)" for a
      using sum_list_gm_set_some [OF Suc.prems(2), of "pool_slots_of ?svc ?ns" ?c] by (simp add: ts_holds_def)
    have l: "length (allocs_of (?m a) ?svc ?ns) = Suc (length (allocs_of m ?svc ?ns))" for a
      by (simp add: allocs_of_def append_allocation_def gm_get_set)
    have ok: "ts_ok (?m a)" "gm_get (tm_pools (?m a)) pn = Some ?c" for a
      using grant_slot_ok [OF Suc.prems(1) c'] by (simp_all add: gm_get_set)
    obtain a infos' where st: "TS_Allocate_loop e req pn gpus i (Suc n) c m infos =
        TS_Allocate_loop e req pn gpus (Suc i) n ?c (?m a) infos'"
      using f by (simp add: place_slot_def)
    show ?thesis unfolding st using Suc.IH [OF ok, of a "Suc i" infos']
      by (simp only: h l add_Suc_right add_Suc)
  qed
qed

section \<open>Properties\<close>

definition ts_demo_pool :: "int \<Rightarrow> GPUPool" where
  "ts_demo_pool interval = \<lparr>gp_Meta = \<lparr>om_Name = ''p'', om_Namespace = '''', om_Generation = 1,
       om_DeletionTimestamp = None, om_Finalizers = []\<rparr>,
     gp_Spec = \<lparr>gps_NodeSelector = [], gps_GPUType = '''',
       gps_Sharing = Some \<lparr>gss_Mode = ''timeslice'', gss_Profiles = [], gss_TimeSliceInterval = interval,
         gss_MPSActiveThreadPercentage = 50, gss_MPSMemoryLimit = None\<rparr>,
       gps_Oversubscription = None, gps_ReservationPolicy = '''', gps_PreemptionPolicy = '''',
       gps_HealthCheckInterval = None\<rparr>,
     gp_Status = \<lparr>gst_Phase = GPUPoolPhaseUnset, gst_TotalGPUs = 0, gst_AvailableGPUs = 0,
       gst_AllocatedGPUs = 0, gst_TotalMemory = 0, gst_AvailableMemory = 0, gst_Nodes = [],
       gst_Conditions = [], gst_LastSyncTime = None, gst_ObservedGeneration = 0\<rparr>\<rparr>"

definition ts_demo_info :: PoolInfo where
  "ts_demo_info = \<lparr>pi_Name = ''p'', pi_NodeSelector = [], pi_GPUType = '''', pi_SharingMode = ''timeslice'',
     pi_MIGProfiles = [], pi_OversubscriptionRatio = Fin 1, pi_TotalGPUs = 0, pi_AvailableGPUs = 0,
     pi_GPUs = []\<rparr>"

definition ts_demo_gpu :: GPUInfo where
  "ts_demo_gpu = \<lparr>gi_DeviceID = ''0'', gi_UUID = ''u'', gi_Model = '''', gi_NodeName = ''n1'', gi_TotalMemory = 1024,
     gi_AvailableMemory = 1024, gi_Utilization = 0, gi_Temperature = 40, gi_PowerUsage = 0,
     gi_MIGEnabled = False, gi_MIGInstances = [], gi_Allocations = []\<rparr>"

definition ts_demo_req :: "string \<Rightarrow> int \<Rightarrow> AllocationRequest" where
  "ts_demo_req svc n = \<lparr>ar_ServiceName = svc, ar_Namespace = ''ns'', ar_GPUType = '''', ar_GPUCount = n,
     ar_Memory = 0, ar_SharingMode = ''timeslice'', ar_MIGProfile = '''', ar_PoolName = ''p''\<rparr>"

definition ts_demo_env :: ts_env where
  "ts_demo_env = \<lparr>te_ord = (\<lambda>i m. m), te_now = (\<lambda>i. 0), te_at = (\<lambda>i. 0), te_impl = (\<lambda>f. 0)\<rparr>"

definition ts_demo :: "int \<Rightarrow> TimesliceManager" where
  "ts_demo interval = snd (TS_ConfigurePool NewTimesliceManager (ts_demo_pool interval))"

definition ts_demo_alloc :: "string \<Rightarrow> int \<Rightarrow> TimesliceManager \<Rightarrow> TimesliceManager" where
  "ts_demo_alloc svc n m = snd (TS_Allocate ts_demo_env m (ts_demo_req svc n) ts_demo_info [ts_demo_gpu])"

lemma add_slot_fields [simp]:
  "tg_MaxSlots (add_slot impl req c g) = tg_MaxSlots g" "tg_NodeName (add_slot impl req c g) = tg_NodeName g"
  "tg_DeviceID (add_slot impl req c g) = tg_DeviceID g"
  by (simp_all add: add_slot_def)

lemma ts_demo_100: "ts_demo 100 = \<lparr>tm_pools = [(''p'', \<lparr>tcf_PoolName = ''p'', tcf_SlotInterval = 100000000,
    tcf_MaxSlots = 10, tcf_GPUs = []\<rparr>)], tm_allocations = [], tm_schedulerCh = False, tm_running = False,
    tm_stopCh_closed = False\<rparr>"
  by code_simp

text \<open>Evaluation of an allocation that leaves the slot arithmetic (\<open>add_slot\<close>) alone.\<close>

lemmas ts_demo_eval = ts_demo_100 ts_demo_alloc_def ts_demo_info_def ts_demo_gpu_def ts_demo_req_def ts_demo_env_def
  TS_Allocate_def findOrCreateTimesliceGPU_def new_timeslice_gpu_def place_slot_def gpu_key_def gm_has_def
  ts_gpu_at_def numeral_2_eq_2 Let_def append_allocation_def

text \<open>Slots of equal priority keep their order.\<close>

definition cores :: "TimesliceGPU \<Rightarrow> (string \<times> string \<times> string \<times> int \<times> bool) list" where
  "cores g = map slot_core (tg_Slots g)"

definition flat_cores :: "(string \<times> string \<times> string \<times> int \<times> bool) list \<Rightarrow> bool" where
  "flat_cores cs \<longleftrightarrow> (\<forall>(i, s, n, p, a) \<in> set cs. p = 0)"

lemma sort_slots_flat: "\<forall>s \<in> set slots. sl_Priority s = 0 \<Longrightarrow> sort_slots slots = slots"
  unfolding sort_slots_def by (induction slots) (auto intro!: insort_is_Cons)

lemma rebalance_cores: "flat_cores (cores g) \<Longrightarrow> cores (rebalanceSlots impl g T) = cores g"
proof -
  assume "flat_cores (cores g)"
  then have "sort_slots (tg_Slots g) = tg_Slots g"
    by (intro sort_slots_flat) (auto simp: flat_cores_def cores_def slot_core_def)
  then show ?thesis using rebalanceSlots_core [of impl g T] by (simp add: cores_def)
qed

lemma add_slot_cores: "flat_cores (cores g) \<Longrightarrow> cores (add_slot impl req c g) =
    cores g @ [(slot_id req (length (cores g)), ar_ServiceName req, ar_Namespace req, 0, True)]"
  unfolding add_slot_def
  by (subst rebalance_cores) (auto simp: cores_def flat_cores_def slot_core_def new_slot_def)

lemma release_gpu_cores:
  assumes "flat_cores (cores g)"
  shows "cores (release_gpu impl T svc ns g) = filter (\<lambda>(i, s, n, p, a). s \<noteq> svc \<or> n \<noteq> ns) (cores g)"
proof -
  let ?new = "filter (\<lambda>s. sl_ServiceName s \<noteq> svc \<or> sl_Namespace s \<noteq> ns) (tg_Slots g)"
  have new: "cores (g\<lparr>tg_Slots := ?new\<rparr>) = filter (\<lambda>(i, s, n, p, a). s \<noteq> svc \<or> n \<noteq> ns) (cores g)"
    by (simp add: cores_def filter_map comp_def slot_core_def)
  then have "flat_cores (cores (g\<lparr>tg_Slots := ?new\<rparr>))" using assms by (auto simp: flat_cores_def)
  moreover have "?new = tg_Slots g" if "length ?new = length (tg_Slots g)"
    using that by (metis filter_True length_filter_less less_irrefl)
  ultimately show ?thesis using new
    by (cases "length ?new = length (tg_Slots g)") (simp_all only: release_gpu_def Let_def simp_thms if_True if_False rebalance_cores, simp add: cores_def)
qed

lemma ts_demo_env_ok [simp]: "ts_env_ok ts_demo_env"
  by (simp add: ts_env_ok_def ts_demo_env_def)

lemma ts_demo_reachable: "ts_reachable (ts_demo interval)"
  unfolding ts_demo_def by (rule ts_reachable.step [OF ts_reachable.new ts_step.configure])

lemma ts_demo_alloc_reachable: "ts_reachable m \<Longrightarrow> ts_reachable (ts_demo_alloc svc n m)"
  unfolding ts_demo_alloc_def by (erule ts_reachable.step, rule ts_step.allocate) simp


definition ts_demo_slot :: "string \<Rightarrow> int \<Rightarrow> TimeSlot" where
  "ts_demo_slot sid p = \<lparr>sl_SlotID = sid, sl_ServiceName = ''s'', sl_Namespace = ''ns'', sl_StartOffset = 0,
     sl_Duration = 0, sl_Priority = p, sl_Active = True\<rparr>"

definition ts_demo_sliced :: TimesliceGPU where
  "ts_demo_sliced = \<lparr>tg_NodeName = ''n1'', tg_DeviceID = ''0'', tg_SlotInterval = 100 * millisecond,
     tg_Slots = [ts_demo_slot ''a'' 0, ts_demo_slot ''b'' 2, ts_demo_slot ''c'' 0], tg_MaxSlots = 10,
     tg_CurrentSlotIdx = 0, tg_LastScheduled = 0, tg_TotalAllocated = 0\<rparr>"

lemma ts_demo_sliced_pre: "rebalance_pre (tg_Slots ts_demo_sliced) (100 * millisecond)"
  by (simp add: rebalance_pre_def ts_demo_sliced_def ts_demo_slot_def millisecond_def)


text \<open>
  \<open>SetSlotPriority\<close> takes any 32-bit priority. On a GPU with two slots, of priorities 0 and 1, the first of
  which is given the priority \<open>-3\<close>, the weights add up to zero; where the conversion of an infinite
  duration saturates, the last slot is left with a negative duration.
\<close>

definition saturate :: "gofloat \<Rightarrow> int" where
  "saturate f = (case f of NaN \<Rightarrow> 0 | Inf neg \<Rightarrow> (if neg then - (2 ^ 63) else 2 ^ 63 - 1)
     | Fin x \<Rightarrow> (if x < 0 then - (2 ^ 63) else 2 ^ 63 - 1))"

definition ts_demo_prio :: TimesliceManager where
  "ts_demo_prio = \<lparr>tm_pools = [(''p'', \<lparr>tcf_PoolName = ''p'', tcf_SlotInterval = 100 * millisecond, tcf_MaxSlots = 10,
      tcf_GPUs = [(''n1/0'', ts_demo_sliced\<lparr>tg_Slots := [ts_demo_slot ''a'' 0, ts_demo_slot ''b'' 1]\<rparr>)]\<rparr>)],
      tm_allocations = [], tm_schedulerCh = False, tm_running = True, tm_stopCh_closed = False\<rparr>"

lemma set_slot_priority_negative:
  "case SetSlotPriority saturate (\<lambda>m. m) (\<lambda>m. m) ts_demo_prio ''a'' (-3) of (r, m) \<Rightarrow>
     r = Ok () \<and> map_option (\<lambda>g. map (\<lambda>s. sl_Duration s < 0) (tg_Slots g)) (ts_gpu_at m ''p'' ''n1/0'') = Some [False, True]"
  by code_simp

text \<open>
  The 10 ms minimum can outgrow the interval: with \<open>n\<close> slots and an interval below
  \<open>n\<close> times 10 ms, the slots of the GPU are laid out past the end of the interval, so the
  allocated time exceeds the time there is.
\<close>

theorem rebalance_overshoots:
  assumes "rebalance_pre (tg_Slots g) T" and "T < int (length (tg_Slots g)) * (10 * millisecond)"
  shows "T < tg_TotalAllocated (rebalanceSlots impl g T)"
proof -
  let ?ss = "sort_slots (tg_Slots g)"
  have "int (length ?ss) * (10 * millisecond) = sum_list (map (\<lambda>_. 10 * millisecond) ?ss)" by (simp add: sum_list_triv)
  also have "\<dots> \<le> sum_list (map (share_ms T ?ss) ?ss)" by (rule sum_list_mono) (simp add: share_ms_def)
  finally show ?thesis using assms(2) rebalanceSlots_eq(1) [OF assms(1), of impl] by simp
qed

theorem rebalance_overshoots_witness:
  "20 * millisecond < tg_TotalAllocated (rebalanceSlots (\<lambda>_. 0) ts_demo_sliced (20 * millisecond))"
proof -
  have "rebalance_pre (tg_Slots ts_demo_sliced) (20 * millisecond)"
    by (simp add: rebalance_pre_def ts_demo_sliced_def ts_demo_slot_def millisecond_def)
  then show ?thesis
    by (rule rebalance_overshoots) (simp add: ts_demo_sliced_def millisecond_def)
qed

text \<open>
  No time-sliced GPU ever has more than ten slots, whatever sequence of operations the
  manager has executed, and it is filed under its own node and device.
\<close>

theorem ts_slot_limit:
  assumes "ts_reachable m" and "ts_gpu_at m pn k = Some g"
  shows "length (tg_Slots g) \<le> 10 \<and> k = gpu_key (tg_NodeName g) (tg_DeviceID g)"
proof -
  obtain c where c: "gm_get (tm_pools m) pn = Some c" "gm_get (tcf_GPUs c) k = Some g"
    using assms(2) by (auto simp: ts_gpu_at_def bind_eq_Some_conv)
  from ts_pool_ok_gpu [OF ts_ok_pool [OF ts_reachable_ok [OF assms(1)] c(1)] gm_get_mem [OF c(2)]]
  show ?thesis by (simp add: ts_gpu_ok_def)
qed

theorem ts_slot_limit_witness:
  "\<exists>g. ts_gpu_at (ts_demo_alloc ''a'' 2 (ts_demo 100)) ''p'' ''n1/0'' = Some g \<and> length (tg_Slots g) \<le> 10"
proof -
  have "ts_gpu_at (ts_demo_alloc ''a'' 2 (ts_demo 100)) ''p'' ''n1/0'' \<noteq> None" by (simp add: ts_demo_eval)
  then obtain g where g: "ts_gpu_at (ts_demo_alloc ''a'' 2 (ts_demo 100)) ''p'' ''n1/0'' = Some g" by blast
  from ts_slot_limit [OF ts_demo_alloc_reachable [OF ts_demo_reachable] g] g show ?thesis by blast
qed

text \<open>
  C25. The scheduler is fair: when its ticks come at least one equal share of the interval
  apart, every slot of a GPU has become the current one within as many ticks as there are slots.
\<close>

theorem scheduler_round_robin:
  assumes "ts_gpu_at m pn k = Some g" and "i < length (tg_Slots g)"
    and "length ts = length (tg_Slots g)" and "spaced (equal_share g) (tg_LastScheduled g) ts"
  shows "\<exists>j. 0 < j \<and> j \<le> length ts \<and>
    current_slot (runScheduler (map Tick (take j ts)) m) pn k = Some (tg_Slots g ! i)"
proof -
  obtain j where j: "0 < j" "j \<le> length ts" "(tg_CurrentSlotIdx g + j) mod length (tg_Slots g) = i"
    using round_step [of "length (tg_Slots g)" i "tg_CurrentSlotIdx g"] assms(2,3) by force
  have ne: "tg_Slots g \<noteq> []" "take j ts \<noteq> []" using assms(2,3) j by auto
  note sp = spaced_take [OF assms(4), of j]
  from schedule_gpus_idx [OF ne(1) sp] schedule_gpus_idx_less [OF ne(1) sp ne(2)] j
  have "tg_CurrentSlotIdx (fold schedule_gpu (take j ts) g) = i" by simp
  then have "current_slot (runScheduler (map Tick (take j ts)) m) pn k = Some (tg_Slots g ! i)"
    by (simp add: current_slot_def ts_gpu_at_ticks assms(1))
  with j show ?thesis by blast
qed

definition ts_demo_mgr :: TimesliceManager where
  "ts_demo_mgr = \<lparr>tm_pools = [(''p'', \<lparr>tcf_PoolName = ''p'', tcf_SlotInterval = 100 * millisecond, tcf_MaxSlots = 10,
      tcf_GPUs = [(''n1/0'', ts_demo_sliced)]\<rparr>)], tm_allocations = [], tm_schedulerCh = False, tm_running = True,
      tm_stopCh_closed = False\<rparr>"

theorem scheduler_round_robin_witness:
  "\<exists>j. 0 < j \<and> j \<le> 3 \<and> current_slot (runScheduler (map Tick (take j [40000000, 80000000, 120000000])) ts_demo_mgr)
     ''p'' ''n1/0'' = Some (ts_demo_slot ''c'' 0)"
proof -
  have c: "tg_Slots ts_demo_sliced ! 2 = ts_demo_slot ''c'' 0" by (simp add: ts_demo_sliced_def)
  have "ts_gpu_at ts_demo_mgr ''p'' ''n1/0'' = Some ts_demo_sliced" by code_simp
  moreover have "2 < length (tg_Slots ts_demo_sliced)" "length [40000000, 80000000, 120000000 :: int] = length (tg_Slots ts_demo_sliced)"
    by (simp_all add: ts_demo_sliced_def)
  moreover have "spaced (equal_share ts_demo_sliced) (tg_LastScheduled ts_demo_sliced) [40000000, 80000000, 120000000]" by code_simp
  ultimately have "\<exists>j. 0 < j \<and> j \<le> length [40000000, 80000000, 120000000 :: int] \<and>
      current_slot (runScheduler (map Tick (take j [40000000, 80000000, 120000000])) ts_demo_mgr) ''p'' ''n1/0'' =
        Some (tg_Slots ts_demo_sliced ! 2)"
    by (rule scheduler_round_robin)
  moreover have "length [40000000, 80000000, 120000000 :: int] = 3" by simp
  ultimately show ?thesis unfolding c by (simp only:)
qed

text \<open>
  Pausing a slot has no effect on scheduling: after any sequence of scheduler events, the
  GPUs are the same as without the pause, but for the \<open>Active\<close> flags the scheduler never reads.
\<close>

theorem pause_ignored_by_scheduler:
  assumes "ts_reachable m" and "range_ok pord" and "range_ok gord"
  shows "map_option forget_active (ts_gpu_at (runScheduler es (snd (PauseSlot pord gord m sid))) pn k) =
    map_option forget_active (ts_gpu_at (runScheduler es m) pn k)"
  using runScheduler_same [OF PauseSlot_same [OF ts_reachable_ok [OF assms(1)] assms(2,3)]]
  unfolding same_but_active_def by blast

theorem pause_ignored_by_scheduler_witness:
  "map_option forget_active (ts_gpu_at (runScheduler [Tick 100000000]
       (snd (PauseSlot (\<lambda>m. m) (\<lambda>m. m) (ts_demo_alloc ''a'' 2 (ts_demo 100)) ''slot-a-ns-1''))) ''p'' ''n1/0'') =
   map_option forget_active (ts_gpu_at (runScheduler [Tick 100000000] (ts_demo_alloc ''a'' 2 (ts_demo 100))) ''p'' ''n1/0'')"
  by (rule pause_ignored_by_scheduler [OF ts_demo_alloc_reachable [OF ts_demo_reachable] range_ok_id range_ok_id])

text \<open>
  C28. The books of an allocation: a success adds exactly the requested number of slots and of
  allocation records to the service; a failure of an unknown pool changes nothing and any
  other failure leaves the service with no slot and no record at all, also not those of its
  earlier requests; a negative count panics and changes nothing.
\<close>

theorem ts_allocate_books:
  assumes "ts_reachable m" and "ts_env_ok e"
  shows "case TS_Allocate e m req pool gpus of
      (Ok infos, m') \<Rightarrow>
        int (ts_holds m' (ar_ServiceName req) (ar_Namespace req)) =
          int (ts_holds m (ar_ServiceName req) (ar_Namespace req)) + ar_GPUCount req \<and>
        int (length (allocs_of m' (ar_ServiceName req) (ar_Namespace req))) =
          int (length (allocs_of m (ar_ServiceName req) (ar_Namespace req))) + ar_GPUCount req
    | (Err err, m') \<Rightarrow> (err = PoolNotFound (pi_Name pool) \<and> m' = m) \<or>
        (ts_holds m' (ar_ServiceName req) (ar_Namespace req) = 0 \<and> allocs_of m' (ar_ServiceName req) (ar_Namespace req) = [])
    | (Panic, m') \<Rightarrow> ar_GPUCount req < 0 \<and> m' = m
    | (Blocked, m') \<Rightarrow> False"
proof (cases "gm_get (tm_pools m) (pi_Name pool)")
  case (Some c)
  show ?thesis
  proof (cases "ar_GPUCount req < 0")
    case False
    let ?loop = "TS_Allocate_loop e req (pi_Name pool) gpus 0 (nat (ar_GPUCount req)) c m []"
    have "TS_Allocate e m req pool gpus = ?loop" using Some False by (simp add: TS_Allocate_def)
    moreover note TS_Allocate_loop_books [OF assms(2) ts_reachable_ok [OF assms(1)] Some, where req = req and gpus = gpus and i = 0 and n = "nat (ar_GPUCount req)" and infos = "[]"]
    ultimately show ?thesis using False by (cases ?loop) (auto split: outcome.splits)
  qed (simp add: TS_Allocate_def Some)
qed (simp add: TS_Allocate_def)

theorem ts_allocate_books_witness:
  "fst (TS_Allocate ts_demo_env (ts_demo 100) (ts_demo_req ''a'' 2) ts_demo_info [ts_demo_gpu]) \<noteq> Panic \<and>
   int (ts_holds (ts_demo_alloc ''a'' 2 (ts_demo 100)) ''a'' ''ns'') = int (ts_holds (ts_demo 100) ''a'' ''ns'') + 2"
proof -
  have "is_ok (fst (TS_Allocate ts_demo_env (ts_demo 100) (ts_demo_req ''a'' 2) ts_demo_info [ts_demo_gpu]))"
    by (simp add: ts_demo_eval)
  then obtain infos m' where a: "TS_Allocate ts_demo_env (ts_demo 100) (ts_demo_req ''a'' 2) ts_demo_info [ts_demo_gpu] = (Ok infos, m')"
    by (metis is_ok_iff prod.collapse)
  from ts_allocate_books [OF ts_demo_reachable [of 100] ts_demo_env_ok, of "ts_demo_req ''a'' 2" ts_demo_info "[ts_demo_gpu]"]
  show ?thesis by (simp add: a ts_demo_alloc_def) (simp add: ts_demo_req_def)
qed

text \<open>
  Slot identifiers are not unique: they carry the number of slots on the GPU at the time,
  so after a release a service is given an identifier that one of its slots still has.
\<close>

theorem ts_slot_id_duplicate:
  "let m1 = ts_demo_alloc ''b'' 1 (ts_demo_alloc ''a'' 1 (ts_demo 100));
       m2 = ts_demo_alloc ''b'' 1 (TS_Release (\<lambda>_. 0) m1 ''a'' ''ns'')
   in map_option (\<lambda>g. map sl_SlotID (tg_Slots g)) (ts_gpu_at m2 ''p'' ''n1/0'') = Some [''slot-b-ns-1'', ''slot-b-ns-1'']"
proof -
  have ids: "map sl_SlotID (tg_Slots g) = map fst (cores g)" for g by (simp add: cores_def slot_core_def comp_def)
  have len: "length (tg_Slots (release_gpu impl T svc ns g)) = length (cores (release_gpu impl T svc ns g))" for impl T svc ns g
    by (simp add: cores_def)
  have nil: "cores \<lparr>tg_NodeName = a, tg_DeviceID = b, tg_SlotInterval = c, tg_Slots = [], tg_MaxSlots = d, tg_CurrentSlotIdx = e,
      tg_LastScheduled = f, tg_TotalAllocated = h\<rparr> = []" for a b c d e f h by (simp add: cores_def)
  have id: "slot_id (ts_demo_req ''b'' 1) (Suc 0) = ''slot-b-ns-1''" by code_simp
  show ?thesis
    by (simp add: ts_demo_eval TS_Release_def releaseSlots_def release_pool_def gm_map_def ids len release_gpu_cores
        add_slot_cores nil flat_cores_def id [unfolded ts_demo_req_def])
qed

end
