(* ===== verification/GpuManager.thy ===== *)
theory GpuManager
  imports Mig Mps Timeslice
begin

text \<open>
  The GPU manager, \<open>internal/gpu/manager.go\<close>: the pool registry, the dispatch of an allocation
  to the sub-manager of the requested sharing mode, exclusive allocation, release, status and
  health. \<open>Manager.gpus\<close> and the \<open>GPUs\<close> of a pool are pointers into one heap of \<open>GPUInfo\<close> objects.
  A Prometheus gauge write is a value (name, labels, value), the allocation counter is the list
  of its increments. \<open>fmt.Sscanf\<close> of the oversubscription ratio is the argument \<open>scan\<close>, which is
  given the string and the value the variable has before; nothing reads the ratio it leaves.
\<close>

section \<open>Data\<close>

record AllocationResult =
  res_Success :: bool
  res_Allocations :: "GPUAllocationInfo list"
  res_Error :: "gpu_error option"

record Manager =
  mg_gpus :: "(string, ptr) gomap"
  mg_pools :: "(string, PoolInfo) gomap"
  mg_mig :: MIGManager
  mg_mps :: MPSManager
  mg_ts :: TimesliceManager
  mg_stopCh_closed :: bool
  mg_allocationCounter :: "(string \<times> string) list"
  mg_heap :: "GPUInfo list"

type_synonym pool_ord = "(string, PoolInfo) gomap \<Rightarrow> (string, PoolInfo) gomap"

record gpu_env =
  ge_pools :: pool_ord
  ge_mig :: "string ptr_ord"
  ge_mps :: mps_env
  ge_ts :: ts_env
  ge_now :: "nat \<Rightarrow> timestamp"

definition gpu_env_ok :: "gpu_env \<Rightarrow> bool" where
  "gpu_env_ok e \<longleftrightarrow> range_ok (ge_pools e) \<and> range_ok (ge_mig e) \<and> mps_env_ok (ge_mps e) \<and> ts_env_ok (ge_ts e)"

definition NewManager :: Manager where
  "NewManager = \<lparr>mg_gpus = [], mg_pools = [], mg_mig = NewMIGManager, mg_mps = NewMPSManager,
     mg_ts = NewTimesliceManager, mg_stopCh_closed = False, mg_allocationCounter = [], mg_heap = []\<rparr>"

section \<open>Discovery and metrics\<close>

definition getPoolForGPU :: "pool_ord \<Rightarrow> Manager \<Rightarrow> GPUInfo \<Rightarrow> string" where
  "getPoolForGPU ord m gpu =
    (case find (\<lambda>(n, pool). \<exists>p \<in> set (pi_GPUs pool). gi_UUID (mg_heap m ! p) = gi_UUID gpu) (ord (mg_pools m)) of
       Some (n, pool) \<Rightarrow> n | None \<Rightarrow> ''default'')"

definition updateGPUMetrics :: "pool_ord \<Rightarrow> Manager \<Rightarrow> GPUInfo \<Rightarrow> (string \<times> string list \<times> gofloat) list" where
  "updateGPUMetrics ord m gpu =
    (let labels = [gi_NodeName gpu, gi_DeviceID gpu, getPoolForGPU ord m gpu];
         memUsed = wrap64 (gi_TotalMemory gpu - gi_AvailableMemory gpu)
     in [(''inference_gpu_utilization'', labels, f_of_int (gi_Utilization gpu)),
         (''inference_gpu_memory_used_bytes'', labels, f_of_int memUsed),
         (''inference_gpu_memory_total_bytes'', labels, f_of_int (gi_TotalMemory gpu)),
         (''inference_gpu_temperature_celsius'', labels, f_of_int (gi_Temperature gpu)),
         (''inference_gpu_power_usage_watts'', labels, f_of_int (gi_PowerUsage gpu))])"

definition discoverGPUs :: "pool_ord \<Rightarrow> string ptr_ord \<Rightarrow> Manager \<Rightarrow> (string \<times> string list \<times> gofloat) list" where
  "discoverGPUs pord gord m = concat (map (\<lambda>(k, p). updateGPUMetrics pord m (mg_heap m ! p)) (gord (mg_gpus m)))"

definition Manager_Start :: "Manager \<Rightarrow> Manager" where
  "Manager_Start m = m\<lparr>mg_mps := MPS_Start (mg_mps m), mg_ts := TS_Start (mg_ts m)\<rparr>"

definition Manager_Stop :: "Manager \<Rightarrow> (gpu_error, unit) outcome \<times> Manager" where
  "Manager_Stop m =
    (if mg_stopCh_closed m then (Panic, m)
     else let m1 = m\<lparr>mg_stopCh_closed := True\<rparr> in
       case MPS_Stop (mg_mps m1) of
         (Ok _, mps) \<Rightarrow> (case TS_Stop (mg_ts m1) of (r, ts) \<Rightarrow> (r, m1\<lparr>mg_mps := mps, mg_ts := ts\<rparr>))
       | (r, mps) \<Rightarrow> (r, m1\<lparr>mg_mps := mps\<rparr>))"

section \<open>Pools\<close>

definition pool_sharing_mode :: "GPUPool \<Rightarrow> GPUSharingMode" where
  "pool_sharing_mode pool = (case gps_Sharing (gp_Spec pool) of None \<Rightarrow> GPUSharingModeExclusive | Some sh \<Rightarrow> gss_Mode sh)"

definition pool_info :: "(string \<Rightarrow> gofloat \<Rightarrow> gofloat) \<Rightarrow> GPUPool \<Rightarrow> PoolInfo" where
  "pool_info scan pool =
     \<lparr>pi_Name = gp_Name pool, pi_NodeSelector = gps_NodeSelector (gp_Spec pool), pi_GPUType = gps_GPUType (gp_Spec pool),
      pi_SharingMode = pool_sharing_mode pool,
      pi_MIGProfiles = (case gps_Sharing (gp_Spec pool) of None \<Rightarrow> [] | Some sh \<Rightarrow> gss_Profiles sh),
      pi_OversubscriptionRatio = (case gps_Oversubscription (gp_Spec pool) of
          None \<Rightarrow> Fin 1 | Some o' \<Rightarrow> if os_Enabled o' then scan (os_Ratio o') (Fin 1) else Fin 1),
      pi_TotalGPUs = 0, pi_AvailableGPUs = 0, pi_GPUs = []\<rparr>"

definition wrap_configure :: "(gpu_error, unit) outcome \<Rightarrow> (gpu_error, unit) outcome" where
  "wrap_configure r = (case r of Err e \<Rightarrow> Err (ConfigureFailed e) | _ \<Rightarrow> r)"

definition RegisterPool :: "(string \<Rightarrow> gofloat \<Rightarrow> gofloat) \<Rightarrow> Manager \<Rightarrow> GPUPool \<Rightarrow> (gpu_error, unit) outcome \<times> Manager" where
  "RegisterPool scan m pool =
    (let m1 = m\<lparr>mg_pools := gm_set (gp_Name pool) (pool_info scan pool) (mg_pools m)\<rparr>;
         mode = pool_sharing_mode pool
     in if mode = GPUSharingModeMIG
        then (case MIG_ConfigurePool (mg_mig m1) pool of (r, s) \<Rightarrow> (wrap_configure r, m1\<lparr>mg_mig := s\<rparr>))
        else if mode = GPUSharingModeMPS
        then (case MPS_ConfigurePool (mg_mps m1) pool of (r, s) \<Rightarrow> (wrap_configure r, m1\<lparr>mg_mps := s\<rparr>))
        else if mode = GPUSharingModeTimeslice
        then (case TS_ConfigurePool (mg_ts m1) pool of (r, s) \<Rightarrow> (wrap_configure r, m1\<lparr>mg_ts := s\<rparr>))
        else (Ok (), m1))"

record cleanup_env =
  ce_mig :: "string ptr_ord"
  ce_mps :: daemon_ord
  ce_ts :: ts_gpu_ord

text \<open>An error of the sub-manager's \<open>CleanupPool\<close> is logged; the pool is deleted all the same.\<close>

definition UnregisterPool :: "cleanup_env \<Rightarrow> Manager \<Rightarrow> string \<Rightarrow> Manager" where
  "UnregisterPool e m poolName =
    (case gm_get (mg_pools m) poolName of
       None \<Rightarrow> m
     | Some pool \<Rightarrow>
         let mode = pi_SharingMode pool;
             m1 = (if mode = GPUSharingModeMIG then m\<lparr>mg_mig := snd (MIG_CleanupPool (ce_mig e) (mg_mig m) poolName)\<rparr>
                   else if mode = GPUSharingModeMPS then m\<lparr>mg_mps := snd (MPS_CleanupPool (ce_mps e) (mg_mps m) poolName)\<rparr>
                   else if mode = GPUSharingModeTimeslice then m\<lparr>mg_ts := snd (TS_CleanupPool (ce_ts e) (mg_ts m) poolName)\<rparr>
                   else m)
         in m1\<lparr>mg_pools := gm_del poolName (mg_pools m1)\<rparr>)"

section \<open>Allocation\<close>

fun findAvailableGPUs_loop :: "GPUInfo list \<Rightarrow> int \<Rightarrow> ptr list \<Rightarrow> ptr list \<Rightarrow> ptr list" where
  "findAvailableGPUs_loop h cnt available [] = available"
| "findAvailableGPUs_loop h cnt available (p # ps) =
    (if gi_Allocations (h ! p) = []
     then (if int (length (available @ [p])) \<ge> cnt then available @ [p]
           else findAvailableGPUs_loop h cnt (available @ [p]) ps)
     else findAvailableGPUs_loop h cnt available ps)"

definition findAvailableGPUs :: "Manager \<Rightarrow> PoolInfo \<Rightarrow> int \<Rightarrow> ptr list" where
  "findAvailableGPUs m pool cnt = findAvailableGPUs_loop (mg_heap m) cnt [] (pi_GPUs pool)"

definition exclusive_allocation :: "timestamp \<Rightarrow> AllocationRequest \<Rightarrow> GPUInfo \<Rightarrow> GPUInfo" where
  "exclusive_allocation now req gpu = gpu\<lparr>gi_Allocations := gi_Allocations gpu @
     [\<lparr>al_ServiceRef = ar_ServiceName req, al_Namespace = ar_Namespace req, al_AllocatedMemory = gi_TotalMemory gpu,
       al_AllocatedAt = now, al_SharingMode = GPUSharingModeExclusive\<rparr>]\<rparr>"

fun take_gpus :: "(nat \<Rightarrow> timestamp) \<Rightarrow> AllocationRequest \<Rightarrow> nat \<Rightarrow> ptr list \<Rightarrow> GPUInfo list \<Rightarrow> GPUInfo list" where
  "take_gpus now req i [] h = h"
| "take_gpus now req i (p # ps) h = take_gpus now req (Suc i) ps (h[p := exclusive_allocation (now i) req (h ! p)])"

definition exclusive_info :: "GPUInfo \<Rightarrow> GPUAllocationInfo" where
  "exclusive_info gpu = \<lparr>ai_NodeName = gi_NodeName gpu, ai_DeviceID = gi_DeviceID gpu, ai_MIGInstance = '''',
     ai_Memory = gi_TotalMemory gpu\<rparr>"

definition allocateExclusive :: "(nat \<Rightarrow> timestamp) \<Rightarrow> Manager \<Rightarrow> AllocationRequest \<Rightarrow> PoolInfo
    \<Rightarrow> (gpu_error, GPUAllocationInfo list) outcome \<times> Manager" where
  "allocateExclusive now m req pool =
    (if ar_GPUCount req < 0 then (Panic, m)
     else let availableGPUs = findAvailableGPUs m pool (ar_GPUCount req) in
       if int (length availableGPUs) < ar_GPUCount req
       then (Err (InsufficientGPUs (ar_GPUCount req) (int (length availableGPUs))), m)
       else let granted = take (nat (ar_GPUCount req)) availableGPUs in
         (Ok (map (\<lambda>p. exclusive_info (mg_heap m ! p)) granted),
          m\<lparr>mg_heap := take_gpus now req 0 granted (mg_heap m)\<rparr>))"

definition pool_suits :: "AllocationRequest \<Rightarrow> PoolInfo \<Rightarrow> bool" where
  "pool_suits req pool \<longleftrightarrow> (pi_GPUType pool = '''' \<or> pi_GPUType pool = ar_GPUType req) \<and>
     pi_SharingMode pool = ar_SharingMode req \<and> pi_AvailableGPUs pool \<ge> ar_GPUCount req"

definition findSuitablePool :: "pool_ord \<Rightarrow> Manager \<Rightarrow> AllocationRequest \<Rightarrow> PoolInfo option" where
  "findSuitablePool ord m req = map_option snd (find (\<lambda>(n, pool). pool_suits req pool) (ord (mg_pools m)))"

definition pool_gpus :: "Manager \<Rightarrow> PoolInfo \<Rightarrow> GPUInfo list" where
  "pool_gpus m pool = map (\<lambda>p. mg_heap m ! p) (pi_GPUs pool)"

definition dispatch :: "gpu_env \<Rightarrow> Manager \<Rightarrow> AllocationRequest \<Rightarrow> PoolInfo
    \<Rightarrow> (gpu_error, GPUAllocationInfo list) outcome \<times> Manager" where
  "dispatch e m req pool =
    (if ar_SharingMode req = GPUSharingModeMIG
     then (case MIG_Allocate (ge_mig e) (mg_mig m) req pool of (r, s) \<Rightarrow> (r, m\<lparr>mg_mig := s\<rparr>))
     else if ar_SharingMode req = GPUSharingModeMPS
     then (case MPS_Allocate (ge_mps e) (mg_mps m) req pool (pool_gpus m pool) of (r, s) \<Rightarrow> (r, m\<lparr>mg_mps := s\<rparr>))
     else if ar_SharingMode req = GPUSharingModeTimeslice
     then (case TS_Allocate (ge_ts e) (mg_ts m) req pool (pool_gpus m pool) of (r, s) \<Rightarrow> (r, m\<lparr>mg_ts := s\<rparr>))
     else allocateExclusive (ge_now e) m req pool)"

definition Manager_Allocate :: "gpu_env \<Rightarrow> Manager \<Rightarrow> AllocationRequest
    \<Rightarrow> (gpu_error, AllocationResult) outcome \<times> Manager" where
  "Manager_Allocate e m req =
    (case (case gm_get (mg_pools m) (ar_PoolName req) of Some pool \<Rightarrow> Some pool | None \<Rightarrow> findSuitablePool (ge_pools e) m req) of
       None \<Rightarrow> (Err NoSuitablePool, m)
     | Some pool \<Rightarrow>
         (case dispatch e m req pool of
            (Ok allocations, m') \<Rightarrow>
              (Ok \<lparr>res_Success = True, res_Allocations = allocations, res_Error = None\<rparr>,
               m'\<lparr>mg_allocationCounter := mg_allocationCounter m' @ [(pi_Name pool, ar_SharingMode req)]\<rparr>)
          | (Err err, m') \<Rightarrow> (Err err, m')
          | (Panic, m') \<Rightarrow> (Panic, m')
          | (Blocked, m') \<Rightarrow> (Blocked, m')))"

section \<open>Release, status and health\<close>

definition drop_allocations :: "string \<Rightarrow> string \<Rightarrow> GPUInfo \<Rightarrow> GPUInfo" where
  "drop_allocations serviceName namespace gpu = gpu\<lparr>gi_Allocations :=
     filter (\<lambda>a. al_ServiceRef a \<noteq> serviceName \<or> al_Namespace a \<noteq> namespace) (gi_Allocations gpu)\<rparr>"

definition Manager_Release :: "Manager \<Rightarrow> string \<Rightarrow> string \<Rightarrow> Manager" where
  "Manager_Release m serviceName namespace =
     m\<lparr>mg_heap := heap_upd (drop_allocations serviceName namespace) (gm_vals (mg_gpus m)) (mg_heap m)\<rparr>"

definition group_by_node :: "GPUInfo list \<Rightarrow> (string, GPUInfo list) gomap" where
  "group_by_node gpus = fold (\<lambda>g m. gm_set (gi_NodeName g)
     ((case gm_get m (gi_NodeName g) of None \<Rightarrow> [] | Some gs \<Rightarrow> gs) @ [g]) m) gpus []"

definition device_status :: "GPUInfo \<Rightarrow> GPUDeviceStatus" where
  "device_status g = \<lparr>gds_DeviceID = gi_DeviceID g, gds_UUID = gi_UUID g, gds_Model = gi_Model g,
     gds_TotalMemory = gi_TotalMemory g, gds_AvailableMemory = gi_AvailableMemory g,
     gds_Utilization = gi_Utilization g, gds_Temperature = gi_Temperature g, gds_PowerUsage = gi_PowerUsage g,
     gds_MIGEnabled = gi_MIGEnabled g, gds_MIGInstances = [], gds_Allocations = []\<rparr>"

definition node_status :: "string \<Rightarrow> GPUInfo list \<Rightarrow> GPUNodeStatus" where
  "node_status nodeName gpus = \<lparr>gns_NodeName = nodeName, gns_TotalGPUs = wrap32 (int (length gpus)),
     gns_AvailableGPUs = wrap32 (int (length (filter (\<lambda>g. gi_Allocations g = []) gpus))),
     gns_GPUs = map device_status gpus\<rparr>"

definition GetPoolStatus :: "((string, GPUInfo list) gomap \<Rightarrow> (string, GPUInfo list) gomap) \<Rightarrow> Manager \<Rightarrow> string
    \<Rightarrow> (gpu_error, GPUPoolStatus) outcome" where
  "GetPoolStatus ord m poolName =
    (case gm_get (mg_pools m) poolName of
       None \<Rightarrow> Err (PoolNotFound poolName)
     | Some pool \<Rightarrow> Ok \<lparr>gst_Phase = GPUPoolPhaseReady, gst_TotalGPUs = pi_TotalGPUs pool,
         gst_AvailableGPUs = pi_AvailableGPUs pool, gst_AllocatedGPUs = wrap32 (pi_TotalGPUs pool - pi_AvailableGPUs pool),
         gst_TotalMemory = 0, gst_AvailableMemory = 0,
         gst_Nodes = map (\<lambda>(n, gs). node_status n gs) (ord (group_by_node (pool_gpus m pool))),
         gst_Conditions = [], gst_LastSyncTime = None, gst_ObservedGeneration = 0\<rparr>)"

definition GetGPUInfo :: "Manager \<Rightarrow> string \<Rightarrow> string \<Rightarrow> (gpu_error, GPUInfo) outcome" where
  "GetGPUInfo m nodeName deviceID =
    (case gm_get (mg_gpus m) (gpu_key nodeName deviceID) of
       None \<Rightarrow> Err (GPUNotFound (gpu_key nodeName deviceID)) | Some p \<Rightarrow> Ok (mg_heap m ! p))"

definition ListGPUs :: "string ptr_ord \<Rightarrow> Manager \<Rightarrow> GPUInfo list" where
  "ListGPUs ord m = map (\<lambda>(k, p). mg_heap m ! p) (ord (mg_gpus m))"

definition HealthCheck :: "string ptr_ord \<Rightarrow> Manager \<Rightarrow> (gpu_error, unit) outcome" where
  "HealthCheck ord m =
    (case find (\<lambda>(k, p). gi_AvailableMemory (mg_heap m ! p) < 0) (ord (mg_gpus m)) of
       Some (k, p) \<Rightarrow> Err (InvalidMemoryState k) | None \<Rightarrow> Ok ())"

section \<open>Well-formedness\<close>

text \<open>
  Pointers are in range, the GPUs of a pool are distinct objects, the index files a GPU under
  its node and device, and no GPU is handed out twice.
\<close>

definition pool_ok :: "GPUInfo list \<Rightarrow> PoolInfo \<Rightarrow> bool" where
  "pool_ok h pool \<longleftrightarrow> distinct (pi_GPUs pool) \<and> (\<forall>p \<in> set (pi_GPUs pool). p < length h)"

definition gpu_ok :: "Manager \<Rightarrow> bool" where
  "gpu_ok m \<longleftrightarrow> gm_ok (mg_pools m) \<and> (\<forall>(n, pool) \<in> set (mg_pools m). pool_ok (mg_heap m) pool) \<and>
     ix_ok (\<lambda>g. gpu_key (gi_NodeName g) (gi_DeviceID g)) (mg_heap m) (mg_gpus m) \<and>
     (\<forall>g \<in> set (mg_heap m). length (gi_Allocations g) \<le> 1) \<and>
     mig_ok (mg_mig m) \<and> mps_ok (mg_mps m) \<and> ts_ok (mg_ts m)"

lemma gpu_ok_pool: "gpu_ok m \<Longrightarrow> gm_get (mg_pools m) n = Some pool \<Longrightarrow> pool_ok (mg_heap m) pool"
  by (auto simp: gpu_ok_def dest: gm_get_mem)

lemma gpu_ok_heap:
  assumes "gpu_ok m" and "length h = length (mg_heap m)"
    and "\<And>i. i < length h \<Longrightarrow> gi_NodeName (h ! i) = gi_NodeName (mg_heap m ! i) \<and>
      gi_DeviceID (h ! i) = gi_DeviceID (mg_heap m ! i) \<and> length (gi_Allocations (h ! i)) \<le> 1"
  shows "gpu_ok (m\<lparr>mg_heap := h\<rparr>)"
proof -
  have "ix_ok (\<lambda>g. gpu_key (gi_NodeName g) (gi_DeviceID g)) h (mg_gpus m)"
    by (rule ix_ok_cong [of _ "mg_heap m"]) (use assms in \<open>auto simp: gpu_ok_def\<close>)
  moreover have "\<forall>g \<in> set h. length (gi_Allocations g) \<le> 1" using assms(3) by (metis in_set_conv_nth)
  ultimately show ?thesis using assms(1,2) by (auto simp: gpu_ok_def pool_ok_def)
qed

section \<open>Exclusive allocation\<close>

lemma findAvailableGPUs_loop_subset:
  "set (findAvailableGPUs_loop h c av ps) \<subseteq> set av \<union> {p \<in> set ps. gi_Allocations (h ! p) = []}"
  by (induction h c av ps rule: findAvailableGPUs_loop.induct) auto

lemma findAvailableGPUs_loop_distinct:
  "distinct av \<Longrightarrow> distinct ps \<Longrightarrow> set av \<inter> set ps = {} \<Longrightarrow> distinct (findAvailableGPUs_loop h c av ps)"
  by (induction h c av ps rule: findAvailableGPUs_loop.induct) auto

lemma findAvailableGPUs_loop_complete:
  "int (length (findAvailableGPUs_loop h c av ps)) < c \<Longrightarrow>
    findAvailableGPUs_loop h c av ps = av @ filter (\<lambda>p. gi_Allocations (h ! p) = []) ps"
  by (induction h c av ps rule: findAvailableGPUs_loop.induct) (auto split: if_splits)

lemma take_gpus_nth:
  "distinct ps \<Longrightarrow> \<forall>p \<in> set ps. p < length h \<Longrightarrow> q < length h \<Longrightarrow>
    take_gpus now req i ps h ! q = (if q \<in> set ps
      then exclusive_allocation (now (i + length (takeWhile (\<lambda>p. p \<noteq> q) ps))) req (h ! q) else h ! q)"
proof (induction ps arbitrary: i h)
  case (Cons p ps)
  then show ?case by (cases "p = q") (auto simp: nth_list_update)
qed simp

lemma length_take_gpus [simp]: "length (take_gpus now req i ps h) = length h"
  by (induction ps arbitrary: i h) auto

text \<open>What an exclusive grant of the GPUs \<open>ps\<close> does to the heap.\<close>

definition granted_gpus :: "Manager \<Rightarrow> AllocationRequest \<Rightarrow> PoolInfo \<Rightarrow> ptr list \<Rightarrow> Manager \<Rightarrow> bool" where
  "granted_gpus m req pool ps m' \<longleftrightarrow> distinct ps \<and> set ps \<subseteq> set (pi_GPUs pool) \<and> length (mg_heap m') = length (mg_heap m) \<and>
     (\<forall>p \<in> set ps. gi_Allocations (mg_heap m ! p) = [] \<and>
        map al_ServiceRef (gi_Allocations (mg_heap m' ! p)) = [ar_ServiceName req] \<and>
        map al_Namespace (gi_Allocations (mg_heap m' ! p)) = [ar_Namespace req]) \<and>
     (\<forall>p < length (mg_heap m). p \<notin> set ps \<longrightarrow> mg_heap m' ! p = mg_heap m ! p)"

lemma allocateExclusive_cases:
  assumes "pool_ok (mg_heap m) pool" and "0 \<le> ar_GPUCount req"
  shows "(allocateExclusive now m req pool =
      (Err (InsufficientGPUs (ar_GPUCount req) (int (length (filter (\<lambda>p. gi_Allocations (mg_heap m ! p) = []) (pi_GPUs pool))))), m)
      \<and> int (length (filter (\<lambda>p. gi_Allocations (mg_heap m ! p) = []) (pi_GPUs pool))) < ar_GPUCount req) \<or>
    (\<exists>ps h. allocateExclusive now m req pool = (Ok (map (\<lambda>p. exclusive_info (mg_heap m ! p)) ps), m\<lparr>mg_heap := h\<rparr>) \<and>
      int (length ps) = ar_GPUCount req \<and> granted_gpus m req pool ps (m\<lparr>mg_heap := h\<rparr>) \<and> h = take_gpus now req 0 ps (mg_heap m))"
proof -
  let ?av = "findAvailableGPUs m pool (ar_GPUCount req)"
  let ?ps = "take (nat (ar_GPUCount req)) ?av"
  have sub: "set ?av \<subseteq> {p \<in> set (pi_GPUs pool). gi_Allocations (mg_heap m ! p) = []}"
    using findAvailableGPUs_loop_subset [of "mg_heap m" "ar_GPUCount req" "[]" "pi_GPUs pool"] by (simp add: findAvailableGPUs_def)
  have d: "distinct ?av"
    using findAvailableGPUs_loop_distinct [of "[]" "pi_GPUs pool" "mg_heap m" "ar_GPUCount req"] assms(1)
    by (simp add: findAvailableGPUs_def pool_ok_def)
  show ?thesis
  proof (cases "int (length ?av) < ar_GPUCount req")
    case True
    with findAvailableGPUs_loop_complete [of "mg_heap m" "ar_GPUCount req" "[]" "pi_GPUs pool"]
    have "?av = filter (\<lambda>p. gi_Allocations (mg_heap m ! p) = []) (pi_GPUs pool)" by (simp add: findAvailableGPUs_def)
    with True assms(2) show ?thesis by (simp add: allocateExclusive_def Let_def)
  next
    case False
    let ?h = "take_gpus now req 0 ?ps (mg_heap m)"
    have "set ?ps \<subseteq> {p \<in> set (pi_GPUs pool). gi_Allocations (mg_heap m ! p) = []}" "distinct ?ps"
      using sub d set_take_subset [of "nat (ar_GPUCount req)" ?av] by auto
    moreover from this have "\<forall>p \<in> set ?ps. p < length (mg_heap m)" using assms(1) by (auto simp: pool_ok_def)
    ultimately have "granted_gpus m req pool ?ps (m\<lparr>mg_heap := ?h\<rparr>)"
      unfolding granted_gpus_def by (auto simp: take_gpus_nth exclusive_allocation_def)
    with False assms(2) show ?thesis by (auto simp: allocateExclusive_def Let_def)
  qed
qed

lemma take_gpus_ok:
  assumes "gpu_ok m" and "granted_gpus m req pool ps (m\<lparr>mg_heap := take_gpus now req 0 ps (mg_heap m)\<rparr>)" and "pool_ok (mg_heap m) pool"
  shows "gpu_ok (m\<lparr>mg_heap := take_gpus now req 0 ps (mg_heap m)\<rparr>)"
proof (rule gpu_ok_heap [OF assms(1)])
  fix i assume i: "i < length (take_gpus now req 0 ps (mg_heap m))"
  have d: "distinct ps" "\<forall>p \<in> set ps. p < length (mg_heap m)" using assms(2,3) by (auto simp: granted_gpus_def pool_ok_def)
  have "length (gi_Allocations (mg_heap m ! i)) \<le> 1" using assms(1) i by (auto simp: gpu_ok_def)
  moreover have "i \<in> set ps \<Longrightarrow> gi_Allocations (mg_heap m ! i) = []" using assms(2) by (auto simp: granted_gpus_def)
  ultimately show "gi_NodeName (take_gpus now req 0 ps (mg_heap m) ! i) = gi_NodeName (mg_heap m ! i) \<and>
      gi_DeviceID (take_gpus now req 0 ps (mg_heap m) ! i) = gi_DeviceID (mg_heap m ! i) \<and>
      length (gi_Allocations (take_gpus now req 0 ps (mg_heap m) ! i)) \<le> 1"
    using i by (simp add: take_gpus_nth [OF d] exclusive_allocation_def)
qed simp

section \<open>Every operation keeps well-formedness\<close>

lemma pool_ok_new [simp]: "pool_ok h (pool_info scan pool)"
  by (simp add: pool_ok_def pool_info_def)

lemma gpu_ok_set_pool: "gpu_ok m \<Longrightarrow> pool_ok (mg_heap m) pool \<Longrightarrow> gpu_ok (m\<lparr>mg_pools := gm_set n pool (mg_pools m)\<rparr>)"
  using set_gm_set_subset [of n pool "mg_pools m"] by (auto simp: gpu_ok_def gm_ok_update)

lemma gpu_ok_subs:
  "gpu_ok m \<Longrightarrow> mig_ok s \<Longrightarrow> gpu_ok (m\<lparr>mg_mig := s\<rparr>)"
  "gpu_ok m \<Longrightarrow> mps_ok t \<Longrightarrow> gpu_ok (m\<lparr>mg_mps := t\<rparr>)"
  "gpu_ok m \<Longrightarrow> ts_ok u \<Longrightarrow> gpu_ok (m\<lparr>mg_ts := u\<rparr>)"
  by (auto simp: gpu_ok_def)

lemma gpu_ok_subD: "gpu_ok m \<Longrightarrow> mig_ok (mg_mig m)" "gpu_ok m \<Longrightarrow> mps_ok (mg_mps m)" "gpu_ok m \<Longrightarrow> ts_ok (mg_ts m)"
  by (auto simp: gpu_ok_def)

lemma RegisterPool_ok [inv_intros]:
  assumes "gpu_ok m"
  shows "gpu_ok (snd (RegisterPool scan m pool))"
proof -
  let ?m = "m\<lparr>mg_pools := gm_set (gp_Name pool) (pool_info scan pool) (mg_pools m)\<rparr>"
  have m: "gpu_ok ?m" using assms by (intro gpu_ok_set_pool) simp_all
  show ?thesis using m gpu_ok_subD [OF assms]
    by (auto simp: RegisterPool_def Let_def split: prod.splits
        intro!: gpu_ok_subs dest: MIG_ConfigurePool_ok MPS_ConfigurePool_ok TS_ConfigurePool_ok
        simp del: MIG_ConfigurePool_def)
      (metis MIG_ConfigurePool_ok MPS_ConfigurePool_ok TS_ConfigurePool_ok snd_conv)+
qed

definition cleanup_env_ok :: "cleanup_env \<Rightarrow> bool" where
  "cleanup_env_ok e \<longleftrightarrow> range_ok (ce_mig e) \<and> range_ok (ce_mps e) \<and> range_ok (ce_ts e)"

lemma UnregisterPool_ok [inv_intros]:
  assumes "gpu_ok m" and "cleanup_env_ok e"
  shows "gpu_ok (UnregisterPool e m n)"
proof -
  have del: "gpu_ok s \<Longrightarrow> gpu_ok (s\<lparr>mg_pools := gm_del n (mg_pools s)\<rparr>)" for s
    using set_gm_del_subset [of n "mg_pools s"] by (auto simp: gpu_ok_def gm_ok_delete)
  have "gpu_ok (m\<lparr>mg_mig := snd (MIG_CleanupPool (ce_mig e) (mg_mig m) n)\<rparr>)"
    "gpu_ok (m\<lparr>mg_mps := snd (MPS_CleanupPool (ce_mps e) (mg_mps m) n)\<rparr>)"
    "gpu_ok (m\<lparr>mg_ts := snd (TS_CleanupPool (ce_ts e) (mg_ts m) n)\<rparr>)"
    using assms gpu_ok_subD [OF assms(1)] by (auto simp: cleanup_env_ok_def intro!: gpu_ok_subs inv_intros)
  then show ?thesis using assms(1) del by (auto simp: UnregisterPool_def Let_def split: option.splits)
qed

lemma dispatch_ok:
  assumes "gpu_ok m" and "gpu_env_ok e" and "pool_ok (mg_heap m) pool"
  shows "gpu_ok (snd (dispatch e m req pool))"
proof -
  have "gpu_ok (m\<lparr>mg_mig := snd (MIG_Allocate (ge_mig e) (mg_mig m) req pool)\<rparr>)"
    "gpu_ok (m\<lparr>mg_mps := snd (MPS_Allocate (ge_mps e) (mg_mps m) req pool (pool_gpus m pool))\<rparr>)"
    "gpu_ok (m\<lparr>mg_ts := snd (TS_Allocate (ge_ts e) (mg_ts m) req pool (pool_gpus m pool))\<rparr>)"
    using assms gpu_ok_subD [OF assms(1)] by (auto simp: gpu_env_ok_def intro!: gpu_ok_subs inv_intros)
  moreover have "gpu_ok (snd (allocateExclusive (ge_now e) m req pool))"
  proof (cases "ar_GPUCount req < 0")
    case False
    then show ?thesis using allocateExclusive_cases [OF assms(3), of req "ge_now e"] take_gpus_ok [OF assms(1) _ assms(3)] assms(1)
      by auto
  qed (simp add: allocateExclusive_def assms(1))
  ultimately show ?thesis by (auto simp: dispatch_def split_beta)
qed

lemma chosen_pool:
  assumes "gpu_env_ok e"
    and "(case gm_get (mg_pools m) (ar_PoolName req) of Some pool \<Rightarrow> Some pool | None \<Rightarrow> findSuitablePool (ge_pools e) m req) = Some pool"
  shows "\<exists>n. (n, pool) \<in> set (mg_pools m)"
  using assms range_ok_set [of "ge_pools e" "mg_pools m"]
  by (auto simp: findSuitablePool_def gpu_env_ok_def split: option.splits dest!: find_Some_in gm_get_mem)

lemma Manager_Allocate_ok [inv_intros]:
  assumes "gpu_ok m" and "gpu_env_ok e"
  shows "gpu_ok (snd (Manager_Allocate e m req))"
proof -
  let ?pool = "case gm_get (mg_pools m) (ar_PoolName req) of Some pool \<Rightarrow> Some pool | None \<Rightarrow> findSuitablePool (ge_pools e) m req"
  show ?thesis
  proof (cases ?pool)
    case (Some pool)
    have "pool_ok (mg_heap m) pool" using chosen_pool [OF assms(2) Some] assms(1) by (auto simp: gpu_ok_def)
    from dispatch_ok [OF assms this, of req]
    show ?thesis using Some by (cases "dispatch e m req pool") (auto simp: Manager_Allocate_def gpu_ok_def split: outcome.splits)
  qed (simp add: Manager_Allocate_def assms(1))
qed

lemma Manager_Release_ok [inv_intros]:
  assumes "gpu_ok m"
  shows "gpu_ok (Manager_Release m svc ns)"
  unfolding Manager_Release_def
proof (rule gpu_ok_heap [OF assms], simp)
  let ?h = "heap_upd (drop_allocations svc ns) (gm_vals (mg_gpus m)) (mg_heap m)"
  fix i assume "i < length ?h"
  moreover from this have "length (gi_Allocations (mg_heap m ! i)) \<le> 1" using assms by (auto simp: gpu_ok_def)
  ultimately show "gi_NodeName (?h ! i) = gi_NodeName (mg_heap m ! i) \<and> gi_DeviceID (?h ! i) = gi_DeviceID (mg_heap m ! i) \<and>
      length (gi_Allocations (?h ! i)) \<le> 1"
    by (auto simp: nth_heap_upd drop_allocations_def intro: le_trans [OF length_filter_le])
qed

inductive gpu_step :: "Manager \<Rightarrow> Manager \<Rightarrow> bool" where
  start: "gpu_step m (Manager_Start m)"
| stop: "gpu_step m (snd (Manager_Stop m))"
| register: "gpu_step m (snd (RegisterPool scan m pool))"
| unregister: "cleanup_env_ok ce \<Longrightarrow> gpu_step m (UnregisterPool ce m n)"
| allocate: "gpu_env_ok e \<Longrightarrow> gpu_step m (snd (Manager_Allocate e m req))"
| release: "gpu_step m (Manager_Release m svc ns)"
| schedule: "gpu_step m (m\<lparr>mg_ts := runScheduler es (mg_ts m)\<rparr>)"

inductive gpu_reachable :: "Manager \<Rightarrow> bool" where
  new: "gpu_reachable NewManager"
| step: "gpu_reachable m \<Longrightarrow> gpu_step m m' \<Longrightarrow> gpu_reachable m'"

lemma stop_ok:
  "mps_ok m \<Longrightarrow> mps_ok (snd (MPS_Stop m))" "mps_ok m \<Longrightarrow> mps_ok (MPS_Start m)"
  "ts_ok t \<Longrightarrow> ts_ok (snd (TS_Stop t))" "ts_ok t \<Longrightarrow> ts_ok (TS_Start t)"
  by (fact mps_step_ok [OF mps_step.stop] mps_step_ok [OF mps_step.start] ts_step_ok [OF ts_step.stop] ts_step_ok [OF ts_step.start])+

lemma Manager_Stop_ok: "gpu_ok m \<Longrightarrow> gpu_ok (snd (Manager_Stop m))"
proof -
  assume ok: "gpu_ok m"
  obtain r mps r' ts where s: "MPS_Stop (mg_mps m) = (r, mps)" "TS_Stop (mg_ts m) = (r', ts)" by fastforce
  have "mps_ok mps" "ts_ok ts"
    using stop_ok(1) [OF gpu_ok_subD(2) [OF ok]] stop_ok(3) [OF gpu_ok_subD(3) [OF ok]] s by simp_all
  moreover have "gpu_ok (m\<lparr>mg_stopCh_closed := True\<rparr>)" using ok by (simp add: gpu_ok_def)
  ultimately have "gpu_ok (m\<lparr>mg_stopCh_closed := True, mg_mps := mps\<rparr>)"
    "gpu_ok (m\<lparr>mg_stopCh_closed := True, mg_mps := mps, mg_ts := ts\<rparr>)" by (blast intro: gpu_ok_subs)+
  then show ?thesis using ok s by (cases r) (simp_all add: Manager_Stop_def Let_def)
qed

lemma gpu_step_ok: "gpu_step m m' \<Longrightarrow> gpu_ok m \<Longrightarrow> gpu_ok m'"
proof (induction rule: gpu_step.induct)
  case (start m)
  then show ?case using gpu_ok_subD [OF start] stop_ok by (simp add: Manager_Start_def gpu_ok_def)
next
  case (stop m)
  then show ?case by (rule Manager_Stop_ok)
next
  case (schedule m es)
  then show ?case using gpu_ok_subD(3) by (blast intro: gpu_ok_subs(3) inv_intros)
qed (blast intro: inv_intros)+

lemma gpu_reachable_ok: "gpu_reachable m \<Longrightarrow> gpu_ok m"
proof (induction rule: gpu_reachable.induct)
  case new
  show ?case using mig_ok_new mps_reachable_ok [OF mps_reachable.new] ts_reachable_ok [OF ts_reachable.new]
    by (simp add: NewManager_def gpu_ok_def)
next
  case (step m m')
  then show ?case by (blast intro: gpu_step_ok)
qed

section \<open>No GPU ever enters the books\<close>

text \<open>
  Discovery is a stub: no operation of the manager adds a GPU to a pool. So the pools stay
  empty, and with them the daemons of the MPS manager and the GPUs of the time-slice manager.
\<close>

definition mps_empty :: "MPSManager \<Rightarrow> bool" where
  "mps_empty s \<longleftrightarrow> (\<forall>(n, c) \<in> set (ms_pools s). mcf_Daemons c = [])"

definition ts_empty :: "TimesliceManager \<Rightarrow> bool" where
  "ts_empty s \<longleftrightarrow> (\<forall>(n, c) \<in> set (tm_pools s). tcf_GPUs c = [])"

definition no_gpus :: "Manager \<Rightarrow> bool" where
  "no_gpus m \<longleftrightarrow> (\<forall>(n, pool) \<in> set (mg_pools m). pi_GPUs pool = [] \<and> pi_AvailableGPUs pool = 0) \<and>
     mps_empty (mg_mps m) \<and> ts_empty (mg_ts m)"

lemma range_ok_Nil: "range_ok ord \<Longrightarrow> ord [] = []"
  using range_ok_length [of ord "[]"] by simp

lemma mps_empty_allocate:
  assumes "mps_empty s" and "mps_env_ok e"
  shows "mps_empty (snd (MPS_Allocate e s req pool []))"
    and "0 < ar_GPUCount req \<Longrightarrow> \<not> is_ok (fst (MPS_Allocate e s req pool []))"
proof -
  have loop: "MPS_Allocate_loop e req pn [] 0 n c s infos = (if n = 0 then Ok infos else Err NoAvailableGPUs, s)"
    if "mcf_Daemons c = []" for pn n c infos
    using that range_ok_Nil [of "me_ord e 0"] assms(2) by (cases n) (simp_all add: findOrCreateDaemon_def mps_env_ok_def)
  have c: "gm_get (ms_pools s) n = Some c \<Longrightarrow> mcf_Daemons c = []" for n c
    using assms(1) by (auto simp: mps_empty_def dest: gm_get_mem)
  show "mps_empty (snd (MPS_Allocate e s req pool []))"
    using assms(1) c loop by (auto simp: MPS_Allocate_def split: option.splits)
  show "0 < ar_GPUCount req \<Longrightarrow> \<not> is_ok (fst (MPS_Allocate e s req pool []))"
    using c loop by (auto simp: MPS_Allocate_def split: option.splits)
qed

lemma ts_empty_release: "ts_empty s \<Longrightarrow> ts_empty (releaseSlots impl s svc ns)"
  by (auto simp: ts_empty_def releaseSlots_def release_pool_def gm_map_def)

lemma ts_empty_allocate:
  assumes "ts_empty s" and "ts_env_ok e"
  shows "ts_empty (snd (TS_Allocate e s req pool []))"
    and "0 < ar_GPUCount req \<Longrightarrow> \<not> is_ok (fst (TS_Allocate e s req pool []))"
proof -
  have loop: "TS_Allocate_loop e req pn [] 0 n c s infos =
      (if n = 0 then (Ok infos, s\<lparr>tm_schedulerCh := True\<rparr>)
       else (Err NoAvailableGPUs, releaseSlots (te_impl e) s (ar_ServiceName req) (ar_Namespace req)))"
    if "tcf_GPUs c = []" for pn n c infos
    using that range_ok_Nil [of "te_ord e 0"] assms(2)
    by (cases n) (simp_all add: findOrCreateTimesliceGPU_def ts_env_ok_def)
  have c: "gm_get (tm_pools s) n = Some c \<Longrightarrow> tcf_GPUs c = []" for n c
    using assms(1) by (auto simp: ts_empty_def dest: gm_get_mem)
  have e: "ts_empty (s\<lparr>tm_schedulerCh := True\<rparr>)" using assms(1) by (simp add: ts_empty_def)
  show "ts_empty (snd (TS_Allocate e s req pool []))"
    using assms(1) c loop e ts_empty_release [OF assms(1)] by (auto simp: TS_Allocate_def split: option.splits)
  show "0 < ar_GPUCount req \<Longrightarrow> \<not> is_ok (fst (TS_Allocate e s req pool []))"
    using c loop by (auto simp: TS_Allocate_def split: option.splits)
qed

lemma ts_empty_run: "ts_empty s \<Longrightarrow> ts_empty (runScheduler es s)"
proof (induction es s rule: runScheduler.induct)
  case (4 now es m)
  then show ?case by (simp add: ts_empty_def scheduleSlots_def schedule_pool_def gm_map_def split_beta)
next
  case (5 now es m)
  then show ?case by (simp add: ts_empty_def scheduleSlots_def schedule_pool_def gm_map_def split_beta)
qed simp_all

lemma no_gpus_dispatch:
  assumes "no_gpus m" and "gpu_env_ok e" and "pi_GPUs pool = []"
  shows "no_gpus (snd (dispatch e m req pool))"
    and "0 < ar_GPUCount req \<Longrightarrow> ar_SharingMode req \<noteq> GPUSharingModeMIG \<Longrightarrow> \<not> is_ok (fst (dispatch e m req pool))"
proof -
  have g: "pool_gpus m pool = []" by (simp add: pool_gpus_def assms(3))
  have s: "mps_empty (mg_mps m)" "ts_empty (mg_ts m)" "mps_env_ok (ge_mps e)" "ts_env_ok (ge_ts e)"
    using assms(1,2) by (auto simp: no_gpus_def gpu_env_ok_def)
  note a = mps_empty_allocate [OF s(1,3)] ts_empty_allocate [OF s(2,4)]
  have x: "no_gpus (snd (allocateExclusive (ge_now e) m req pool))"
    "0 < ar_GPUCount req \<Longrightarrow> \<not> is_ok (fst (allocateExclusive (ge_now e) m req pool))"
    using assms(1,3) by (auto simp: allocateExclusive_def findAvailableGPUs_def Let_def no_gpus_def)
  have "no_gpus (m\<lparr>mg_mig := u\<rparr>)" for u using assms(1) by (simp add: no_gpus_def)
  then show "no_gpus (snd (dispatch e m req pool))"
    using x(1) a(1,3) assms(1) by (auto simp: dispatch_def split_beta g no_gpus_def)
  show "0 < ar_GPUCount req \<Longrightarrow> ar_SharingMode req \<noteq> GPUSharingModeMIG \<Longrightarrow> \<not> is_ok (fst (dispatch e m req pool))"
    using x(2) a(2,4) by (simp add: dispatch_def split_beta g)
qed

lemma no_gpus_allocate:
  assumes "no_gpus m" and "gpu_env_ok e"
  shows "no_gpus (snd (Manager_Allocate e m req))"
    and "0 < ar_GPUCount req \<Longrightarrow> is_ok (fst (Manager_Allocate e m req)) \<Longrightarrow> ar_SharingMode req = GPUSharingModeMIG"
proof -
  let ?pool = "case gm_get (mg_pools m) (ar_PoolName req) of Some pool \<Rightarrow> Some pool | None \<Rightarrow> findSuitablePool (ge_pools e) m req"
  have "no_gpus (snd (Manager_Allocate e m req)) \<and>
    (0 < ar_GPUCount req \<longrightarrow> is_ok (fst (Manager_Allocate e m req)) \<longrightarrow> ar_SharingMode req = GPUSharingModeMIG)"
  proof (cases ?pool)
    case (Some pool)
    then have "pi_GPUs pool = []" using chosen_pool [OF assms(2) Some] assms(1) by (auto simp: no_gpus_def)
    note d = no_gpus_dispatch [OF assms this, of req]
    obtain r m' where r: "dispatch e m req pool = (r, m')" by fastforce
    then show ?thesis using Some d by (cases r) (auto simp: Manager_Allocate_def no_gpus_def)
  qed (simp add: Manager_Allocate_def assms(1))
  then show "no_gpus (snd (Manager_Allocate e m req))"
    and "0 < ar_GPUCount req \<Longrightarrow> is_ok (fst (Manager_Allocate e m req)) \<Longrightarrow> ar_SharingMode req = GPUSharingModeMIG" by auto
qed

lemma no_gpus_register: "no_gpus m \<Longrightarrow> no_gpus (snd (RegisterPool scan m pool))"
proof -
  assume m: "no_gpus m"
  let ?m = "m\<lparr>mg_pools := gm_set (gp_Name pool) (pool_info scan pool) (mg_pools m)\<rparr>"
  have 1: "no_gpus ?m"
    using m set_gm_set_subset [of "gp_Name pool" "pool_info scan pool" "mg_pools m"] by (auto simp: no_gpus_def pool_info_def)
  have "mps_empty (snd (MPS_ConfigurePool (mg_mps m) pool))"
    using m set_gm_set_subset [of "gp_Name pool" _ "ms_pools (mg_mps m)"]
    by (fastforce simp: no_gpus_def mps_empty_def MPS_ConfigurePool_def split: option.splits)
  moreover have "ts_empty (snd (TS_ConfigurePool (mg_ts m) pool))"
    using m set_gm_set_subset [of "gp_Name pool" _ "tm_pools (mg_ts m)"]
    by (fastforce simp: no_gpus_def ts_empty_def TS_ConfigurePool_def Let_def split: option.splits)
  ultimately show ?thesis using 1 by (auto simp: RegisterPool_def Let_def split_beta no_gpus_def)
qed

lemma no_gpus_unregister: "no_gpus m \<Longrightarrow> no_gpus (UnregisterPool ce m n)"
proof -
  assume m: "no_gpus m"
  have "mps_empty (snd (MPS_CleanupPool (ce_mps ce) (mg_mps m) n))"
    using m set_gm_del_subset [of n "ms_pools (mg_mps m)"]
    by (auto simp: no_gpus_def mps_empty_def MPS_CleanupPool_def split: option.splits)
  moreover have "ts_empty (snd (TS_CleanupPool (ce_ts ce) (mg_ts m) n))"
    using m set_gm_del_subset [of n "tm_pools (mg_ts m)"]
    by (auto simp: no_gpus_def ts_empty_def TS_CleanupPool_def split: option.splits)
  ultimately show ?thesis using m set_gm_del_subset [of n "mg_pools m"]
    by (auto simp: UnregisterPool_def Let_def no_gpus_def split: option.splits)
qed

lemma no_gpus_stop: "no_gpus m \<Longrightarrow> no_gpus (snd (Manager_Stop m))"
  by (auto simp: Manager_Stop_def MPS_Stop_def TS_Stop_def Let_def no_gpus_def mps_empty_def ts_empty_def)

lemma gpu_reachable_no_gpus: "gpu_reachable m \<Longrightarrow> no_gpus m"
proof (induction rule: gpu_reachable.induct)
  case new
  show ?case by (simp add: no_gpus_def NewManager_def NewMPSManager_def NewTimesliceManager_def mps_empty_def ts_empty_def)
next
  case (step m m')
  from step(2,3) show ?case
  proof (induction rule: gpu_step.induct)
    case (start m)
    then show ?case by (simp add: Manager_Start_def MPS_Start_def TS_Start_def no_gpus_def mps_empty_def ts_empty_def)
  next
    case (release m svc ns)
    then show ?case by (simp add: Manager_Release_def no_gpus_def)
  next
    case (schedule m es)
    then show ?case by (simp add: no_gpus_def ts_empty_run)
  qed (simp_all add: no_gpus_stop no_gpus_register no_gpus_unregister no_gpus_allocate(1))
qed

section \<open>Grouping by node\<close>

definition node_add :: "GPUInfo \<Rightarrow> (string, GPUInfo list) gomap \<Rightarrow> (string, GPUInfo list) gomap" where
  "node_add g m = gm_set (gi_NodeName g) ((case gm_get m (gi_NodeName g) of None \<Rightarrow> [] | Some gs \<Rightarrow> gs) @ [g]) m"

lemma group_by_node_fold: "group_by_node gpus = fold node_add gpus []"
  unfolding group_by_node_def by (rule arg_cong [where f = "\<lambda>f. fold f gpus []"]) (simp add: fun_eq_iff node_add_def)

lemma node_add_count:
  "sum_list (map (\<lambda>(n, gs). length (filter P gs)) (node_add g m)) =
    sum_list (map (\<lambda>(n, gs). length (filter P gs)) m) + (if P g then 1 else 0)"
proof (cases "gm_get m (gi_NodeName g)")
  case None
  then show ?thesis using sum_list_gm_set_none [OF None, of "\<lambda>gs. length (filter P gs)" "[g]"] by (simp add: node_add_def)
next
  case (Some gs)
  then show ?thesis using sum_list_gm_set_some [OF Some, of "\<lambda>gs. length (filter P gs)" "gs @ [g]"] by (simp add: node_add_def)
qed

lemma group_by_node_count:
  "sum_list (map (\<lambda>(n, gs). length (filter P gs)) (group_by_node gpus)) = length (filter P gpus)"
proof -
  have "sum_list (map (\<lambda>(n, gs). length (filter P gs)) (fold node_add gpus m)) =
      sum_list (map (\<lambda>(n, gs). length (filter P gs)) m) + length (filter P gpus)" for m
    by (induction gpus arbitrary: m) (simp_all add: node_add_count)
  from this [of "[]"] show ?thesis by (simp add: group_by_node_fold)
qed

lemma member_count_le:
  assumes "(n, gs) \<in> set (group_by_node gpus)"
  shows "length gs \<le> length gpus"
proof -
  have "length (filter (\<lambda>_. True) gs) \<le> sum_list (map (\<lambda>(n, gs). length (filter (\<lambda>_. True) gs)) (group_by_node gpus))"
    using assms by (intro member_le_sum_list) (auto simp: image_iff intro!: bexI [of _ "(n, gs)"])
  then show ?thesis using group_by_node_count [of "\<lambda>_. True" gpus] by simp
qed

lemma node_status_sums:
  assumes "length gpus < 2 ^ 31" and "range_ok ord"
  shows "sum_list (map gns_TotalGPUs (map (\<lambda>(n, gs). node_status n gs) (ord (group_by_node gpus)))) = int (length gpus)"
    and "sum_list (map gns_AvailableGPUs (map (\<lambda>(n, gs). node_status n gs) (ord (group_by_node gpus)))) =
      int (length (filter (\<lambda>g. gi_Allocations g = []) gpus))"
proof -
  have perm: "sum_list (map f (ord m)) = sum_list (map f m)" for f :: "string \<times> GPUInfo list \<Rightarrow> int" and m
  proof -
    have "mset (map f (ord m)) = mset (map f m)" using assms(2) by (simp add: range_ok_def)
    then show ?thesis by (metis sum_mset_sum_list)
  qed
  have w: "wrap32 (int (length (filter P gs))) = int (length (filter P gs))" if "(n, gs) \<in> set (group_by_node gpus)" for n gs P
  proof (rule wrap32_id)
    have "length (filter P gs) < 2 ^ 31"
      using member_count_le [OF that] length_filter_le [of P gs] assms(1) by linarith
    then show "int (length (filter P gs)) < 2 ^ 31" by simp
  qed simp
  have sums: "sum_list (map (\<lambda>(n, gs). wrap32 (int (length (filter P gs)))) (group_by_node gpus)) = int (length (filter P gpus))" for P
  proof -
    have "map (\<lambda>(n, gs). wrap32 (int (length (filter P gs)))) (group_by_node gpus) =
        map int (map (\<lambda>(n, gs). length (filter P gs)) (group_by_node gpus))"
      using w by (auto simp: comp_def)
    then show ?thesis using group_by_node_count [of P gpus] by (simp only: sum_list_of_nat)
  qed
  show "sum_list (map gns_TotalGPUs (map (\<lambda>(n, gs). node_status n gs) (ord (group_by_node gpus)))) = int (length gpus)"
    using sums [of "\<lambda>_. True"] perm [of "\<lambda>(n, gs). wrap32 (int (length gs))"]
    by (simp add: node_status_def comp_def split_beta')
  show "sum_list (map gns_AvailableGPUs (map (\<lambda>(n, gs). node_status n gs) (ord (group_by_node gpus)))) =
      int (length (filter (\<lambda>g. gi_Allocations g = []) gpus))"
    using sums [of "\<lambda>g. gi_Allocations g = []"] perm [of "\<lambda>(n, gs). wrap32 (int (length (filter (\<lambda>g. gi_Allocations g = []) gs)))"]
    by (simp add: node_status_def comp_def split_beta')
qed

section \<open>Properties\<close>

definition gm_demo_gpu :: "string \<Rightarrow> GPUInfo" where
  "gm_demo_gpu dev = \<lparr>gi_DeviceID = dev, gi_UUID = dev, gi_Model = ''a100'', gi_NodeName = ''n1'', gi_TotalMemory = 80,
     gi_AvailableMemory = 80, gi_Utilization = 0, gi_Temperature = 40, gi_PowerUsage = 0,
     gi_MIGEnabled = False, gi_MIGInstances = [], gi_Allocations = []\<rparr>"

definition gm_demo_pool :: PoolInfo where
  "gm_demo_pool = \<lparr>pi_Name = ''p'', pi_NodeSelector = [], pi_GPUType = '''', pi_SharingMode = ''exclusive'',
     pi_MIGProfiles = [], pi_OversubscriptionRatio = Fin 1, pi_TotalGPUs = 2, pi_AvailableGPUs = 2, pi_GPUs = [0, 1]\<rparr>"

text \<open>A manager with two GPUs, as a working discovery would leave it.\<close>

definition gm_demo :: Manager where
  "gm_demo = NewManager\<lparr>mg_gpus := [(''n1/0'', 0), (''n1/1'', 1)], mg_pools := [(''p'', gm_demo_pool)],
     mg_heap := [gm_demo_gpu ''0'', gm_demo_gpu ''1'']\<rparr>"

definition gm_demo_req :: "string \<Rightarrow> string \<Rightarrow> int \<Rightarrow> AllocationRequest" where
  "gm_demo_req mode svc n = \<lparr>ar_ServiceName = svc, ar_Namespace = ''ns'', ar_GPUType = '''', ar_GPUCount = n,
     ar_Memory = 0, ar_SharingMode = mode, ar_MIGProfile = ''1g.5gb'', ar_PoolName = ''p''\<rparr>"

definition gm_demo_env :: gpu_env where
  "gm_demo_env = \<lparr>ge_pools = (\<lambda>m. m), ge_mig = (\<lambda>m. m), ge_mps = \<lparr>me_ord = (\<lambda>i m. m), me_now = (\<lambda>i. 0)\<rparr>,
     ge_ts = \<lparr>te_ord = (\<lambda>i m. m), te_now = (\<lambda>i. 0), te_at = (\<lambda>i. 0), te_impl = (\<lambda>_. 0)\<rparr>, ge_now = int\<rparr>"

lemma gm_demo_env_ok [simp]: "gpu_env_ok gm_demo_env"
  by (simp add: gpu_env_ok_def gm_demo_env_def mps_env_ok_def ts_env_ok_def)

lemma gm_demo_ok: "gpu_ok gm_demo"
  using gpu_reachable_ok [OF gpu_reachable.new]
  by (simp add: gpu_ok_def gm_demo_def NewManager_def pool_ok_def gm_demo_pool_def ix_ok_def gm_demo_gpu_def gpu_key_def nth_Cons')

text \<open>
  C1. An exclusive request on a registered pool either fails and changes nothing, exactly when
  the pool has fewer free GPUs than asked for, and the error names both numbers; or it grants
  exactly the requested number of distinct GPUs of the pool, all free before and now held by the
  requesting service alone, leaves every other GPU and, but for the metric that counts allocations,
  everything else of the manager as it was, and reports the granted ones.
\<close>

theorem exclusive_allocate_spec:
  assumes "gpu_ok m" and "gpu_env_ok e" and "gm_get (mg_pools m) (ar_PoolName req) = Some pool"
    and "ar_SharingMode req = GPUSharingModeExclusive" and "0 \<le> ar_GPUCount req"
  shows "let free = filter (\<lambda>p. gi_Allocations (mg_heap m ! p) = []) (pi_GPUs pool) in
    if int (length free) < ar_GPUCount req
    then Manager_Allocate e m req = (Err (InsufficientGPUs (ar_GPUCount req) (int (length free))), m)
    else (\<exists>ps m'. Manager_Allocate e m req = (Ok \<lparr>res_Success = True,
             res_Allocations = map (\<lambda>p. exclusive_info (mg_heap m ! p)) ps, res_Error = None\<rparr>, m') \<and>
           int (length ps) = ar_GPUCount req \<and> granted_gpus m req pool ps m' \<and> gpu_ok m' \<and>
           m' = m\<lparr>mg_heap := mg_heap m', mg_allocationCounter := mg_allocationCounter m @ [(pi_Name pool, ar_SharingMode req)]\<rparr>)"
proof -
  let ?free = "filter (\<lambda>p. gi_Allocations (mg_heap m ! p) = []) (pi_GPUs pool)"
  have d: "dispatch e m req pool = allocateExclusive (ge_now e) m req pool"
    using assms(4) by (simp add: dispatch_def sharing_mode_defs)
  have enough: "\<not> int (length ?free) < ar_GPUCount req" if "granted_gpus m req pool ps m'" "int (length ps) = ar_GPUCount req" for ps m'
  proof -
    have "card (set ps) \<le> card (set ?free)" using that(1) by (intro card_mono) (auto simp: granted_gpus_def)
    also have "\<dots> \<le> length ?free" by (rule card_length)
    finally show ?thesis using that by (simp add: granted_gpus_def distinct_card)
  qed
  have ok: "gpu_ok (snd (Manager_Allocate e m req))" using assms(1,2) by (rule Manager_Allocate_ok)
  from allocateExclusive_cases [OF gpu_ok_pool [OF assms(1,3)] assms(5), of "ge_now e"]
  show ?thesis
  proof (elim disjE exE conjE)
    fix ps h
    assume a: "allocateExclusive (ge_now e) m req pool = (Ok (map (\<lambda>p. exclusive_info (mg_heap m ! p)) ps), m\<lparr>mg_heap := h\<rparr>)"
      and g: "int (length ps) = ar_GPUCount req" "granted_gpus m req pool ps (m\<lparr>mg_heap := h\<rparr>)"
    show ?thesis using a g d ok enough [OF g(2,1)] assms(3)
      by (auto simp: Manager_Allocate_def Let_def granted_gpus_def)
  qed (use d assms(3) in \<open>simp add: Manager_Allocate_def Let_def\<close>)
qed

theorem exclusive_allocate_spec_witness:
  "\<exists>ps m'. Manager_Allocate gm_demo_env gm_demo (gm_demo_req ''exclusive'' ''s'' 1) =
      (Ok \<lparr>res_Success = True, res_Allocations = map (\<lambda>p. exclusive_info (mg_heap gm_demo ! p)) ps, res_Error = None\<rparr>, m') \<and>
    int (length ps) = 1 \<and> granted_gpus gm_demo (gm_demo_req ''exclusive'' ''s'' 1) gm_demo_pool ps m' \<and> gpu_ok m'"
proof -
  let ?req = "gm_demo_req ''exclusive'' ''s'' 1"
  have p: "gm_get (mg_pools gm_demo) (ar_PoolName ?req) = Some gm_demo_pool" by code_simp
  have m: "ar_SharingMode ?req = GPUSharingModeExclusive" by code_simp
  have n: "0 \<le> ar_GPUCount ?req" by code_simp
  have f: "\<not> int (length (filter (\<lambda>p. gi_Allocations (mg_heap gm_demo ! p) = []) (pi_GPUs gm_demo_pool))) <
    ar_GPUCount ?req" by code_simp
  have c: "ar_GPUCount ?req = 1" by code_simp
  from exclusive_allocate_spec [OF gm_demo_ok gm_demo_env_ok p m n, unfolded Let_def if_not_P [OF f]]
  show ?thesis unfolding c by blast
qed

text \<open>
  C15. Mutual exclusion of exclusive grants: whatever operation the manager executes, from any
  well-formed state, no GPU ends up with more than one allocation, and the sub-managers' books
  stay well-formed.
\<close>

theorem gpu_invariant:
  assumes "gpu_step m m'" and "gpu_ok m"
  shows "gpu_ok m' \<and> (\<forall>g \<in> set (mg_heap m'). length (gi_Allocations g) \<le> 1)"
  using gpu_step_ok [OF assms] by (simp add: gpu_ok_def)

theorem gpu_invariant_witness:
  "list_all (\<lambda>g. length (gi_Allocations g) \<le> 1)
     (mg_heap (snd (Manager_Allocate gm_demo_env gm_demo (gm_demo_req ''exclusive'' ''s'' 2))))"
  using gpu_invariant [OF gpu_step.allocate [OF gm_demo_env_ok] gm_demo_ok] by (simp add: list_all_iff)

text \<open>
  Only MIG works: discovery never adds a GPU to a pool, so in every state the manager
  reaches, an allocation of at least one GPU that succeeds was a MIG request. Exclusive, MPS and
  time-slice requests are always refused.
\<close>

theorem only_mig_succeeds:
  assumes "gpu_reachable m" and "gpu_env_ok e" and "0 < ar_GPUCount req" and "is_ok (fst (Manager_Allocate e m req))"
  shows "ar_SharingMode req = GPUSharingModeMIG"
  using no_gpus_allocate(2) [OF gpu_reachable_no_gpus [OF assms(1)] assms(2-4)] .

definition gm_mig :: Manager where
  "gm_mig = snd (RegisterPool (\<lambda>s x. x) NewManager mig_demo_pool)"

lemma gm_mig_reachable: "gpu_reachable gm_mig"
  unfolding gm_mig_def by (rule gpu_reachable.step [OF gpu_reachable.new gpu_step.register])

theorem only_mig_succeeds_witness:
  "is_ok (fst (Manager_Allocate gm_demo_env gm_mig (gm_demo_req ''mig'' ''s'' 1))) \<and>
   ar_SharingMode (gm_demo_req ''mig'' ''s'' 1) = GPUSharingModeMIG"
proof -
  have ok: "is_ok (fst (Manager_Allocate gm_demo_env gm_mig (gm_demo_req ''mig'' ''s'' 1)))" by code_simp
  have n: "0 < ar_GPUCount (gm_demo_req ''mig'' ''s'' 1)" by (simp add: gm_demo_req_def)
  from only_mig_succeeds [OF gm_mig_reachable gm_demo_env_ok n ok] ok show ?thesis by blast
qed

text \<open>
  Releasing a service through the manager does not return what a sub-manager gave it: a MIG
  instance stays marked as held by the released service, and the pool can then be unregistered
  in the manager while the MIG manager refuses to clean it up and keeps its instances.
\<close>

theorem release_leaks_mig:
  "let m1 = snd (Manager_Allocate gm_demo_env gm_mig (gm_demo_req ''mig'' ''s'' 1));
       m2 = Manager_Release m1 ''s'' ''ns'';
       m3 = UnregisterPool \<lparr>ce_mig = (\<lambda>m. m), ce_mps = (\<lambda>m. m), ce_ts = (\<lambda>m. m)\<rparr> m2 ''p''
   in mig_holds (mg_mig m1) ''s'' ''ns'' = 1 \<and> mig_holds (mg_mig m2) ''s'' ''ns'' = 1 \<and>
      mg_pools m3 = [] \<and> mig_holds (mg_mig m3) ''s'' ''ns'' = 1 \<and> gm_has (mm_pools (mg_mig m3)) ''p''"
  by code_simp

text \<open>
  The status of a pool accounts for every GPU: over the reported nodes, the totals add up
  to the number of GPUs of the pool and the available ones to those without an allocation.
\<close>

theorem pool_status_counts:
  assumes "range_ok ord" and "gm_get (mg_pools m) n = Some pool" and "length (pi_GPUs pool) < 2 ^ 31"
    and "GetPoolStatus ord m n = Ok st"
  shows "sum_list (map gns_TotalGPUs (gst_Nodes st)) = int (length (pi_GPUs pool)) \<and>
    sum_list (map gns_AvailableGPUs (gst_Nodes st)) =
      int (length (filter (\<lambda>p. gi_Allocations (mg_heap m ! p) = []) (pi_GPUs pool)))"
proof -
  have len: "length (pool_gpus m pool) < 2 ^ 31" using assms(3) by (simp add: pool_gpus_def)
  have "gst_Nodes st = map (\<lambda>(n, gs). node_status n gs) (ord (group_by_node (pool_gpus m pool)))"
    using assms(2,4) by (auto simp: GetPoolStatus_def)
  then show ?thesis using node_status_sums [OF len assms(1)] by (simp add: pool_gpus_def filter_map comp_def)
qed

theorem pool_status_counts_witness:
  "\<exists>st. GetPoolStatus (\<lambda>m. m) gm_demo ''p'' = Ok st \<and> sum_list (map gns_TotalGPUs (gst_Nodes st)) = 2"
proof -
  have p: "gm_get (mg_pools gm_demo) ''p'' = Some gm_demo_pool" by code_simp
  have l: "length (pi_GPUs gm_demo_pool) = 2" by code_simp
  obtain st where st: "GetPoolStatus (\<lambda>m. m) gm_demo ''p'' = Ok st" using p by (simp add: GetPoolStatus_def)
  from pool_status_counts [OF range_ok_id p _ st] l st show ?thesis by simp
qed

end
