(* ===== verification/GPUPoolController.thy ===== *)
theory GPUPoolController
  imports Resources GpuManager
begin

text \<open>
  The GPUPool reconciler, \<open>internal/controller/gpupool_controller.go\<close>, on top of the GPU manager. One
  reconciliation reads its environment \<open>gp_env\<close> (what the API answers, the clock, the order of
  \<open>range\<close> loops in the manager), and yields the result, the calls it made and the new manager. The
  node list it fetches is only counted in a log line, so only its failure is in the environment,
  as a function of the labels that the nodes are selected by, if they are.
\<close>

section \<open>Error texts\<close>

text \<open>
  The texts of the errors that \<open>RegisterPool\<close> and \<open>Allocate\<close> can return for a sharing mode; the other
  errors of the GPU package do not reach a reconciler.
\<close>

definition mode_name :: "GPUSharingMode \<Rightarrow> string" where
  "mode_name mode = (if mode = GPUSharingModeMIG then ''MIG'' else if mode = GPUSharingModeMPS then ''MPS'' else ''time-slice'')"

fun gpu_error_text :: "GPUSharingMode \<Rightarrow> gpu_error \<Rightarrow> string" where
  "gpu_error_text mode (NotConfiguredForMode n) = ''pool '' @ n @ '' is not configured for '' @ mode_name mode @ '' mode''"
| "gpu_error_text mode (UnknownMIGProfile p) = ''unknown MIG profile: '' @ p"
| "gpu_error_text mode (PoolNotFound n) = mode_name mode @ '' pool not found: '' @ n"
| "gpu_error_text mode NoSuitablePool = ''no suitable GPU pool found''"
| "gpu_error_text mode (InsufficientGPUs a b) = ''insufficient GPUs: requested '' @ itoa a @ '', available '' @ itoa b"
| "gpu_error_text mode (InsufficientInstances a b) =
     ''insufficient MIG instances: requested '' @ itoa a @ '', available '' @ itoa b"
| "gpu_error_text mode NoAvailableGPUs =
     (if mode = GPUSharingModeMPS then ''no available GPUs for MPS daemon'' else ''no available GPUs for time-slicing'')"
| "gpu_error_text mode (ConfigureFailed e) = ''failed to configure '' @
     (if mode = GPUSharingModeTimeslice then ''time-slicing'' else mode_name mode) @ '' for pool: '' @ gpu_error_text mode e"
| "gpu_error_text mode _ = ''''"

section \<open>Reconciliation\<close>

record gp_env =
  gpe_get :: "GPUPool api_get"
  gpe_update :: "string option"
  gpe_status :: "string option"
  gpe_list :: "(string, string) gomap option \<Rightarrow> string option"
  gpe_now :: timestamp
  gpe_scan :: "string \<Rightarrow> gofloat \<Rightarrow> gofloat"
  gpe_cleanup :: cleanup_env
  gpe_nodes :: "(string, GPUInfo list) gomap \<Rightarrow> (string, GPUInfo list) gomap"

type_synonym gp_calls = "(GPUPool, unit) kube_call list"

definition gpuPoolFinalizer :: string where
  "gpuPoolFinalizer = ''inference.ai/gpupool-finalizer''"

definition GPUPool_validateSpec :: "GPUPool \<Rightarrow> (string, unit) outcome" where
  "GPUPool_validateSpec pool =
    (case gps_Sharing (gp_Spec pool) of
       None \<Rightarrow> Ok ()
     | Some sh \<Rightarrow>
         if gss_Mode sh = GPUSharingModeMIG then
           (if gss_Profiles sh = [] then Err ''MIG mode requires at least one profile'' else Ok ())
         else if gss_Mode sh = GPUSharingModeMPS then
           (if gss_MPSActiveThreadPercentage sh < 1 \<or> gss_MPSActiveThreadPercentage sh > 100
            then Err ''MPS active thread percentage must be between 1 and 100'' else Ok ())
         else if gss_Mode sh = GPUSharingModeTimeslice then
           (if gss_TimeSliceInterval sh < 1 then Err ''time slice interval must be positive'' else Ok ())
         else Ok ())"

definition GPUPool_handleDeletion :: "gp_env \<Rightarrow> GPUPool \<Rightarrow> Manager \<Rightarrow> (string, Result) outcome \<times> gp_calls \<times> Manager" where
  "GPUPool_handleDeletion e pool m =
    (if gst_AllocatedGPUs (gp_Status pool) > 0
     then (Ok (requeue_after (10 * second)),
           [CallEvent event_warning ''DeletionBlocked'' ''Cannot delete pool with active allocations''], m)
     else let pool' = pool\<lparr>gp_Meta := RemoveFinalizer (gp_Meta pool) gpuPoolFinalizer\<rparr>
          in (or_error (gpe_update e) done_result,
              [CallEvent event_normal ''Deleted'' ''GPUPool deleted'', CallUpdate pool'],
              UnregisterPool (gpe_cleanup e) m (gp_Name pool)))"

definition GPUPool_updateStatusWithError :: "gp_env \<Rightarrow> GPUPool \<Rightarrow> string \<Rightarrow> Manager \<Rightarrow> (string, Result) outcome \<times> gp_calls \<times> Manager" where
  "GPUPool_updateStatusWithError e pool err m =
    (let st = gp_Status pool;
         pool' = pool\<lparr>gp_Status := st\<lparr>gst_Phase := GPUPoolPhaseFailed,
           gst_Conditions := setCondition (gst_Conditions st) (error_condition (gpe_now e) err)\<rparr>\<rparr>
     in (Ok (requeue_after (30 * second)), [CallStatusUpdate pool', CallEvent event_warning ''ReconcileError'' err], m))"

definition GPUPool_updateConditions :: "timestamp \<Rightarrow> GPUPoolSpec \<Rightarrow> GPUPoolStatus \<Rightarrow> GPUPoolStatus" where
  "GPUPool_updateConditions now spec st =
    (let cond = (\<lambda>t s r msg. \<lparr>c_Type = t, c_Status = s, c_LastTransitionTime = now, c_Reason = r, c_Message = msg\<rparr>);
         st1 = (if gst_TotalGPUs st > 0
                then st\<lparr>gst_Conditions := setCondition (gst_Conditions st)
                       (cond ''Ready'' True ''GPUsAvailable'' (itoa (gst_AvailableGPUs st) @ '' GPUs available in pool'')),
                     gst_Phase := GPUPoolPhaseReady\<rparr>
                else st\<lparr>gst_Conditions := setCondition (gst_Conditions st)
                       (cond ''Ready'' False ''NoGPUs'' ''No GPUs discovered in pool'')\<rparr>)
     in case gps_Sharing spec of
          None \<Rightarrow> st1
        | Some sh \<Rightarrow> st1\<lparr>gst_Conditions := setCondition (gst_Conditions st1)
            (cond ''SharingConfigured'' True ''SharingEnabled'' (''GPU sharing mode '' @ gss_Mode sh @ '' configured''))\<rparr>)"

text \<open>The status fields that \<open>updateStatus\<close> takes from the manager.\<close>

definition pool_status :: "gp_env \<Rightarrow> GPUPool \<Rightarrow> Manager \<Rightarrow> GPUPoolStatus" where
  "pool_status e pool m =
    (let st = gp_Status pool;
         st1 = (case GetPoolStatus (gpe_nodes e) m (gp_Name pool) of
                  Ok s \<Rightarrow> st\<lparr>gst_Phase := gst_Phase s, gst_TotalGPUs := gst_TotalGPUs s, gst_AvailableGPUs := gst_AvailableGPUs s,
                    gst_AllocatedGPUs := gst_AllocatedGPUs s, gst_TotalMemory := gst_TotalMemory s,
                    gst_AvailableMemory := gst_AvailableMemory s, gst_Nodes := gst_Nodes s\<rparr>
                | _ \<Rightarrow> st\<lparr>gst_Phase := GPUPoolPhasePending\<rparr>)
     in GPUPool_updateConditions (gpe_now e) (gp_Spec pool)
          (st1\<lparr>gst_ObservedGeneration := om_Generation (gp_Meta pool), gst_LastSyncTime := Some (gpe_now e)\<rparr>))"

definition GPUPool_updateStatus :: "gp_env \<Rightarrow> GPUPool \<Rightarrow> Manager \<Rightarrow> (string, Result) outcome \<times> gp_calls \<times> Manager" where
  "GPUPool_updateStatus e pool m =
     (or_error (gpe_status e) (requeue_after (30 * second)),
      [CallStatusUpdate (pool\<lparr>gp_Status := pool_status e pool m\<rparr>)], m)"

definition node_labels :: "GPUPool \<Rightarrow> (string, string) gomap option" where
  "node_labels pool = (if gps_NodeSelector (gp_Spec pool) \<noteq> [] then Some (gps_NodeSelector (gp_Spec pool)) else None)"

definition GPUPool_discoverGPUs :: "gp_env \<Rightarrow> GPUPool \<Rightarrow> (string, unit) outcome" where
  "GPUPool_discoverGPUs e pool =
    (case gpe_list e (node_labels pool) of Some err \<Rightarrow> Err (''failed to list nodes: '' @ err) | None \<Rightarrow> Ok ())"

text \<open>An error of \<open>discoverGPUs\<close> is logged and the reconciliation goes on.\<close>

lemma discoverGPUs_ignored [simp]:
  "(case GPUPool_discoverGPUs e pool of Ok _ \<Rightarrow> x | Err _ \<Rightarrow> x | Panic \<Rightarrow> y | Blocked \<Rightarrow> z) = x"
  by (simp add: GPUPool_discoverGPUs_def split: option.split)

definition GPUPool_Reconcile :: "gp_env \<Rightarrow> Manager \<Rightarrow> (string, Result) outcome \<times> gp_calls \<times> Manager" where
  "GPUPool_Reconcile e m =
    (case gpe_get e of
       NotFound \<Rightarrow> (Ok done_result, [], m)
     | GetError err \<Rightarrow> (Err err, [], m)
     | Found pool \<Rightarrow>
         if om_DeletionTimestamp (gp_Meta pool) \<noteq> None then GPUPool_handleDeletion e pool m
         else if \<not> ContainsFinalizer (gp_Meta pool) gpuPoolFinalizer
         then (or_error (gpe_update e) requeue_now,
               [CallUpdate (pool\<lparr>gp_Meta := AddFinalizer (gp_Meta pool) gpuPoolFinalizer\<rparr>)], m)
         else case GPUPool_validateSpec pool of
           Ok _ \<Rightarrow>
             (case RegisterPool (gpe_scan e) m pool of
                (Ok _, m') \<Rightarrow>
                  (case GPUPool_discoverGPUs e pool of
                     Ok _ \<Rightarrow> GPUPool_updateStatus e pool m'
                   | Err _ \<Rightarrow> GPUPool_updateStatus e pool m'
                   | Panic \<Rightarrow> (Panic, [], m')
                   | Blocked \<Rightarrow> (Blocked, [], m'))
              | (Err err, m') \<Rightarrow> GPUPool_updateStatusWithError e pool (gpu_error_text (pool_sharing_mode pool) err) m'
              | (Panic, m') \<Rightarrow> (Panic, [], m')
              | (Blocked, m') \<Rightarrow> (Blocked, [], m'))
         | Err err \<Rightarrow> GPUPool_updateStatusWithError e pool err m
         | Panic \<Rightarrow> (Panic, [], m)
         | Blocked \<Rightarrow> (Blocked, [], m))"

section \<open>What a reconciliation does\<close>

lemma RegisterPool_registers:
  "RegisterPool scan m pool = (r, m') \<Longrightarrow> gm_get (mg_pools m') (gp_Name pool) = Some (pool_info scan pool)"
  by (auto simp: RegisterPool_def Let_def gm_get_set split: prod.splits if_splits)

lemma GetPoolStatus_registered:
  assumes "gm_get (mg_pools m) n = Some (pool_info scan pool)"
  shows "\<exists>s. GetPoolStatus ord m n = Ok s \<and> gst_Phase s = GPUPoolPhaseReady \<and> gst_TotalGPUs s = 0 \<and> gst_AllocatedGPUs s = 0"
  using assms by (simp add: GetPoolStatus_def pool_info_def wrap32_def)

text \<open>Conditions of other types than the two it computes are left alone.\<close>

lemma updateConditions_other:
  "t \<noteq> ''Ready'' \<Longrightarrow> t \<noteq> ''SharingConfigured'' \<Longrightarrow>
    cond_of (gst_Conditions (GPUPool_updateConditions now spec st)) t = cond_of (gst_Conditions st) t"
  by (auto simp: GPUPool_updateConditions_def Let_def cond_of_setCondition split: option.split)

lemma updateConditions_no_gpus:
  assumes "gst_TotalGPUs st = 0"
  shows "map_option c_Status (cond_of (gst_Conditions (GPUPool_updateConditions now spec st)) ''Ready'') = Some False"
    and "gst_Phase (GPUPool_updateConditions now spec st) = gst_Phase st"
    and "gst_TotalGPUs (GPUPool_updateConditions now spec st) = 0"
    and "gst_AllocatedGPUs (GPUPool_updateConditions now spec st) = gst_AllocatedGPUs st"
  using assms by (auto simp: GPUPool_updateConditions_def Let_def cond_of_setCondition split: option.split)

text \<open>The status after a registration: the manager reports no GPU, whatever the pool has.\<close>

lemma pool_status_registered:
  assumes "gm_get (mg_pools m) (gp_Name pool) = Some (pool_info scan pool)"
  shows "gst_Phase (pool_status e pool m) = GPUPoolPhaseReady" "gst_TotalGPUs (pool_status e pool m) = 0"
    "gst_AllocatedGPUs (pool_status e pool m) = 0"
    "map_option c_Status (cond_of (gst_Conditions (pool_status e pool m)) ''Ready'') = Some False"
    "cond_of (gst_Conditions (pool_status e pool m)) ''Error'' = cond_of (gst_Conditions (gp_Status pool)) ''Error''"
proof -
  obtain s where s: "GetPoolStatus (gpe_nodes e) m (gp_Name pool) = Ok s" "gst_Phase s = GPUPoolPhaseReady"
    "gst_TotalGPUs s = 0" "gst_AllocatedGPUs s = 0" using GetPoolStatus_registered [OF assms] by blast
  let ?st = "(gp_Status pool)\<lparr>gst_Phase := gst_Phase s, gst_TotalGPUs := gst_TotalGPUs s, gst_AvailableGPUs := gst_AvailableGPUs s,
       gst_AllocatedGPUs := gst_AllocatedGPUs s, gst_TotalMemory := gst_TotalMemory s,
       gst_AvailableMemory := gst_AvailableMemory s, gst_Nodes := gst_Nodes s,
       gst_ObservedGeneration := om_Generation (gp_Meta pool), gst_LastSyncTime := Some (gpe_now e)\<rparr>"
  have p: "pool_status e pool m = GPUPool_updateConditions (gpe_now e) (gp_Spec pool) ?st"
    using s(1) by (simp add: pool_status_def)
  have z: "gst_TotalGPUs ?st = 0" using s(3) by simp
  show "gst_Phase (pool_status e pool m) = GPUPoolPhaseReady" "gst_TotalGPUs (pool_status e pool m) = 0"
    "gst_AllocatedGPUs (pool_status e pool m) = 0"
    "map_option c_Status (cond_of (gst_Conditions (pool_status e pool m)) ''Ready'') = Some False"
    "cond_of (gst_Conditions (pool_status e pool m)) ''Error'' = cond_of (gst_Conditions (gp_Status pool)) ''Error''"
    unfolding p using updateConditions_no_gpus [OF z] s by (simp_all add: updateConditions_other)
qed

lemma Reconcile_registers:
  assumes "gpe_get e = Found pool" and "om_DeletionTimestamp (gp_Meta pool) = None"
    and "ContainsFinalizer (gp_Meta pool) gpuPoolFinalizer" and "GPUPool_validateSpec pool = Ok ()"
    and "RegisterPool (gpe_scan e) m pool = (Ok (), m1)"
  shows "GPUPool_Reconcile e m = (or_error (gpe_status e) (requeue_after (30 * second)),
    [CallStatusUpdate (pool\<lparr>gp_Status := pool_status e pool m1\<rparr>)], m1)"
  using assms by (simp add: GPUPool_Reconcile_def GPUPool_updateStatus_def)

text \<open>Every status it writes has well-formed conditions.\<close>

lemma GPUPool_conditions:
  assumes "gpe_get e = Found pool" and "conds_ok (gst_Conditions (gp_Status pool))"
    and "CallStatusUpdate pool' \<in> set (fst (snd (GPUPool_Reconcile e m)))"
  shows "conds_ok (gst_Conditions (gp_Status pool'))"
proof -
  have "conds_ok (gst_Conditions (pool_status e pool m'))" for m'
    unfolding pool_status_def Let_def GPUPool_updateConditions_def using assms(2)
    by (auto intro!: inv_intros split: outcome.split option.split)
  then show ?thesis using assms
    by (auto simp: GPUPool_Reconcile_def GPUPool_handleDeletion_def GPUPool_updateStatus_def GPUPool_updateStatusWithError_def Let_def
        intro: inv_intros split: if_splits outcome.splits prod.splits)
qed

section \<open>GPUPools as stored resources\<close>

definition gp_zero :: GPUPoolStatus where
  "gp_zero = \<lparr>gst_Phase = GPUPoolPhaseUnset, gst_TotalGPUs = 0, gst_AvailableGPUs = 0, gst_AllocatedGPUs = 0, gst_TotalMemory = 0,
     gst_AvailableMemory = 0, gst_Nodes = [], gst_Conditions = [], gst_LastSyncTime = None, gst_ObservedGeneration = 0\<rparr>"

definition gp_kind :: "(GPUPool, string, GPUPoolSpec, GPUPoolStatus) kind" where
  "gp_kind = \<lparr>kd_key = (\<lambda>p. gp_Name p), kd_meta = gp_Meta, kd_spec = gp_Spec, kd_status = gp_Status, kd_conditions = gst_Conditions,
     kd_zero = gp_zero, kd_finalizer = gpuPoolFinalizer\<rparr>"

definition gp_registered :: "Manager \<Rightarrow> string set" where
  "gp_registered m = {n. gm_has (mg_pools m) n}"

lemma RegisterPool_pools: "mg_pools (snd (RegisterPool scan m pool)) = gm_set (gp_Name pool) (pool_info scan pool) (mg_pools m)"
  by (simp add: RegisterPool_def Let_def split_beta)

lemma UnregisterPool_pools: "mg_pools (UnregisterPool ce m n) = gm_del n (mg_pools m)"
  by (auto simp: UnregisterPool_def Let_def gm_del_notin gm_get_none split: option.split)

lemma gp_registered_register: "gp_registered (snd (RegisterPool scan m pool)) = insert (gp_Name pool) (gp_registered m)"
  by (auto simp: gp_registered_def RegisterPool_pools gm_has_def gm_get_set)

lemma gp_registered_unregister: "gp_registered (UnregisterPool ce m n) = gp_registered m - {n}"
  by (auto simp: gp_registered_def UnregisterPool_pools gm_has_def gm_get_del)

text \<open>The calls of a reconciliation and the manager after it, for an object that was found.\<close>

lemma GPUPool_Reconcile_manager:
  assumes "gpe_get e = Found v" and "GPUPool_Reconcile e m = (r, calls, m')"
  shows "m' = m \<or> ContainsFinalizer (gp_Meta v) gpuPoolFinalizer \<and> om_DeletionTimestamp (gp_Meta v) = None \<and>
      m' = snd (RegisterPool (gpe_scan e) m v) \<or>
    om_DeletionTimestamp (gp_Meta v) \<noteq> None \<and> m' = UnregisterPool (gpe_cleanup e) m (gp_Name v)"
  using assms by (auto simp: GPUPool_Reconcile_def GPUPool_handleDeletion_def GPUPool_updateStatus_def GPUPool_updateStatusWithError_def Let_def
      split: if_splits outcome.splits prod.splits)

lemma GPUPool_Reconcile_update:
  assumes "gpe_get e = Found v" and "GPUPool_Reconcile e m = (r, calls, m')" and "CallUpdate u \<in> set calls"
  shows "gp_Spec u = gp_Spec v \<and> (om_DeletionTimestamp (gp_Meta v) = None \<and> gp_Meta u = AddFinalizer (gp_Meta v) gpuPoolFinalizer \<or>
    om_DeletionTimestamp (gp_Meta v) \<noteq> None \<and> gp_Meta u = RemoveFinalizer (gp_Meta v) gpuPoolFinalizer \<and>
      m' = UnregisterPool (gpe_cleanup e) m (gp_Name v))"
  using assms by (auto simp: GPUPool_Reconcile_def GPUPool_handleDeletion_def GPUPool_updateStatus_def GPUPool_updateStatusWithError_def Let_def
      split: if_splits outcome.splits prod.splits)

interpretation gp: reconciler gp_kind gpe_get GPUPool_Reconcile gp_registered
proof
  fix e m v r calls m' u
  show "snd (GPUPool_Reconcile e m) = ([], m)" if "\<forall>v. gpe_get e \<noteq> Found v"
    using that by (cases "gpe_get e") (simp_all add: GPUPool_Reconcile_def)
  assume f: "gpe_get e = Found v" "GPUPool_Reconcile e m = (r, calls, m')"
  show "kd_spec gp_kind u = kd_spec gp_kind v \<and>
      (kd_meta gp_kind u = AddFinalizer (kd_meta gp_kind v) (kd_finalizer gp_kind) \<and> \<not> deleting gp_kind v \<or>
       kd_meta gp_kind u = RemoveFinalizer (kd_meta gp_kind v) (kd_finalizer gp_kind) \<and> deleting gp_kind v \<and>
       om_Name (kd_meta gp_kind v) \<notin> gp_registered m')" if "CallUpdate u \<in> set calls"
    using GPUPool_Reconcile_update [OF f that] by (auto simp: gp_kind_def deleting_def gp_registered_unregister)
  show "gp_registered m' \<subseteq> gp_registered m \<union> {n. n = om_Name (kd_meta gp_kind v) \<and> has_finalizer gp_kind v}"
    using GPUPool_Reconcile_manager [OF f] by (auto simp: gp_kind_def has_finalizer_def gp_registered_register gp_registered_unregister)
  show "conds_ok (kd_conditions gp_kind (kd_status gp_kind u))"
    if "CallStatusUpdate u \<in> set calls" "conds_ok (kd_conditions gp_kind (kd_status gp_kind v))"
    using GPUPool_conditions [OF f(1), of u m] that f(2) by (simp add: gp_kind_def)
qed

text \<open>Whatever a reconciliation does to the manager is a step of the manager.\<close>

lemma GPUPool_Reconcile_reachable:
  assumes "gpu_reachable m" and "cleanup_env_ok (gpe_cleanup e)" and "GPUPool_Reconcile e m = (r, calls, m')"
  shows "gpu_reachable m'"
proof (cases "gpe_get e")
  case (Found v)
  then show ?thesis using GPUPool_Reconcile_manager [OF Found assms(3)] assms(1,2)
    by (auto intro: gpu_reachable.step gpu_step.intros)
qed (use gp.no_object [of e m] assms in auto)

text \<open>The reported number of allocated GPUs is always zero: what is written and what was there.\<close>

lemma GPUPool_Reconcile_allocated:
  assumes "gpe_get e = Found v" and "GPUPool_Reconcile e m = (r, calls, m')" and "CallStatusUpdate u \<in> set calls"
    and "gst_AllocatedGPUs (gp_Status v) = 0"
  shows "gst_AllocatedGPUs (gp_Status u) = 0"
proof -
  have "gst_AllocatedGPUs (pool_status e v m') = 0" if "RegisterPool (gpe_scan e) m v = (Ok (), m')" for m'
    by (rule pool_status_registered(3) [OF RegisterPool_registers [OF that]])
  then show ?thesis using assms
    by (auto simp: GPUPool_Reconcile_def GPUPool_handleDeletion_def GPUPool_updateStatus_def GPUPool_updateStatusWithError_def Let_def
        split: if_splits outcome.splits prod.splits)
qed

section \<open>Examples\<close>

definition gp_demo_pool :: GPUPool where
  "gp_demo_pool = mig_demo_pool\<lparr>gp_Meta := (gp_Meta mig_demo_pool)\<lparr>om_DeletionTimestamp := None,
     om_Finalizers := [gpuPoolFinalizer]\<rparr>\<rparr>"

definition gp_demo_env :: "GPUPool \<Rightarrow> gp_env" where
  "gp_demo_env pool = \<lparr>gpe_get = Found pool, gpe_update = None, gpe_status = None, gpe_list = (\<lambda>_. None), gpe_now = 5,
     gpe_scan = (\<lambda>s x. x), gpe_cleanup = \<lparr>ce_mig = (\<lambda>m. m), ce_mps = (\<lambda>m. m), ce_ts = (\<lambda>m. m)\<rparr>, gpe_nodes = (\<lambda>m. m)\<rparr>"

text \<open>A manager that has granted a MIG instance of the pool.\<close>

definition gm_mig_used :: Manager where
  "gm_mig_used = snd (Manager_Allocate gm_demo_env gm_mig (gm_demo_req ''mig'' ''s'' 1))"

section \<open>Properties\<close>

text \<open>
  What a reconciliation of a valid pool reports: it registers the pool and makes one call, a
  status update, with the phase Ready and a Ready condition that is false, zero GPUs and zero
  allocated GPUs, whatever the pool holds; and an error condition of an earlier reconciliation is
  left as it was.
\<close>

theorem gpupool_reconcile_reports:
  assumes "gpe_get e = Found pool" and "om_DeletionTimestamp (gp_Meta pool) = None"
    and "ContainsFinalizer (gp_Meta pool) gpuPoolFinalizer" and "GPUPool_validateSpec pool = Ok ()"
    and "RegisterPool (gpe_scan e) m pool = (Ok (), m1)" and "gpe_status e = None"
  shows "\<exists>pool'. GPUPool_Reconcile e m = (Ok (requeue_after (30 * second)), [CallStatusUpdate pool'], m1) \<and>
    gp_Meta pool' = gp_Meta pool \<and> gp_Spec pool' = gp_Spec pool \<and>
    gst_Phase (gp_Status pool') = GPUPoolPhaseReady \<and> gst_TotalGPUs (gp_Status pool') = 0 \<and> gst_AllocatedGPUs (gp_Status pool') = 0 \<and>
    map_option c_Status (cond_of (gst_Conditions (gp_Status pool')) ''Ready'') = Some False \<and>
    cond_of (gst_Conditions (gp_Status pool')) ''Error'' = cond_of (gst_Conditions (gp_Status pool)) ''Error''"
  using Reconcile_registers [OF assms(1-5)] assms(6) pool_status_registered [OF RegisterPool_registers [OF assms(5)], of e]
  by (simp add: or_error_def)

theorem gpupool_reconcile_reports_witness:
  "\<exists>pool' m1. GPUPool_Reconcile (gp_demo_env gp_demo_pool) gm_mig_used = (Ok (requeue_after (30 * second)), [CallStatusUpdate pool'], m1) \<and>
    gst_Phase (gp_Status pool') = GPUPoolPhaseReady \<and> gst_AllocatedGPUs (gp_Status pool') = 0"
proof -
  let ?r = "RegisterPool (gpe_scan (gp_demo_env gp_demo_pool)) gm_mig_used gp_demo_pool"
  have r: "?r = (Ok (), snd ?r)" by code_simp
  have "gpe_get (gp_demo_env gp_demo_pool) = Found gp_demo_pool" "gpe_status (gp_demo_env gp_demo_pool) = None"
    by (simp_all add: gp_demo_env_def)
  moreover have "om_DeletionTimestamp (gp_Meta gp_demo_pool) = None" "ContainsFinalizer (gp_Meta gp_demo_pool) gpuPoolFinalizer"
    by (simp_all add: gp_demo_pool_def ContainsFinalizer_def)
  moreover have "GPUPool_validateSpec gp_demo_pool = Ok ()" by code_simp
  ultimately show ?thesis using gpupool_reconcile_reports [OF _ _ _ _ r] by blast
qed

text \<open>
  The guard against deleting a pool in use does not work: once the reconciler has written the
  status of a pool, its deletion goes through at the next reconciliation, which drops the
  finalizer and unregisters the pool, whatever the sub-managers have allocated from it.
\<close>

theorem gpupool_deletion_unguarded:
  assumes "gpe_get e = Found pool" and "om_DeletionTimestamp (gp_Meta pool) = None"
    and "ContainsFinalizer (gp_Meta pool) gpuPoolFinalizer" and "GPUPool_validateSpec pool = Ok ()"
    and "RegisterPool (gpe_scan e) m pool = (Ok (), m1)"
    and "GPUPool_Reconcile e m = (r, calls, m1)" and "CallStatusUpdate pool' \<in> set calls"
    and "gpe_get e' = Found (pool'\<lparr>gp_Meta := (gp_Meta pool')\<lparr>om_DeletionTimestamp := Some t\<rparr>\<rparr>)" and "gpe_update e' = None"
  shows "\<exists>pool'' m3. GPUPool_Reconcile e' m2 = (Ok done_result,
      [CallEvent event_normal ''Deleted'' ''GPUPool deleted'', CallUpdate pool''], m3) \<and>
    \<not> ContainsFinalizer (gp_Meta pool'') gpuPoolFinalizer \<and> \<not> gm_has (mg_pools m3) (gp_Name pool)"
proof -
  have p: "pool' = pool\<lparr>gp_Status := pool_status e pool m1\<rparr>"
    using Reconcile_registers [OF assms(1-5)] assms(6,7) by auto
  then have "gst_AllocatedGPUs (gp_Status pool') = 0" "gp_Name pool' = gp_Name pool"
    using pool_status_registered(3) [OF RegisterPool_registers [OF assms(5)], of e] by simp_all
  moreover have "\<not> gm_has (mg_pools (UnregisterPool c m2 n)) n" for c n
    by (simp add: UnregisterPool_def gm_has_def Let_def gm_get_del split: option.split)
  ultimately show ?thesis using assms(8,9)
    by (simp add: GPUPool_Reconcile_def GPUPool_handleDeletion_def or_error_def Let_def ContainsFinalizer_def RemoveFinalizer_def)
qed

theorem gpupool_deletion_unguarded_witness:
  "\<exists>pool' pool'' m3. gp_Name pool' = ''p'' \<and> mig_holds (mg_mig gm_mig_used) ''s'' ''ns'' = 1 \<and>
    GPUPool_Reconcile (gp_demo_env (pool'\<lparr>gp_Meta := (gp_Meta pool')\<lparr>om_DeletionTimestamp := Some 9\<rparr>\<rparr>)) gm_mig_used =
      (Ok done_result, [CallEvent event_normal ''Deleted'' ''GPUPool deleted'', CallUpdate pool''], m3) \<and>
    \<not> gm_has (mg_pools m3) ''p''"
proof -
  let ?e = "gp_demo_env gp_demo_pool" and ?r = "RegisterPool (\<lambda>s x. x) gm_mig gp_demo_pool"
  let ?pool' = "gp_demo_pool\<lparr>gp_Status := pool_status ?e gp_demo_pool (snd ?r)\<rparr>"
  let ?e' = "gp_demo_env (?pool'\<lparr>gp_Meta := (gp_Meta ?pool')\<lparr>om_DeletionTimestamp := Some 9\<rparr>\<rparr>)"
  have r: "RegisterPool (gpe_scan ?e) gm_mig gp_demo_pool = (Ok (), snd ?r)" by code_simp
  have a: "gpe_get ?e = Found gp_demo_pool" "om_DeletionTimestamp (gp_Meta gp_demo_pool) = None"
    "ContainsFinalizer (gp_Meta gp_demo_pool) gpuPoolFinalizer" "GPUPool_validateSpec gp_demo_pool = Ok ()"
    by code_simp+
  have g: "gpe_get (gp_demo_env p) = Found p" "gpe_update (gp_demo_env p) = None" for p by (simp_all add: gp_demo_env_def)
  have n: "gp_Name gp_demo_pool = ''p''" "mig_holds (mg_mig gm_mig_used) ''s'' ''ns'' = 1" by code_simp+
  have "\<exists>pool'' m3. GPUPool_Reconcile ?e' gm_mig_used = (Ok done_result,
      [CallEvent event_normal ''Deleted'' ''GPUPool deleted'', CallUpdate pool''], m3) \<and>
    \<not> ContainsFinalizer (gp_Meta pool'') gpuPoolFinalizer \<and> \<not> gm_has (mg_pools m3) (gp_Name gp_demo_pool)"
    by (rule gpupool_deletion_unguarded [where t = 9, OF a r Reconcile_registers [OF a r] _ g]) simp
  then obtain pool'' m3 where q: "GPUPool_Reconcile ?e' gm_mig_used = (Ok done_result,
      [CallEvent event_normal ''Deleted'' ''GPUPool deleted'', CallUpdate pool''], m3)"
    "\<not> gm_has (mg_pools m3) (gp_Name gp_demo_pool)" by blast
  have "gp_Name ?pool' = ''p''" using n(1) by simp
  moreover have "\<not> gm_has (mg_pools m3) ''p''" using q(2) n(1) by simp
  ultimately show ?thesis using n(2) q(1) by (intro exI [of _ ?pool'] exI [of _ pool''] exI [of _ m3] conjI)
qed

end
