(* ===== verification/CacheTypes.thy ===== *)
theory CacheTypes
  imports ApiTypes
begin

text \<open>
  What the cache tiers share with their manager, \<open>internal/cache/manager.go\<close>: entries,
  statistics, errors, and the Go interface \<open>CacheTier\<close> as a record of operations on a tier's
  state. An operation reads the clock and the order of \<open>range\<close> loops from its environment
  \<open>'e\<close>. \<open>Get\<close> returns no entry on a miss.
\<close>

definition hour :: duration where
  "hour = 3600000000000"

record CacheEntry =
  ce_Key :: string
  ce_Value :: bytes
  ce_Size :: int
  ce_CreatedAt :: timestamp
  ce_AccessedAt :: timestamp
  ce_AccessCount :: int
  ce_TTL :: duration
  ce_Tier :: string
  ce_Metadata :: "(string, string) gomap"

record TierStats =
  st_HitRate :: gofloat
  st_MissRate :: gofloat
  st_AvgLatency :: duration
  st_Entries :: int
  st_UsedSize :: int
  st_MaxSize :: int
  st_Evictions :: int

datatype cache_error =
    CacheNotFound string
  | KeyNotFound string
  | NoDefaultCache
  | UnsupportedTier string
  | CreateTierFailed string cache_error
  | UnhealthyTier string string
  | PrefixTooShort int int
  | TierFailure string

record ('e, 's) CacheTier =
  op_Name :: "'s \<Rightarrow> string"
  op_Type :: "'s \<Rightarrow> CacheTierType"
  op_Get :: "'e \<Rightarrow> 's \<Rightarrow> string \<Rightarrow> (cache_error, CacheEntry option) outcome \<times> 's"
  op_Set :: "'e \<Rightarrow> 's \<Rightarrow> string \<Rightarrow> bytes \<Rightarrow> duration \<Rightarrow> (cache_error, unit) outcome \<times> 's"
  op_Delete :: "'e \<Rightarrow> 's \<Rightarrow> string \<Rightarrow> (cache_error, unit) outcome \<times> 's"
  op_Clear :: "'e \<Rightarrow> 's \<Rightarrow> (cache_error, unit) outcome \<times> 's"
  op_Size :: "'s \<Rightarrow> quantity"
  op_UsedSize :: "'s \<Rightarrow> quantity"
  op_Entries :: "'s \<Rightarrow> int"
  op_Stats :: "'s \<Rightarrow> TierStats"
  op_Healthy :: "'s \<Rightarrow> bool"

text \<open>The hit and miss rates of \<open>Stats\<close>, the same code in every tier.\<close>

definition rates :: "int \<Rightarrow> int \<Rightarrow> gofloat \<times> gofloat" where
  "rates hits misses =
    (let total = wrap64 (hits + misses) in
     if total > 0 then (f_div (f_of_int hits) (f_of_int total), f_div (f_of_int misses) (f_of_int total))
     else (Fin 0, Fin 0))"

definition unit_rate :: "gofloat \<Rightarrow> bool" where
  "unit_rate r \<longleftrightarrow> (\<exists>x. r = Fin x \<and> 0 \<le> x \<and> x \<le> 1)"

lemma f_div_unit: "0 \<le> a \<Longrightarrow> a \<le> b \<Longrightarrow> 0 < b \<Longrightarrow> unit_rate (f_div (f_of_int a) (f_of_int b))"
  using fl_int_pos [of b] fl_ratio_unit [of a b] by (simp add: f_of_int_def unit_rate_def)

lemma rates_unit:
  assumes "0 \<le> hits" "0 \<le> misses" "hits + misses < 2 ^ 63"
  shows "unit_rate (fst (rates hits misses))" and "unit_rate (snd (rates hits misses))"
proof -
  have "wrap64 (hits + misses) = hits + misses" using assms by (intro wrap64_id) auto
  then show "unit_rate (fst (rates hits misses))" "unit_rate (snd (rates hits misses))"
    using assms f_div_unit [of hits "hits + misses"] f_div_unit [of misses "hits + misses"]
    by (auto simp: rates_def Let_def unit_rate_def)
qed

text \<open>
  The contract of a tier, for the manager that calls it. \<open>live e s k v\<close> says that in the
  environment \<open>e\<close> the state \<open>s\<close> holds the unexpired value \<open>v\<close> under the key \<open>k\<close>; a tier may
  refuse or block some calls, so the laws are about the calls that complete.
\<close>

locale cache_tier =
  fixes get :: "'e \<Rightarrow> 's \<Rightarrow> string \<Rightarrow> (cache_error, CacheEntry option) outcome \<times> 's"
    and set_val :: "'e \<Rightarrow> 's \<Rightarrow> string \<Rightarrow> bytes \<Rightarrow> duration \<Rightarrow> (cache_error, unit) outcome \<times> 's"
    and del :: "'e \<Rightarrow> 's \<Rightarrow> string \<Rightarrow> (cache_error, unit) outcome \<times> 's"
    and clear :: "'e \<Rightarrow> 's \<Rightarrow> (cache_error, unit) outcome \<times> 's"
    and live :: "'e \<Rightarrow> 's \<Rightarrow> string \<Rightarrow> bytes option"
    and inv :: "'s \<Rightarrow> bool"
    and alive :: "'e \<Rightarrow> 's \<Rightarrow> duration \<Rightarrow> 'e \<Rightarrow> bool"
  assumes inv_set: "inv s \<Longrightarrow> inv (snd (set_val e s k v ttl))"
    and inv_del: "inv s \<Longrightarrow> inv (snd (del e s k))"
    and inv_get: "inv s \<Longrightarrow> get e s k = (Ok r, s') \<Longrightarrow> inv s'"
    and inv_clear: "inv s \<Longrightarrow> inv (snd (clear e s))"
    and set_live: "inv s \<Longrightarrow> set_val e s k v ttl = (Ok (), s') \<Longrightarrow> alive e s ttl e' \<Longrightarrow>
          live e' s' k' = (if k' = k then Some v else live e' s k')"
    and del_live: "inv s \<Longrightarrow> del e s k = (Ok (), s') \<Longrightarrow> live e' s' k' = (if k' = k then None else live e' s k')"
    and clear_live: "inv s \<Longrightarrow> clear e s = (Ok (), s') \<Longrightarrow> live e' s' k' = None"
    and get_live: "inv s \<Longrightarrow> get e s k = (Ok r, s') \<Longrightarrow> map_option ce_Value r = live e s k"
begin

text \<open>A completed read after a completed write returns what was written.\<close>

lemma get_set:
  assumes "inv s" and "set_val e s k v ttl = (Ok (), s')" and "alive e s ttl e'" and "get e' s' k = (Ok r, s'')"
  shows "\<exists>en. r = Some en \<and> ce_Value en = v"
proof -
  have "inv s'" using inv_set [OF assms(1)] assms(2) by (metis snd_conv)
  from get_live [OF this assms(4)] set_live [OF assms(1,2,3)] have "map_option ce_Value r = Some v" by simp
  then show ?thesis by (cases r) auto
qed

lemma get_set_other:
  assumes "inv s" and "set_val e s k v ttl = (Ok (), s')" and "alive e s ttl e'" and "k' \<noteq> k" and "get e' s' k' = (Ok r, s'')"
  shows "map_option ce_Value r = live e' s k'"
proof -
  have "inv s'" using inv_set [OF assms(1)] assms(2) by (metis snd_conv)
  from get_live [OF this assms(5)] set_live [OF assms(1,2,3)] assms(4) show ?thesis by simp
qed

lemma get_del:
  assumes "inv s" and "del e s k = (Ok (), s')" and "get e' s' k = (Ok r, s'')"
  shows "r = None"
proof -
  have "inv s'" using inv_del [OF assms(1)] assms(2) by (metis snd_conv)
  from get_live [OF this assms(3)] del_live [OF assms(1,2)] show ?thesis by (cases r) auto
qed

end

text \<open>
  A tier may keep these laws only for some keys: a tier on disk derives a file name from the key.
  \<open>key_ok\<close> says which keys. The contract above is the case of all keys.
\<close>

locale keyed_tier =
  fixes get :: "'e \<Rightarrow> 's \<Rightarrow> string \<Rightarrow> (cache_error, CacheEntry option) outcome \<times> 's"
    and set_val :: "'e \<Rightarrow> 's \<Rightarrow> string \<Rightarrow> bytes \<Rightarrow> duration \<Rightarrow> (cache_error, unit) outcome \<times> 's"
    and del :: "'e \<Rightarrow> 's \<Rightarrow> string \<Rightarrow> (cache_error, unit) outcome \<times> 's"
    and clear :: "'e \<Rightarrow> 's \<Rightarrow> (cache_error, unit) outcome \<times> 's"
    and live :: "'e \<Rightarrow> 's \<Rightarrow> string \<Rightarrow> bytes option"
    and inv :: "'s \<Rightarrow> bool"
    and alive :: "'e \<Rightarrow> 's \<Rightarrow> duration \<Rightarrow> 'e \<Rightarrow> bool"
    and key_ok :: "string \<Rightarrow> bool"
  assumes k_inv_set: "inv s \<Longrightarrow> inv (snd (set_val e s k v ttl))"
    and k_inv_del: "inv s \<Longrightarrow> inv (snd (del e s k))"
    and k_inv_get: "inv s \<Longrightarrow> get e s k = (Ok r, s') \<Longrightarrow> inv s'"
    and k_inv_clear: "inv s \<Longrightarrow> inv (snd (clear e s))"
    and k_set_live: "inv s \<Longrightarrow> key_ok k \<Longrightarrow> key_ok k' \<Longrightarrow> set_val e s k v ttl = (Ok (), s') \<Longrightarrow> alive e s ttl e' \<Longrightarrow>
          live e' s' k' = (if k' = k then Some v else live e' s k')"
    and k_del_live: "inv s \<Longrightarrow> key_ok k \<Longrightarrow> key_ok k' \<Longrightarrow> del e s k = (Ok (), s') \<Longrightarrow>
          live e' s' k' = (if k' = k then None else live e' s k')"
    and k_clear_live: "inv s \<Longrightarrow> clear e s = (Ok (), s') \<Longrightarrow> live e' s' k' = None"
    and k_get_live: "inv s \<Longrightarrow> get e s k = (Ok r, s') \<Longrightarrow> map_option ce_Value r = live e s k"
begin

lemma k_get_set:
  assumes "inv s" and "key_ok k" and "key_ok k'" and "set_val e s k v ttl = (Ok (), s')" and "alive e s ttl e'"
    and "get e' s' k' = (Ok r, s'')"
  shows "map_option ce_Value r = (if k' = k then Some v else live e' s k')"
proof -
  have "inv s'" using k_inv_set [OF assms(1)] assms(4) by (metis snd_conv)
  from k_get_live [OF this assms(6)] k_set_live [OF assms(1-5)] show ?thesis by simp
qed

lemma k_get_del:
  assumes "inv s" and "key_ok k" and "key_ok k'" and "del e s k = (Ok (), s')" and "get e' s' k' = (Ok r, s'')"
  shows "map_option ce_Value r = (if k' = k then None else live e' s k')"
proof -
  have "inv s'" using k_inv_del [OF assms(1)] assms(4) by (metis snd_conv)
  from k_get_live [OF this assms(5)] k_del_live [OF assms(1-4)] show ?thesis by simp
qed

end

sublocale cache_tier \<subseteq> keyed: keyed_tier get set_val del clear live inv alive "\<lambda>_. True"
  using inv_set inv_del inv_get inv_clear set_live del_live clear_live get_live
  by unfold_locales blast+

text \<open>
  A tier that lives in the operator's own memory has more to offer: its writes never fail, a
  read of a key it does not hold completes, and so does a read of what was just written.
\<close>

locale memory_tier = cache_tier +
  assumes set_total: "inv s \<Longrightarrow> \<exists>s'. set_val e s k v ttl = (Ok (), s')"
    and del_total: "inv s \<Longrightarrow> \<exists>s'. del e s k = (Ok (), s')"
    and clear_total: "inv s \<Longrightarrow> \<exists>s'. clear e s = (Ok (), s')"
    and get_absent: "inv s \<Longrightarrow> live e s k = None \<Longrightarrow> \<exists>s'. get e s k = (Ok None, s')"
    and get_never_fails: "fst (get e s k) \<noteq> Err err"
    and get_fresh: "inv s \<Longrightarrow> set_val e s k v ttl = (Ok (), s') \<Longrightarrow> alive e s ttl e' \<Longrightarrow> \<exists>r s''. get e' s' k = (Ok r, s'')"
begin

lemma set_get:
  assumes "inv s" and "alive e s ttl e'"
  shows "\<exists>s' en s''. set_val e s k v ttl = (Ok (), s') \<and> inv s' \<and> get e' s' k = (Ok (Some en), s'') \<and> ce_Value en = v"
proof -
  obtain s' where s': "set_val e s k v ttl = (Ok (), s')" using set_total [OF assms(1)] by blast
  moreover have "inv s'" using inv_set [OF assms(1), of e k v ttl] s' by simp
  moreover obtain r s'' where "get e' s' k = (Ok r, s'')" using get_fresh [OF assms(1) s' assms(2)] by blast
  ultimately show ?thesis using get_set [OF assms(1) s' assms(2)] by blast
qed

end

end
