(* ===== verification/PrefixCache.thy ===== *)
theory PrefixCache
  imports CacheTypes
begin

text \<open>
  The prefix cache tier, \<open>internal/cache/prefix.go\<close>. A \<open>PrefixCacheBlock\<close> is reachable from
  \<open>gpuBlocks\<close> or \<open>swapBlocks\<close>, from \<open>tree.blocks\<close> and from a tree node: blocks are heap objects.
  A tree node belongs to its parent and is a value. The counters are 64-bit and wrap. An
  operation holds \<open>c.mu\<close> as the code does: \<open>Get\<close> takes it three times, and the model has one
  definition per critical section (\<open>get_lookup\<close>, \<open>get_expired\<close>, \<open>get_touch\<close>), which \<open>Get\<close> runs in
  sequence. The mutex of Go is not reentrant, so a call of \<open>evictLRU\<close> with \<open>c.mu\<close> held never
  returns: the outcome \<open>Blocked\<close>. \<open>hash[:16]\<close> panics on a shorter string. \<open>sort.Slice\<close> returns
  some order by access time; since the order of the \<open>range\<close> loop before it is arbitrary, a
  stable sort of an arbitrary order is any of them. SHA-256 with hexadecimal printing is the
  argument \<open>sha256_hex\<close>. Eviction goroutines that \<open>Set\<close> has started and that have not run yet
  are counted in \<open>pc_pending\<close>.
\<close>

section \<open>Data\<close>



record PrefixCacheBlock =
  pb_Hash :: string
  pb_Tokens :: "int list"
  pb_KVCache :: bytes
  pb_Size :: int
  pb_RefCount :: int
  pb_CreatedAt :: timestamp
  pb_AccessedAt :: timestamp
  pb_ExpiresAt :: timestamp
  pb_BlockIndex :: int
  pb_InGPU :: bool
  pb_InSwap :: bool

datatype PrefixNode = PrefixNode (pn_TokenID: int) (pn_Children: "(int \<times> PrefixNode) list")
  (pn_Block: "ptr option") (pn_Depth: int)

record PrefixTree =
  pt_root :: PrefixNode
  pt_blocks :: "(string, ptr) gomap"
  pt_maxDepth :: int

record PrefixCache =
  pc_cacheName :: string
  pc_tierName :: string
  pc_maxSize :: quantity
  pc_defaultTTL :: duration
  pc_config :: "PrefixCacheConfig option"
  pc_tree :: PrefixTree
  pc_gpuBlocks :: "(string, ptr) gomap"
  pc_swapBlocks :: "(string, ptr) gomap"
  pc_hits :: int
  pc_misses :: int
  pc_usedSize :: int
  pc_swapUsed :: int
  pc_entries :: int
  pc_blockSize :: int
  pc_maxPrefixLen :: int
  pc_minPrefixLen :: int
  pc_enableSwap :: bool
  pc_swapSize :: int
  pc_pending :: nat
  pc_heap :: "PrefixCacheBlock list"

type_synonym block_ord = "(string, ptr) gomap \<Rightarrow> (string, ptr) gomap"

record pc_env =
  pe_now :: timestamp
  pe_access :: timestamp

definition NewPrefixCache :: "string \<Rightarrow> string \<Rightarrow> quantity \<Rightarrow> duration \<Rightarrow> PrefixCacheConfig option \<Rightarrow> PrefixCache" where
  "NewPrefixCache cacheName tierName sz ttl config =
    \<lparr>pc_cacheName = cacheName, pc_tierName = tierName, pc_maxSize = sz,
     pc_defaultTTL = (if ttl = 0 then hour else ttl), pc_config = config,
     pc_tree = \<lparr>pt_root = PrefixNode (-1) [] None 0, pt_blocks = [], pt_maxDepth = 2048\<rparr>,
     pc_gpuBlocks = [], pc_swapBlocks = [], pc_hits = 0, pc_misses = 0, pc_usedSize = 0, pc_swapUsed = 0, pc_entries = 0,
     pc_blockSize = (case config of Some cf \<Rightarrow> if pcc_BlockSize cf > 0 then pcc_BlockSize cf else 16 | None \<Rightarrow> 16),
     pc_maxPrefixLen = (case config of Some cf \<Rightarrow> if pcc_MaxPrefixLength cf > 0 then pcc_MaxPrefixLength cf else 2048 | None \<Rightarrow> 2048),
     pc_minPrefixLen = (case config of Some cf \<Rightarrow> if pcc_MinPrefixLength cf > 0 then pcc_MinPrefixLength cf else 32 | None \<Rightarrow> 32),
     pc_enableSwap = (case config of Some cf \<Rightarrow> pcc_EnableSwap cf | None \<Rightarrow> True),
     pc_swapSize = (case config of Some cf \<Rightarrow> (case pcc_SwapSpaceSize cf of Some q \<Rightarrow> q | None \<Rightarrow> 0) | None \<Rightarrow> 0),
     pc_pending = 0, pc_heap = []\<rparr>"

section \<open>Moving and removing blocks\<close>

definition upd_block :: "ptr \<Rightarrow> (PrefixCacheBlock \<Rightarrow> PrefixCacheBlock) \<Rightarrow> PrefixCache \<Rightarrow> PrefixCache" where
  "upd_block p f c = c\<lparr>pc_heap := (pc_heap c)[p := f (pc_heap c ! p)]\<rparr>"

definition removeBlock :: "string \<Rightarrow> ptr \<Rightarrow> PrefixCache \<Rightarrow> PrefixCache" where
  "removeBlock hash p c =
    (let b = pc_heap c ! p;
         c1 = (if pb_InGPU b then c\<lparr>pc_gpuBlocks := gm_del hash (pc_gpuBlocks c), pc_usedSize := wrap64 (pc_usedSize c - pb_Size b)\<rparr> else c);
         c2 = (if pb_InSwap b then c1\<lparr>pc_swapBlocks := gm_del hash (pc_swapBlocks c1), pc_swapUsed := wrap64 (pc_swapUsed c1 - pb_Size b)\<rparr> else c1)
     in c2\<lparr>pc_tree := (pc_tree c2)\<lparr>pt_blocks := gm_del hash (pt_blocks (pc_tree c2))\<rparr>, pc_entries := wrap64 (pc_entries c2 - 1)\<rparr>)"

text \<open>The log line at the end slices the hash: it panics, after the move, on a hash below 16 bytes.\<close>

definition log_hash :: "string \<Rightarrow> (cache_error, unit) outcome" where
  "log_hash hash = (if length hash < 16 then Panic else Ok ())"

definition move_to_swap :: "string \<Rightarrow> ptr \<Rightarrow> PrefixCache \<Rightarrow> PrefixCache" where
  "move_to_swap hash p c =
    (let b = pc_heap c ! p in
     (upd_block p (\<lambda>b. b\<lparr>pb_InGPU := False, pb_InSwap := True\<rparr>) c)\<lparr>
       pc_gpuBlocks := gm_del hash (pc_gpuBlocks c), pc_swapBlocks := gm_set hash p (pc_swapBlocks c),
       pc_usedSize := wrap64 (pc_usedSize c - pb_Size b), pc_swapUsed := wrap64 (pc_swapUsed c + pb_Size b)\<rparr>)"

definition moveToSwap :: "string \<Rightarrow> ptr \<Rightarrow> PrefixCache \<Rightarrow> (cache_error, unit) outcome \<times> PrefixCache" where
  "moveToSwap hash p c = (log_hash hash, move_to_swap hash p c)"

definition move_to_gpu :: "string \<Rightarrow> ptr \<Rightarrow> PrefixCache \<Rightarrow> PrefixCache" where
  "move_to_gpu hash p c =
    (let b = pc_heap c ! p in
     (upd_block p (\<lambda>b. b\<lparr>pb_InGPU := True, pb_InSwap := False\<rparr>) c)\<lparr>
       pc_swapBlocks := gm_del hash (pc_swapBlocks c), pc_gpuBlocks := gm_set hash p (pc_gpuBlocks c),
       pc_swapUsed := wrap64 (pc_swapUsed c - pb_Size b), pc_usedSize := wrap64 (pc_usedSize c + pb_Size b)\<rparr>)"

text \<open>Called with \<open>c.mu\<close> held: where it calls \<open>evictLRU\<close>, which locks \<open>c.mu\<close>, it waits for itself.\<close>

definition moveToGPU :: "string \<Rightarrow> ptr \<Rightarrow> PrefixCache \<Rightarrow> (cache_error, unit) outcome \<times> PrefixCache" where
  "moveToGPU hash p c =
    (if wrap64 (pc_usedSize c + pb_Size (pc_heap c ! p)) > pc_maxSize c then (Blocked, c)
     else (log_hash hash, move_to_gpu hash p c))"

section \<open>Eviction\<close>

definition evictExpired :: "block_ord \<Rightarrow> timestamp \<Rightarrow> PrefixCache \<Rightarrow> PrefixCache" where
  "evictExpired ord now c =
     fold (\<lambda>(hash, p) c. if now > pb_ExpiresAt (pc_heap c ! p) \<and> pb_RefCount (pc_heap c ! p) = 0
        then removeBlock hash p c else c) (ord (pc_gpuBlocks c)) c"

definition targetSize :: "PrefixCache \<Rightarrow> int" where
  "targetSize c = go_div (wrap64 (pc_maxSize c * 80)) 100"

definition lru_candidates :: "block_ord \<Rightarrow> PrefixCache \<Rightarrow> (string \<times> ptr) list" where
  "lru_candidates ord c = sort_key (\<lambda>(hash, p). pb_AccessedAt (pc_heap c ! p))
     (filter (\<lambda>(hash, p). pb_RefCount (pc_heap c ! p) = 0) (ord (pc_gpuBlocks c)))"

fun evict_loop :: "int \<Rightarrow> (string \<times> ptr) list \<Rightarrow> PrefixCache \<Rightarrow> (cache_error, unit) outcome \<times> PrefixCache" where
  "evict_loop target [] c = (Ok (), c)"
| "evict_loop target ((hash, p) # blocks) c =
    (if pc_usedSize c \<le> target then (Ok (), c)
     else if pc_enableSwap c \<and> pc_swapUsed c < pc_swapSize c
     then (case moveToSwap hash p c of (Ok _, c') \<Rightarrow> evict_loop target blocks c' | (r, c') \<Rightarrow> (r, c'))
     else evict_loop target blocks (removeBlock hash p c))"

definition evictLRU :: "block_ord \<Rightarrow> PrefixCache \<Rightarrow> (cache_error, unit) outcome \<times> PrefixCache" where
  "evictLRU ord c =
    (if pc_usedSize c \<le> targetSize c then (Ok (), c)
     else evict_loop (targetSize c) (lru_candidates ord c) c)"

text \<open>One round of \<open>evictionLoop\<close>, and the run of one eviction goroutine started by \<open>Set\<close>.\<close>

definition eviction_tick :: "block_ord \<Rightarrow> block_ord \<Rightarrow> timestamp \<Rightarrow> PrefixCache \<Rightarrow> (cache_error, unit) outcome \<times> PrefixCache" where
  "eviction_tick ord ord' now c = evictLRU ord' (evictExpired ord now c)"

definition run_pending :: "block_ord \<Rightarrow> PrefixCache \<Rightarrow> (cache_error, unit) outcome \<times> PrefixCache" where
  "run_pending ord c =
    (if pc_pending c = 0 then (Ok (), c) else evictLRU ord (c\<lparr>pc_pending := pc_pending c - 1\<rparr>))"

section \<open>The tier's operations\<close>

definition Prefix_Name :: "PrefixCache \<Rightarrow> string" where
  "Prefix_Name c = pc_tierName c"

definition Prefix_Type :: "PrefixCache \<Rightarrow> CacheTierType" where
  "Prefix_Type c = CacheTierTypePrefix"

definition token_bytes :: "int \<Rightarrow> bytes" where
  "token_bytes t = [word_of_int (t div 2 ^ 24), word_of_int (t div 2 ^ 16), word_of_int (t div 2 ^ 8), word_of_int t]"

definition tokens_data :: "int list \<Rightarrow> bytes" where
  "tokens_data tokens = concat (map token_bytes tokens)"

definition hashTokens :: "(bytes \<Rightarrow> string) \<Rightarrow> int list \<Rightarrow> string" where
  "hashTokens sha256_hex tokens = sha256_hex (tokens_data tokens)"

definition get_lookup :: "PrefixCache \<Rightarrow> string \<Rightarrow> ptr option" where
  "get_lookup c key = (case gm_get (pc_gpuBlocks c) key of Some p \<Rightarrow> Some p | None \<Rightarrow> gm_get (pc_swapBlocks c) key)"

definition get_miss :: "PrefixCache \<Rightarrow> PrefixCache" where
  "get_miss c = c\<lparr>pc_misses := wrap64 (pc_misses c + 1)\<rparr>"

definition get_expired :: "string \<Rightarrow> ptr \<Rightarrow> PrefixCache \<Rightarrow> PrefixCache" where
  "get_expired key p c = get_miss (removeBlock key p c)"

definition get_pin :: "ptr \<Rightarrow> PrefixCache \<Rightarrow> PrefixCache" where
  "get_pin p c = upd_block p (\<lambda>b. b\<lparr>pb_RefCount := pb_RefCount b + 1\<rparr>) (c\<lparr>pc_hits := wrap64 (pc_hits c + 1)\<rparr>)"

definition get_unpin :: "ptr \<Rightarrow> PrefixCache \<Rightarrow> PrefixCache" where
  "get_unpin p c = upd_block p (\<lambda>b. b\<lparr>pb_RefCount := pb_RefCount b - 1\<rparr>) c"

definition get_touch :: "timestamp \<Rightarrow> string \<Rightarrow> ptr \<Rightarrow> PrefixCache \<Rightarrow> (cache_error, unit) outcome \<times> PrefixCache" where
  "get_touch now key p c =
    (let c1 = upd_block p (\<lambda>b. b\<lparr>pb_AccessedAt := now\<rparr>) c in
     if pb_InSwap (pc_heap c1 ! p) then moveToGPU key p c1 else (Ok (), c1))"

definition block_entry :: "PrefixCache \<Rightarrow> string \<Rightarrow> PrefixCacheBlock \<Rightarrow> CacheEntry" where
  "block_entry c key b = \<lparr>ce_Key = key, ce_Value = pb_KVCache b, ce_Size = pb_Size b, ce_CreatedAt = pb_CreatedAt b,
     ce_AccessedAt = pb_AccessedAt b, ce_AccessCount = 0, ce_TTL = 0, ce_Tier = pc_tierName c, ce_Metadata = []\<rparr>"

definition Prefix_Get :: "pc_env \<Rightarrow> PrefixCache \<Rightarrow> string \<Rightarrow> (cache_error, CacheEntry option) outcome \<times> PrefixCache" where
  "Prefix_Get e c key =
    (case get_lookup c key of
       None \<Rightarrow> (Ok None, get_miss c)
     | Some p \<Rightarrow>
         if pe_now e > pb_ExpiresAt (pc_heap c ! p) then (Ok None, get_expired key p c)
         else case get_touch (pe_access e) key p (get_pin p c) of
                (Ok _, c') \<Rightarrow> (Ok (Some (block_entry c' key (pc_heap c' ! p))), get_unpin p c')
              | (Panic, c') \<Rightarrow> (Panic, get_unpin p c')
              | (Blocked, c') \<Rightarrow> (Blocked, c')
              | (Err err, c') \<Rightarrow> (Err err, get_unpin p c'))"

definition new_block :: "timestamp \<Rightarrow> string \<Rightarrow> bytes \<Rightarrow> duration \<Rightarrow> PrefixCacheBlock" where
  "new_block now key value ttl = \<lparr>pb_Hash = key, pb_Tokens = [], pb_KVCache = value, pb_Size = int (length value),
     pb_RefCount = 0, pb_CreatedAt = now, pb_AccessedAt = now, pb_ExpiresAt = now + ttl, pb_BlockIndex = 0,
     pb_InGPU = True, pb_InSwap = False\<rparr>"

definition drop_key :: "string \<Rightarrow> PrefixCache \<Rightarrow> PrefixCache" where
  "drop_key key c = (case get_lookup c key of Some p \<Rightarrow> removeBlock key p c | None \<Rightarrow> c)"

definition Prefix_Set :: "pc_env \<Rightarrow> PrefixCache \<Rightarrow> string \<Rightarrow> bytes \<Rightarrow> duration \<Rightarrow> (cache_error, unit) outcome \<times> PrefixCache" where
  "Prefix_Set e c key value ttl =
    (let b = new_block (pe_now e) key value (if ttl = 0 then pc_defaultTTL c else ttl);
         c1 = drop_key key c;
         c2 = (if wrap64 (pc_usedSize c1 + pb_Size b) > pc_maxSize c1 then c1\<lparr>pc_pending := Suc (pc_pending c1)\<rparr> else c1);
         p = length (pc_heap c2)
     in (Ok (), c2\<lparr>pc_heap := pc_heap c2 @ [b], pc_gpuBlocks := gm_set key p (pc_gpuBlocks c2),
          pc_tree := (pc_tree c2)\<lparr>pt_blocks := gm_set key p (pt_blocks (pc_tree c2))\<rparr>,
          pc_usedSize := wrap64 (pc_usedSize c2 + pb_Size b), pc_entries := wrap64 (pc_entries c2 + 1)\<rparr>))"

definition Prefix_Delete :: "pc_env \<Rightarrow> PrefixCache \<Rightarrow> string \<Rightarrow> (cache_error, unit) outcome \<times> PrefixCache" where
  "Prefix_Delete e c key = (Ok (), drop_key key c)"

fun clear_children :: "PrefixNode \<Rightarrow> PrefixNode" where
  "clear_children (PrefixNode t ch b d) = PrefixNode t [] b d"

definition Prefix_Clear :: "pc_env \<Rightarrow> PrefixCache \<Rightarrow> (cache_error, unit) outcome \<times> PrefixCache" where
  "Prefix_Clear e c = (Ok (), c\<lparr>pc_gpuBlocks := [], pc_swapBlocks := [],
     pc_tree := (pc_tree c)\<lparr>pt_blocks := [], pt_root := clear_children (pt_root (pc_tree c))\<rparr>,
     pc_usedSize := 0, pc_swapUsed := 0, pc_entries := 0\<rparr>)"

definition Prefix_Size :: "PrefixCache \<Rightarrow> quantity" where
  "Prefix_Size c = pc_maxSize c"

definition Prefix_UsedSize :: "PrefixCache \<Rightarrow> quantity" where
  "Prefix_UsedSize c = pc_usedSize c"

definition Prefix_Entries :: "PrefixCache \<Rightarrow> int" where
  "Prefix_Entries c = pc_entries c"

definition Prefix_Stats :: "PrefixCache \<Rightarrow> TierStats" where
  "Prefix_Stats c = \<lparr>st_HitRate = fst (rates (pc_hits c) (pc_misses c)), st_MissRate = snd (rates (pc_hits c) (pc_misses c)),
     st_AvgLatency = 0, st_Entries = pc_entries c, st_UsedSize = pc_usedSize c, st_MaxSize = pc_maxSize c, st_Evictions = 0\<rparr>"

definition Prefix_Healthy :: "PrefixCache \<Rightarrow> bool" where
  "Prefix_Healthy c = True"

definition prefix_tier :: "(pc_env, PrefixCache) CacheTier" where
  "prefix_tier = \<lparr>op_Name = Prefix_Name, op_Type = Prefix_Type, op_Get = Prefix_Get, op_Set = Prefix_Set,
     op_Delete = Prefix_Delete, op_Clear = Prefix_Clear, op_Size = Prefix_Size, op_UsedSize = Prefix_UsedSize,
     op_Entries = Prefix_Entries, op_Stats = Prefix_Stats, op_Healthy = Prefix_Healthy\<rparr>"

section \<open>The prefix tree\<close>

fun match_node :: "int \<Rightarrow> nat \<Rightarrow> PrefixNode \<Rightarrow> int list \<Rightarrow> nat \<times> ptr list" where
  "match_node maxLen i cur [] = (i, [])"
| "match_node maxLen i cur (t # ts) =
    (if int i \<ge> maxLen then (i, [])
     else case gm_get (pn_Children cur) t of
       None \<Rightarrow> (i, [])
     | Some child \<Rightarrow> (case match_node maxLen (Suc i) child ts of (n, bs) \<Rightarrow>
         (n, (case pn_Block child of Some b \<Rightarrow> b # bs | None \<Rightarrow> bs))))"

definition MatchPrefix :: "PrefixCache \<Rightarrow> int list \<Rightarrow> nat \<times> ptr list" where
  "MatchPrefix c tokens = match_node (pc_maxPrefixLen c) 0 (pt_root (pc_tree c)) tokens"

fun insert_node :: "ptr option \<Rightarrow> nat \<Rightarrow> int list \<Rightarrow> PrefixNode \<Rightarrow> PrefixNode" where
  "insert_node blk i [] (PrefixNode tid ch b d) = PrefixNode tid ch (case blk of Some p \<Rightarrow> Some p | None \<Rightarrow> b) d"
| "insert_node blk i (t # ts) (PrefixNode tid ch b d) =
    (let child = (case gm_get ch t of Some n \<Rightarrow> n | None \<Rightarrow> PrefixNode t [] None (wrap32 (int i + 1)))
     in PrefixNode tid (gm_set t (insert_node blk (Suc i) ts child) ch) b d)"

definition insertIntoTree :: "int list \<Rightarrow> string \<Rightarrow> PrefixCache \<Rightarrow> PrefixCache" where
  "insertIntoTree tokens blockHash c =
     c\<lparr>pc_tree := (pc_tree c)\<lparr>pt_root := insert_node (gm_get (pt_blocks (pc_tree c)) blockHash) 0 tokens (pt_root (pc_tree c))\<rparr>\<rparr>"

fun insert_blocks :: "(nat \<Rightarrow> pc_env) \<Rightarrow> (bytes \<Rightarrow> string) \<Rightarrow> int list \<Rightarrow> bytes \<Rightarrow> duration \<Rightarrow> nat \<Rightarrow> nat \<Rightarrow> nat
    \<Rightarrow> PrefixCache \<Rightarrow> PrefixCache" where
  "insert_blocks e sha256_hex tokens kv ttl i 0 blockStart c = c"
| "insert_blocks e sha256_hex tokens kv ttl i (Suc n) blockStart c =
    (let blockEnd = min (blockStart + nat (pc_blockSize c)) (length tokens);
         blockTokens = drop blockStart (take blockEnd tokens);
         blockHash = hashTokens sha256_hex (take blockEnd tokens);
         kvStart = blockStart * length kv div length tokens;
         kvEnd = blockEnd * length kv div length tokens;
         c1 = snd (Prefix_Set (e i) c blockHash (drop kvStart (take kvEnd kv)) ttl)
     in insert_blocks e sha256_hex tokens kv ttl (Suc i) n blockEnd (insertIntoTree blockTokens blockHash c1))"

definition InsertPrefix :: "(nat \<Rightarrow> pc_env) \<Rightarrow> (bytes \<Rightarrow> string) \<Rightarrow> PrefixCache \<Rightarrow> int list \<Rightarrow> bytes \<Rightarrow> duration
    \<Rightarrow> (cache_error, unit) outcome \<times> PrefixCache" where
  "InsertPrefix e sha256_hex c tokens kv ttl =
    (if int (length tokens) < pc_minPrefixLen c then (Err (PrefixTooShort (int (length tokens)) (pc_minPrefixLen c)), c)
     else let tokens' = (if int (length tokens) > pc_maxPrefixLen c then take (nat (pc_maxPrefixLen c)) tokens else tokens);
              numBlocks = (length tokens' + nat (pc_blockSize c) - 1) div nat (pc_blockSize c)
          in (Ok (), insert_blocks e sha256_hex tokens' kv ttl 0 numBlocks 0 c))"

record swap_stats =
  ss_enabled :: bool
  ss_maxSize :: int
  ss_usedSize :: int
  ss_blockCount :: int
  ss_gpuBlocks :: int

definition GetSwapStats :: "PrefixCache \<Rightarrow> swap_stats" where
  "GetSwapStats c = \<lparr>ss_enabled = pc_enableSwap c, ss_maxSize = pc_swapSize c, ss_usedSize = pc_swapUsed c,
     ss_blockCount = int (length (pc_swapBlocks c)), ss_gpuBlocks = int (length (pc_gpuBlocks c))\<rparr>"

end
