(* ===== verification/PrefixCacheInv.thy ===== *)
theory PrefixCacheInv
  imports PrefixCache
begin

text \<open>
  The prefix cache: its accounting invariant, that every operation keeps it, the contract of a
  cache tier, eviction, and what its locking and its prefix tree do.
\<close>

section \<open>The invariant\<close>

definition total :: "PrefixCacheBlock list \<Rightarrow> (string, ptr) gomap \<Rightarrow> int" where
  "total h m = gm_sum (\<lambda>p. pb_Size (h ! p)) m"

definition blocks_ok :: "PrefixCacheBlock list \<Rightarrow> (string, ptr) gomap \<Rightarrow> (string, ptr) gomap \<Rightarrow> bool" where
  "blocks_ok h gpu swap \<longleftrightarrow> ix_ok pb_Hash h gpu \<and> ix_ok pb_Hash h swap \<and> fst ` set gpu \<inter> fst ` set swap = {} \<and>
     (\<forall>(k, p) \<in> set gpu. pb_InGPU (h ! p) \<and> \<not> pb_InSwap (h ! p)) \<and>
     (\<forall>(k, p) \<in> set swap. \<not> pb_InGPU (h ! p) \<and> pb_InSwap (h ! p))"

text \<open>
  Every block is filed under its hash in exactly one of the two maps, as its flags say; the
  tree's map has the same blocks; and the three counters are the sizes and the number of the
  blocks that are filed, modulo \<open>2 ^ 64\<close>.
\<close>

definition pc_ok :: "PrefixCache \<Rightarrow> bool" where
  "pc_ok c \<longleftrightarrow> blocks_ok (pc_heap c) (pc_gpuBlocks c) (pc_swapBlocks c) \<and> gm_ok (pt_blocks (pc_tree c)) \<and>
     (\<forall>k. gm_get (pt_blocks (pc_tree c)) k = get_lookup c k) \<and>
     pc_usedSize c = wrap64 (total (pc_heap c) (pc_gpuBlocks c)) \<and>
     pc_swapUsed c = wrap64 (total (pc_heap c) (pc_swapBlocks c)) \<and>
     pc_entries c = wrap64 (int (length (pc_gpuBlocks c)) + int (length (pc_swapBlocks c)))"

lemma blocks_okD:
  assumes "blocks_ok h gpu swap"
  shows "ix_ok pb_Hash h gpu" "ix_ok pb_Hash h swap" "gm_ok gpu" "gm_ok swap" "fst ` set gpu \<inter> fst ` set swap = {}"
    "(k, p) \<in> set gpu \<Longrightarrow> p < length h \<and> pb_Hash (h ! p) = k \<and> pb_InGPU (h ! p) \<and> \<not> pb_InSwap (h ! p)"
    "(k, p) \<in> set swap \<Longrightarrow> p < length h \<and> pb_Hash (h ! p) = k \<and> \<not> pb_InGPU (h ! p) \<and> pb_InSwap (h ! p)"
  using assms unfolding blocks_ok_def ix_ok_def by fast+

lemma pc_ok_blocks: "pc_ok c \<Longrightarrow> blocks_ok (pc_heap c) (pc_gpuBlocks c) (pc_swapBlocks c)"
  by (simp add: pc_ok_def)

lemma total_del: "gm_ok m \<Longrightarrow> gm_get m k = Some p \<Longrightarrow> total h (gm_del k m) = total h m - pb_Size (h ! p)"
  unfolding total_def by (rule gm_sum_del)

lemma total_set_new: "k \<notin> fst ` set m \<Longrightarrow> total h (gm_set k p m) = total h m + pb_Size (h ! p)"
  unfolding total_def by (rule gm_sum_set_new)

lemma total_cong: "(\<And>k p. (k, p) \<in> set m \<Longrightarrow> pb_Size (h ! p) = pb_Size (h' ! p)) \<Longrightarrow> total h m = total h' m"
  unfolding total_def by (rule gm_sum_cong)

lemma blocks_ok_del:
  assumes "blocks_ok h gpu swap"
  shows "blocks_ok h (gm_del k gpu) (gm_del k' swap)" "blocks_ok h (gm_del k gpu) swap" "blocks_ok h gpu (gm_del k' swap)"
  using assms set_gm_del_subset [of k gpu] set_gm_del_subset [of k' swap]
  unfolding blocks_ok_def by (auto intro: ix_ok_del)

lemma get_lookup_cong:
  "pc_gpuBlocks c' = pc_gpuBlocks c \<Longrightarrow> pc_swapBlocks c' = pc_swapBlocks c \<Longrightarrow> get_lookup c' k = get_lookup c k"
  by (simp add: get_lookup_def split: option.split)

lemma blocks_disjoint: "blocks_ok h gpu swap \<Longrightarrow> (k, p) \<in> set gpu \<Longrightarrow> (k, q) \<in> set swap \<Longrightarrow> False"
  using blocks_okD(5) by force

text \<open>Changing fields of a block that neither identify, weigh nor place it.\<close>

lemma pc_ok_upd_block:
  assumes "pc_ok c"
    and "\<And>b. pb_Hash (f b) = pb_Hash b \<and> pb_Size (f b) = pb_Size b \<and> pb_InGPU (f b) = pb_InGPU b \<and> pb_InSwap (f b) = pb_InSwap b"
  shows "pc_ok (upd_block p f c)" and "get_lookup (upd_block p f c) k = get_lookup c k"
proof -
  let ?h = "(pc_heap c)[p := f (pc_heap c ! p)]"
  have n: "pb_Hash (?h ! q) = pb_Hash (pc_heap c ! q)" "pb_Size (?h ! q) = pb_Size (pc_heap c ! q)"
    "pb_InGPU (?h ! q) = pb_InGPU (pc_heap c ! q)" "pb_InSwap (?h ! q) = pb_InSwap (pc_heap c ! q)" for q
  proof -
    have "?h ! q = (if q = p \<and> p < length (pc_heap c) then f (pc_heap c ! q) else pc_heap c ! q)"
      by (cases "p < length (pc_heap c)") (auto simp: nth_list_update list_update_beyond)
    then show "pb_Hash (?h ! q) = pb_Hash (pc_heap c ! q)" "pb_Size (?h ! q) = pb_Size (pc_heap c ! q)"
      "pb_InGPU (?h ! q) = pb_InGPU (pc_heap c ! q)" "pb_InSwap (?h ! q) = pb_InSwap (pc_heap c ! q)"
      using assms(2) by simp_all
  qed
  have "blocks_ok ?h (pc_gpuBlocks c) (pc_swapBlocks c)"
    using pc_ok_blocks [OF assms(1)] unfolding blocks_ok_def n ix_ok_def by simp
  moreover have "total ?h m = total (pc_heap c) m" for m by (rule total_cong) (simp add: n)
  moreover show "get_lookup (upd_block p f c) k = get_lookup c k" for k by (rule get_lookup_cong) (simp_all add: upd_block_def)
  ultimately show "pc_ok (upd_block p f c)" using assms(1) by (simp add: pc_ok_def) (simp add: upd_block_def)
qed

lemma get_lookup_cases:
  assumes "pc_ok c" and "get_lookup c k = Some p"
  obtains (gpu) "gm_get (pc_gpuBlocks c) k = Some p" "gm_get (pc_swapBlocks c) k = None" "k \<notin> fst ` set (pc_swapBlocks c)"
      "pb_InGPU (pc_heap c ! p)" "\<not> pb_InSwap (pc_heap c ! p)" "p < length (pc_heap c)" "pb_Hash (pc_heap c ! p) = k"
    | (swap) "gm_get (pc_swapBlocks c) k = Some p" "gm_get (pc_gpuBlocks c) k = None" "k \<notin> fst ` set (pc_gpuBlocks c)"
      "\<not> pb_InGPU (pc_heap c ! p)" "pb_InSwap (pc_heap c ! p)" "p < length (pc_heap c)" "pb_Hash (pc_heap c ! p) = k"
proof -
  note b = blocks_okD [OF pc_ok_blocks [OF assms(1)]]
  show thesis
  proof (cases "gm_get (pc_gpuBlocks c) k")
    case None
    then have s: "gm_get (pc_swapBlocks c) k = Some p" using assms(2) by (simp add: get_lookup_def)
    then show thesis using None b(7) [OF gm_get_mem [OF s]] by (intro swap) (auto simp: gm_get_none)
  next
    case (Some q)
    then have q: "q = p" using assms(2) by (simp add: get_lookup_def)
    have "k \<notin> fst ` set (pc_swapBlocks c)" using b(5) gm_get_mem [OF Some] by force
    then show thesis using Some q b(6) [OF gm_get_mem [OF Some]] by (intro gpu) (auto simp: gm_get_none)
  qed
qed

lemma length_del_some: "gm_ok m \<Longrightarrow> gm_get m k = Some p \<Longrightarrow> int (length (gm_del k m)) = int (length m) - 1"
  using length_gm_del [of m k] gm_get_mem [of m k p] by (cases m) force+

lemma removeBlock_heap [simp]: "pc_heap (removeBlock k p c) = pc_heap c"
  by (simp add: removeBlock_def Let_def)

lemma removeBlock_ok:
  assumes ok: "pc_ok c" and look: "get_lookup c k = Some p"
  shows "pc_ok (removeBlock k p c)" and "get_lookup (removeBlock k p c) k' = (if k' = k then None else get_lookup c k')"
proof -
  note b = blocks_okD [OF pc_ok_blocks [OF ok]]
  have acct: "pc_usedSize c = wrap64 (total (pc_heap c) (pc_gpuBlocks c))" "pc_swapUsed c = wrap64 (total (pc_heap c) (pc_swapBlocks c))"
    "pc_entries c = wrap64 (int (length (pc_gpuBlocks c)) + int (length (pc_swapBlocks c)))"
    and tree: "gm_ok (pt_blocks (pc_tree c))" "\<And>k. gm_get (pt_blocks (pc_tree c)) k = get_lookup c k"
    using ok by (auto simp: pc_ok_def)
  show l: "get_lookup (removeBlock k p c) k' = (if k' = k then None else get_lookup c k')" for k'
    using ok look by (cases rule: get_lookup_cases) (auto simp: removeBlock_def Let_def get_lookup_def delete_conv' split: option.splits)
  have bl: "blocks_ok (pc_heap c) (pc_gpuBlocks (removeBlock k p c)) (pc_swapBlocks (removeBlock k p c))"
    using pc_ok_blocks [OF ok] blocks_ok_del by (simp add: removeBlock_def Let_def)
  have tr: "gm_get (pt_blocks (pc_tree (removeBlock k p c))) k' = get_lookup (removeBlock k p c) k'" for k'
    unfolding l using tree(2) [of k'] by (simp add: removeBlock_def Let_def delete_conv')
  have "gm_ok (pt_blocks (pc_tree (removeBlock k p c)))" using tree(1) by (simp add: removeBlock_def Let_def gm_ok_delete)
  moreover from ok look have "pc_usedSize (removeBlock k p c) = wrap64 (total (pc_heap c) (pc_gpuBlocks (removeBlock k p c))) \<and>
    pc_swapUsed (removeBlock k p c) = wrap64 (total (pc_heap c) (pc_swapBlocks (removeBlock k p c))) \<and>
    pc_entries (removeBlock k p c) =
      wrap64 (int (length (pc_gpuBlocks (removeBlock k p c))) + int (length (pc_swapBlocks (removeBlock k p c))))"
    by (cases rule: get_lookup_cases)
      (simp_all add: removeBlock_def Let_def acct total_del [OF b(3)] total_del [OF b(4)]
        length_del_some [OF b(3)] length_del_some [OF b(4)] algebra_simps)
  ultimately show "pc_ok (removeBlock k p c)" using bl tr by (simp add: pc_ok_def)
qed

section \<open>Moving between GPU and swap\<close>

text \<open>Refiling the block of a key on the other side, with its flags turned.\<close>

lemma nth_upd_other: "p < length h \<Longrightarrow> (h[p := x]) ! q = (if q = p then x else h ! q)"
  by (auto simp: nth_list_update)

lemma other_ptr:
  assumes "blocks_ok h gpu swap" and "p < length h" and "pb_Hash (h ! p) = k"
  shows "(k', q) \<in> set gpu \<Longrightarrow> k' \<noteq> k \<Longrightarrow> q \<noteq> p" "(k', q) \<in> set swap \<Longrightarrow> k' \<noteq> k \<Longrightarrow> q \<noteq> p"
  using blocks_okD(6,7) [OF assms(1)] assms(3) by auto

lemma gm_del_mem: "(k', q) \<in> set (gm_del k m) \<longleftrightarrow> (k', q) \<in> set m \<and> k' \<noteq> k"
  by (auto simp: AList.delete_eq)

lemma gm_set_mem: "gm_ok m \<Longrightarrow> (k', q) \<in> set (gm_set k p m) \<longleftrightarrow> (if k' = k then q = p else (k', q) \<in> set m)"
  by (subst gm_get_in [symmetric]) (auto simp: gm_ok_update gm_get_set gm_get_in)

lemma move_to_swap_ok:
  assumes ok: "pc_ok c" and g: "gm_get (pc_gpuBlocks c) k = Some p"
  shows "pc_ok (move_to_swap k p c)" and "get_lookup (move_to_swap k p c) k' = get_lookup c k'"
proof -
  note b = blocks_okD [OF pc_ok_blocks [OF ok]]
  have look: "get_lookup c k = Some p" using g by (simp add: get_lookup_def)
  from ok look g have s: "gm_get (pc_swapBlocks c) k = None" "k \<notin> fst ` set (pc_swapBlocks c)"
    "p < length (pc_heap c)" "pb_Hash (pc_heap c ! p) = k" by (auto elim: get_lookup_cases)
  let ?h = "(pc_heap c)[p := (pc_heap c ! p)\<lparr>pb_InGPU := False, pb_InSwap := True\<rparr>]"
  let ?g = "gm_del k (pc_gpuBlocks c)" and ?s = "gm_set k p (pc_swapBlocks c)"
  have n: "pb_Hash (?h ! q) = pb_Hash (pc_heap c ! q)" "pb_Size (?h ! q) = pb_Size (pc_heap c ! q)" for q
    using s(3) by (auto simp: nth_upd_other)
  note op = other_ptr [OF pc_ok_blocks [OF ok] s(3,4)]
  have "blocks_ok ?h ?g ?s" unfolding blocks_ok_def ix_ok_def
    using b s op by (auto simp: gm_del_mem gm_set_mem n nth_upd_other gm_ok_delete gm_ok_update image_iff split: if_splits dest: op blocks_disjoint [OF pc_ok_blocks [OF ok]])
  moreover have "total ?h ?g = total (pc_heap c) ?g" "total ?h ?s = total (pc_heap c) ?s" by (rule total_cong, simp add: n)+
  moreover have look': "get_lookup (move_to_swap k p c) k' = get_lookup c k'" for k'
    using g s by (auto simp: move_to_swap_def Let_def get_lookup_def upd_block_def delete_conv' gm_get_set split: option.splits)
  moreover have "int (length ?g) + int (length ?s) = int (length (pc_gpuBlocks c)) + int (length (pc_swapBlocks c))"
    using s(2) length_del_some [OF b(3) g] by (simp add: length_gm_set)
  moreover have "pc_heap (move_to_swap k p c) = ?h" "pc_gpuBlocks (move_to_swap k p c) = ?g" "pc_swapBlocks (move_to_swap k p c) = ?s"
    "pc_tree (move_to_swap k p c) = pc_tree c" "pc_entries (move_to_swap k p c) = pc_entries c"
    "pc_usedSize (move_to_swap k p c) = wrap64 (pc_usedSize c - pb_Size (pc_heap c ! p))"
    "pc_swapUsed (move_to_swap k p c) = wrap64 (pc_swapUsed c + pb_Size (pc_heap c ! p))"
    by (simp_all add: move_to_swap_def Let_def upd_block_def)
  ultimately show "pc_ok (move_to_swap k p c)"
    using ok unfolding pc_ok_def
    by (simp only: total_del [OF b(3) g] total_set_new [OF s(2)] wrap64_diff_left wrap64_add_left simp_thms)
  show "get_lookup (move_to_swap k p c) k' = get_lookup c k'" by (rule look')
qed

lemma move_to_gpu_ok:
  assumes ok: "pc_ok c" and g: "gm_get (pc_swapBlocks c) k = Some p"
  shows "pc_ok (move_to_gpu k p c)" and "get_lookup (move_to_gpu k p c) k' = get_lookup c k'"
proof -
  note b = blocks_okD [OF pc_ok_blocks [OF ok]]
  have "k \<notin> fst ` set (pc_gpuBlocks c)" using b(5) gm_get_mem [OF g] by force
  then have s: "gm_get (pc_gpuBlocks c) k = None" "k \<notin> fst ` set (pc_gpuBlocks c)"
    "p < length (pc_heap c)" "pb_Hash (pc_heap c ! p) = k" using b(7) [OF gm_get_mem [OF g]] by (auto simp: gm_get_none)
  let ?h = "(pc_heap c)[p := (pc_heap c ! p)\<lparr>pb_InGPU := True, pb_InSwap := False\<rparr>]"
  let ?g = "gm_set k p (pc_gpuBlocks c)" and ?s = "gm_del k (pc_swapBlocks c)"
  have n: "pb_Hash (?h ! q) = pb_Hash (pc_heap c ! q)" "pb_Size (?h ! q) = pb_Size (pc_heap c ! q)" for q
    using s(3) by (auto simp: nth_upd_other)
  note op = other_ptr [OF pc_ok_blocks [OF ok] s(3,4)]
  have "blocks_ok ?h ?g ?s" unfolding blocks_ok_def ix_ok_def
    using b s op by (auto simp: gm_del_mem gm_set_mem n nth_upd_other gm_ok_delete gm_ok_update image_iff split: if_splits dest: op blocks_disjoint [OF pc_ok_blocks [OF ok]])
  moreover have "total ?h ?g = total (pc_heap c) ?g" "total ?h ?s = total (pc_heap c) ?s" by (rule total_cong, simp add: n)+
  moreover have look': "get_lookup (move_to_gpu k p c) k' = get_lookup c k'" for k'
    using g s by (auto simp: move_to_gpu_def Let_def get_lookup_def upd_block_def delete_conv' gm_get_set split: option.splits)
  moreover have "int (length ?g) + int (length ?s) = int (length (pc_gpuBlocks c)) + int (length (pc_swapBlocks c))"
    using s(2) length_del_some [OF b(4) g] by (simp add: length_gm_set)
  moreover have "pc_heap (move_to_gpu k p c) = ?h" "pc_gpuBlocks (move_to_gpu k p c) = ?g" "pc_swapBlocks (move_to_gpu k p c) = ?s"
    "pc_tree (move_to_gpu k p c) = pc_tree c" "pc_entries (move_to_gpu k p c) = pc_entries c"
    "pc_swapUsed (move_to_gpu k p c) = wrap64 (pc_swapUsed c - pb_Size (pc_heap c ! p))"
    "pc_usedSize (move_to_gpu k p c) = wrap64 (pc_usedSize c + pb_Size (pc_heap c ! p))"
    by (simp_all add: move_to_gpu_def Let_def upd_block_def)
  ultimately show "pc_ok (move_to_gpu k p c)"
    using ok unfolding pc_ok_def
    by (simp only: total_del [OF b(4) g] total_set_new [OF s(2)] wrap64_diff_left wrap64_add_left simp_thms)
  show "get_lookup (move_to_gpu k p c) k' = get_lookup c k'" by (rule look')
qed

section \<open>Every operation keeps the invariant\<close>

lemma drop_key_heap [simp]: "pc_heap (drop_key k c) = pc_heap c"
  by (simp add: drop_key_def split: option.split)

lemma drop_key_ok:
  assumes "pc_ok c"
  shows "pc_ok (drop_key k c)" and "get_lookup (drop_key k c) k' = (if k' = k then None else get_lookup c k')"
  using assms removeBlock_ok [OF assms] by (auto simp: drop_key_def split: option.splits)

lemma get_lookup_none: "get_lookup c k = None \<longleftrightarrow> k \<notin> fst ` set (pc_gpuBlocks c) \<and> k \<notin> fst ` set (pc_swapBlocks c)"
  by (simp add: gm_get_none [symmetric] get_lookup_def split: option.split)

lemma pc_ok_irrelevant [simp]:
  "pc_ok (c\<lparr>pc_pending := n\<rparr>) = pc_ok c" "pc_ok (c\<lparr>pc_hits := i\<rparr>) = pc_ok c" "pc_ok (c\<lparr>pc_misses := i\<rparr>) = pc_ok c"
  "get_lookup (c\<lparr>pc_pending := n\<rparr>) k = get_lookup c k" "get_lookup (c\<lparr>pc_hits := i\<rparr>) k = get_lookup c k"
  "get_lookup (c\<lparr>pc_misses := i\<rparr>) k = get_lookup c k"
proof -
  show l: "get_lookup (c\<lparr>pc_pending := n\<rparr>) k = get_lookup c k" "get_lookup (c\<lparr>pc_hits := i\<rparr>) k = get_lookup c k"
    "get_lookup (c\<lparr>pc_misses := i\<rparr>) k = get_lookup c k" for k by (rule get_lookup_cong; simp)+
  show "pc_ok (c\<lparr>pc_pending := n\<rparr>) = pc_ok c" "pc_ok (c\<lparr>pc_hits := i\<rparr>) = pc_ok c" "pc_ok (c\<lparr>pc_misses := i\<rparr>) = pc_ok c"
    by (simp_all add: pc_ok_def l)
qed

text \<open>Filing a fresh block under a key that is not in use.\<close>

definition file_block :: "PrefixCacheBlock \<Rightarrow> PrefixCache \<Rightarrow> PrefixCache" where
  "file_block b c = (let p = length (pc_heap c) in
     c\<lparr>pc_heap := pc_heap c @ [b], pc_gpuBlocks := gm_set (pb_Hash b) p (pc_gpuBlocks c),
       pc_tree := (pc_tree c)\<lparr>pt_blocks := gm_set (pb_Hash b) p (pt_blocks (pc_tree c))\<rparr>,
       pc_usedSize := wrap64 (pc_usedSize c + pb_Size b), pc_entries := wrap64 (pc_entries c + 1)\<rparr>)"

lemma Prefix_Set_file: "Prefix_Set e c k v ttl =
  (let b = new_block (pe_now e) k v (if ttl = 0 then pc_defaultTTL c else ttl); c1 = drop_key k c in
   (Ok (), file_block b (if wrap64 (pc_usedSize c1 + pb_Size b) > pc_maxSize c1 then c1\<lparr>pc_pending := Suc (pc_pending c1)\<rparr> else c1)))"
  by (simp add: Prefix_Set_def file_block_def Let_def new_block_def)

lemma file_block_ok:
  assumes ok: "pc_ok c" and new: "get_lookup c (pb_Hash b) = None" and side: "pb_InGPU b" "\<not> pb_InSwap b"
  shows "pc_ok (file_block b c)"
    and "get_lookup (file_block b c) k = (if k = pb_Hash b then Some (length (pc_heap c)) else get_lookup c k)"
proof -
  let ?h = "pc_heap c @ [b]" and ?p = "length (pc_heap c)" and ?k = "pb_Hash b"
  let ?g = "gm_set ?k ?p (pc_gpuBlocks c)"
  note b = blocks_okD [OF pc_ok_blocks [OF ok]]
  have nk: "?k \<notin> fst ` set (pc_gpuBlocks c)" "?k \<notin> fst ` set (pc_swapBlocks c)" using new by (simp_all add: get_lookup_none)
  have "ix_ok pb_Hash ?h ?g" "ix_ok pb_Hash ?h (pc_swapBlocks c)" using b(1,2) by (simp_all add: ix_ok_new ix_ok_append)
  moreover have "fst ` set ?g \<inter> fst ` set (pc_swapBlocks c) = {}" using b(5) nk(2) by (simp add: dom_update)
  moreover have "pb_InGPU (?h ! q) \<and> \<not> pb_InSwap (?h ! q)" if "(k', q) \<in> set ?g" for k' q
    using that b(6) [of k' q] side by (auto simp: gm_set_mem [OF b(3)] nth_append split: if_splits)
  moreover have "\<not> pb_InGPU (?h ! q) \<and> pb_InSwap (?h ! q)" if "(k', q) \<in> set (pc_swapBlocks c)" for k' q
    using b(7) [OF that] by (simp add: nth_append)
  ultimately have "blocks_ok ?h ?g (pc_swapBlocks c)" unfolding blocks_ok_def by blast
  moreover have "total ?h ?g = total (pc_heap c) (pc_gpuBlocks c) + pb_Size b"
    using total_set_new [OF nk(1), of ?h ?p] total_cong [of "pc_gpuBlocks c" ?h "pc_heap c"] b(6) by (simp add: nth_append)
  moreover have "total ?h (pc_swapBlocks c) = total (pc_heap c) (pc_swapBlocks c)" using b(7) by (intro total_cong) (auto simp: nth_append)
  moreover have "int (length ?g) = int (length (pc_gpuBlocks c)) + 1" using nk(1) by (simp add: length_gm_set)
  moreover show l: "get_lookup (file_block b c) k = (if k = ?k then Some ?p else get_lookup c k)" for k
    by (simp add: file_block_def Let_def get_lookup_def gm_get_set split: option.split)
  moreover have "gm_get (pt_blocks (pc_tree (file_block b c))) k = get_lookup (file_block b c) k" for k
    using ok unfolding l by (simp add: file_block_def Let_def gm_get_set pc_ok_def)
  moreover have "gm_ok (pt_blocks (pc_tree (file_block b c)))" using ok by (simp add: file_block_def Let_def pc_ok_def gm_ok_update)
  ultimately show "pc_ok (file_block b c)" using ok
    unfolding pc_ok_def [of "file_block b c"] by (simp add: pc_ok_def file_block_def Let_def add.assoc add.commute add.left_commute)
qed

lemma Prefix_Set_ok [inv_intros]:
  assumes "pc_ok c"
  shows "pc_ok (snd (Prefix_Set e c k v ttl))"
  using drop_key_ok [OF assms]
  by (auto simp: Prefix_Set_file Let_def new_block_def intro!: file_block_ok)

lemma Prefix_Set_lookup:
  assumes "pc_ok c"
  shows "get_lookup (snd (Prefix_Set e c k v ttl)) k' = (if k' = k then Some (length (pc_heap c)) else get_lookup c k')"
    and "pc_heap (snd (Prefix_Set e c k v ttl)) = pc_heap c @ [new_block (pe_now e) k v (if ttl = 0 then pc_defaultTTL c else ttl)]"
proof -
  let ?b = "new_block (pe_now e) k v (if ttl = 0 then pc_defaultTTL c else ttl)"
  let ?c1 = "drop_key k c"
  let ?c2 = "if wrap64 (pc_usedSize ?c1 + pb_Size ?b) > pc_maxSize ?c1 then ?c1\<lparr>pc_pending := Suc (pc_pending ?c1)\<rparr> else ?c1"
  have h: "pb_Hash ?b = k" "pb_InGPU ?b" "\<not> pb_InSwap ?b" by (simp_all add: new_block_def)
  have c2: "pc_ok ?c2" "pc_heap ?c2 = pc_heap c" "get_lookup ?c2 k' = (if k' = k then None else get_lookup c k')" for k'
    using drop_key_ok [OF assms] by simp_all
  have s: "snd (Prefix_Set e c k v ttl) = file_block ?b ?c2" by (simp add: Prefix_Set_file Let_def)
  show "get_lookup (snd (Prefix_Set e c k v ttl)) k' = (if k' = k then Some (length (pc_heap c)) else get_lookup c k')"
    unfolding s using file_block_ok(2) [OF c2(1), of ?b k'] c2(2,3) h by simp
  show "pc_heap (snd (Prefix_Set e c k v ttl)) = pc_heap c @ [?b]"
    unfolding s using c2(2) by (simp add: file_block_def Let_def)
qed

lemma Prefix_Delete_ok [inv_intros]: "pc_ok c \<Longrightarrow> pc_ok (snd (Prefix_Delete e c k))"
  by (simp add: Prefix_Delete_def drop_key_ok)

lemma Prefix_Clear_ok [inv_intros]: "pc_ok (snd (Prefix_Clear e c))"
  by (simp add: Prefix_Clear_def pc_ok_def blocks_ok_def get_lookup_def total_def)

lemma get_pin_ok: "pc_ok c \<Longrightarrow> pc_ok (get_pin p c)" "pc_ok c \<Longrightarrow> get_lookup (get_pin p c) k = get_lookup c k"
  unfolding get_pin_def
  by (rule pc_ok_upd_block(1), simp, simp) (subst pc_ok_upd_block(2); simp)

lemma get_unpin_ok: "pc_ok c \<Longrightarrow> pc_ok (get_unpin p c)" "pc_ok c \<Longrightarrow> get_lookup (get_unpin p c) k = get_lookup c k"
  unfolding get_unpin_def by (rule pc_ok_upd_block; simp)+

lemma touch_ok:
  "pc_ok c \<Longrightarrow> pc_ok (upd_block p (\<lambda>b. b\<lparr>pb_AccessedAt := now\<rparr>) c)"
  "pc_ok c \<Longrightarrow> get_lookup (upd_block p (\<lambda>b. b\<lparr>pb_AccessedAt := now\<rparr>) c) k = get_lookup c k"
  by (rule pc_ok_upd_block; simp)+

lemma get_touch_ok:
  assumes "pc_ok c" and "get_lookup c k = Some p"
  shows "pc_ok (snd (get_touch now k p c))" and "get_lookup (snd (get_touch now k p c)) k' = get_lookup c k'"
proof -
  let ?c = "upd_block p (\<lambda>b. b\<lparr>pb_AccessedAt := now\<rparr>) c"
  have c: "pc_ok ?c" "get_lookup ?c k = Some p" "get_lookup ?c k' = get_lookup c k'" for k' using touch_ok [OF assms(1)] assms(2) by simp_all
  have "pc_ok (snd (get_touch now k p c)) \<and> get_lookup (snd (get_touch now k p c)) k' = get_lookup c k'"
  proof (cases "pb_InSwap (pc_heap ?c ! p)")
    case True
    with c(1,2) have "gm_get (pc_swapBlocks ?c) k = Some p" by (auto elim: get_lookup_cases)
    from move_to_gpu_ok [OF c(1) this] c True show ?thesis by (simp add: get_touch_def Let_def moveToGPU_def)
  qed (use c in \<open>simp add: get_touch_def Let_def\<close>)
  then show "pc_ok (snd (get_touch now k p c))" "get_lookup (snd (get_touch now k p c)) k' = get_lookup c k'" by auto
qed

lemma get_miss_ok [inv_intros]: "pc_ok c \<Longrightarrow> pc_ok (get_miss c)"
  by (simp add: get_miss_def)

lemma get_expired_ok:
  assumes "pc_ok c" and "get_lookup c k = Some p"
  shows "pc_ok (get_expired k p c)" and "get_lookup (get_expired k p c) k' = (if k' = k then None else get_lookup c k')"
  using removeBlock_ok [OF assms] by (simp_all add: get_expired_def get_miss_def)

lemmas get_sections_ok [inv_intros] = get_pin_ok(1) get_unpin_ok(1) get_touch_ok(1) get_expired_ok(1)

lemma Prefix_Get_ok [inv_intros]:
  assumes "pc_ok c"
  shows "pc_ok (snd (Prefix_Get e c k))"
proof (cases "get_lookup c k")
  case (Some p)
  have t: "pc_ok (snd (get_touch (pe_access e) k p (get_pin p c)))"
    using get_touch_ok(1) [OF get_pin_ok(1) [OF assms]] get_pin_ok(2) [OF assms] Some by simp
  obtain r c' where r: "get_touch (pe_access e) k p (get_pin p c) = (r, c')" by fastforce
  have "pc_ok c'" using t r by simp
  moreover have "pc_ok (get_expired k p c)" by (rule get_expired_ok(1) [OF assms Some])
  ultimately show ?thesis using Some r get_unpin_ok(1) by (cases r) (simp_all add: Prefix_Get_def)
qed (simp add: Prefix_Get_def get_miss_def assms)

section \<open>Eviction\<close>

definition gpu_entries :: "(string \<times> ptr) list \<Rightarrow> PrefixCache \<Rightarrow> bool" where
  "gpu_entries ks c \<longleftrightarrow> distinct (map fst ks) \<and> (\<forall>(k, p) \<in> set ks. gm_get (pc_gpuBlocks c) k = Some p)"

lemma removeBlock_gpu:
  assumes "pc_ok c" and "gm_get (pc_gpuBlocks c) k = Some p"
  shows "pc_ok (removeBlock k p c)" "gm_get (pc_gpuBlocks (removeBlock k p c)) k' = (if k' = k then None else gm_get (pc_gpuBlocks c) k')"
proof -
  have l: "get_lookup c k = Some p" using assms(2) by (simp add: get_lookup_def)
  show "pc_ok (removeBlock k p c)" by (rule removeBlock_ok(1) [OF assms(1) l])
  have "pb_InGPU (pc_heap c ! p)" using blocks_okD(6) [OF pc_ok_blocks [OF assms(1)] gm_get_mem [OF assms(2)]] by simp
  then show "gm_get (pc_gpuBlocks (removeBlock k p c)) k' = (if k' = k then None else gm_get (pc_gpuBlocks c) k')"
    by (simp add: removeBlock_def Let_def delete_conv')
qed

lemma move_to_swap_gpu:
  "gm_get (pc_gpuBlocks (move_to_swap k p c)) k' = (if k' = k then None else gm_get (pc_gpuBlocks c) k')"
  by (simp add: move_to_swap_def Let_def upd_block_def delete_conv')

text \<open>One eviction step of either kind, on the first block of the list.\<close>

lemma gpu_entries_step:
  assumes "gpu_entries ((k, p) # ks) c"
    and "\<And>k'. gm_get (pc_gpuBlocks c') k' = (if k' = k then None else gm_get (pc_gpuBlocks c) k')"
  shows "gpu_entries ks c'"
  using assms by (force simp: gpu_entries_def)

lemma upd_block_field:
  assumes "\<And>b. g (f b) = g b"
  shows "g (pc_heap (upd_block p f c) ! q) = g (pc_heap c ! q)"
  using assms by (cases "p < length (pc_heap c)") (auto simp: upd_block_def nth_list_update list_update_beyond)

text \<open>The used size once the blocks of a list have been taken off the GPU.\<close>

definition used_without :: "PrefixCache \<Rightarrow> (string \<times> ptr) list \<Rightarrow> int" where
  "used_without c ks = wrap64 (pc_usedSize c - (\<Sum>(k, p) \<leftarrow> ks. pb_Size (pc_heap c ! p)))"

lemma used_without_Nil: "pc_ok c \<Longrightarrow> used_without c [] = pc_usedSize c"
  by (simp add: used_without_def pc_ok_def)

lemma used_without_step:
  assumes "pc_usedSize c' = wrap64 (pc_usedSize c - pb_Size (pc_heap c ! p))"
    and "\<And>q. pb_Size (pc_heap c' ! q) = pb_Size (pc_heap c ! q)"
  shows "used_without c ((k, p) # ks) = used_without c' ks"
  by (simp add: used_without_def assms algebra_simps)

lemma removeBlock_used:
  assumes "pc_ok c" and "gm_get (pc_gpuBlocks c) k = Some p"
  shows "used_without c ((k, p) # ks) = used_without (removeBlock k p c) ks"
  using blocks_okD(6) [OF pc_ok_blocks [OF assms(1)] gm_get_mem [OF assms(2)]]
  by (intro used_without_step) (simp_all add: removeBlock_def Let_def)

lemma move_to_swap_used: "used_without c ((k, p) # ks) = used_without (move_to_swap k p c) ks"
  by (intro used_without_step)
    (simp_all add: move_to_swap_def Let_def upd_block_field)

text \<open>
  \<open>evict_loop\<close> takes a front part of its list off the GPU and nothing else, each block only while the
  usage without the blocks before it is above the target; it completes with the usage at the target
  or the list exhausted, or it panics at a hash that is too short to log.
\<close>

lemma evict_loop_spec:
  assumes "pc_ok c" and "gpu_entries ks c" and "evict_loop target ks c = (r, c')"
  shows "pc_ok c' \<and> (\<exists>done rest. ks = done @ rest \<and>
    (\<forall>k. gm_get (pc_gpuBlocks c') k = (if k \<in> fst ` set done then None else gm_get (pc_gpuBlocks c) k)) \<and>
    pc_usedSize c' = used_without c done \<and> (\<forall>n < length done. used_without c (take n done) > target) \<and>
    (r = Ok () \<and> (rest = [] \<or> pc_usedSize c' \<le> target) \<or> r = Panic \<and> (\<exists>(k, p) \<in> set done. length k < 16)))"
  using assms
proof (induction ks arbitrary: c)
  case Nil
  then show ?case using used_without_Nil by auto
next
  case (Cons kp ks)
  obtain k p where kp: "kp = (k, p)" by (cases kp)
  have g: "gm_get (pc_gpuBlocks c) k = Some p" using Cons.prems(2) kp by (simp add: gpu_entries_def)
  have step: ?case if c1: "pc_ok c1" "\<And>k'. gm_get (pc_gpuBlocks c1) k' = (if k' = k then None else gm_get (pc_gpuBlocks c) k')"
      and u: "\<And>ks. used_without c ((k, p) # ks) = used_without c1 ks" and t: "\<not> pc_usedSize c \<le> target"
      and e: "evict_loop target ks c1 = (r, c')" for c1
  proof -
    have "gpu_entries ks c1" using gpu_entries_step [of k p ks c c1] Cons.prems(2) kp c1(2) by simp
    from Cons.IH [OF c1(1) this e] obtain dn rest where d: "pc_ok c'" "ks = dn @ rest"
      "\<forall>k. gm_get (pc_gpuBlocks c') k = (if k \<in> fst ` set dn then None else gm_get (pc_gpuBlocks c1) k)"
      "pc_usedSize c' = used_without c1 dn" "\<forall>n < length dn. used_without c1 (take n dn) > target"
      "r = Ok () \<and> (rest = [] \<or> pc_usedSize c' \<le> target) \<or> r = Panic \<and> (\<exists>(k, p) \<in> set dn. length k < 16)" by blast
    have "\<forall>n < length (kp # dn). used_without c (take n (kp # dn)) > target"
      using d(5) t used_without_Nil [OF Cons.prems(1)] u unfolding kp by (auto simp: take_Cons' less_Suc_eq_0_disj)
    then show ?thesis using c1(2) kp d u by (intro conjI exI [of _ "(k, p) # dn"] exI [of _ rest]) auto
  qed
  consider (stop) "pc_usedSize c \<le> target" | (swap) "\<not> pc_usedSize c \<le> target" "pc_enableSwap c \<and> pc_swapUsed c < pc_swapSize c"
    | (drop) "\<not> pc_usedSize c \<le> target" "\<not> (pc_enableSwap c \<and> pc_swapUsed c < pc_swapSize c)" by blast
  then show ?case
  proof cases
    case stop
    then have "r = Ok ()" "c' = c" using Cons.prems(3) kp by simp_all
    then show ?thesis using Cons.prems(1) stop used_without_Nil by (intro conjI exI [of _ "[]"] exI [of _ "kp # ks"]) auto
  next
    case swap
    show ?thesis
    proof (cases "length k < 16")
      case True
      then have "r = Panic" "c' = move_to_swap k p c" using swap Cons.prems(3) kp by (simp_all add: moveToSwap_def log_hash_def)
      moreover have "pc_ok (move_to_swap k p c)" by (rule move_to_swap_ok(1) [OF Cons.prems(1) g])
      ultimately show ?thesis using move_to_swap_gpu [of k p c] True kp swap(1)
          used_without_Nil [OF Cons.prems(1)] used_without_Nil [of "move_to_swap k p c"] move_to_swap_used [of c k p "[]"]
        by (intro conjI exI [of _ "[kp]"] exI [of _ ks]) auto
    next
      case False
      then have "evict_loop target ks (move_to_swap k p c) = (r, c')"
        using swap Cons.prems(3) kp by (simp add: moveToSwap_def log_hash_def)
      with move_to_swap_ok(1) [OF Cons.prems(1) g] show ?thesis
        by (rule step [OF _ move_to_swap_gpu move_to_swap_used swap(1)])
    qed
  next
    case drop
    then have "evict_loop target ks (removeBlock k p c) = (r, c')"
      using Cons.prems(3) kp by (simp only: evict_loop.simps if_False)
    with removeBlock_gpu(1) [OF Cons.prems(1) g] show ?thesis
      by (rule step [OF _ removeBlock_gpu(2) [OF Cons.prems(1) g] removeBlock_used [OF Cons.prems(1) g] drop(1)])
  qed
qed

lemma lru_candidates_entries:
  assumes "pc_ok c" and "range_ok ord"
  shows "gpu_entries (lru_candidates ord c) c"
proof -
  note b = blocks_okD [OF pc_ok_blocks [OF assms(1)]]
  let ?l = "filter (\<lambda>(hash, p). pb_RefCount (pc_heap c ! p) = 0) (ord (pc_gpuBlocks c))"
  have m: "mset (lru_candidates ord c) = mset ?l" by (simp add: lru_candidates_def)
  have "distinct (map fst ?l)" using range_ok_distinct [OF assms(2), of fst "pc_gpuBlocks c"] b(3)
    by (simp add: distinct_map_filter)
  then have "distinct (map fst (lru_candidates ord c))"
    using mset_eq_imp_distinct_iff [of "map fst (lru_candidates ord c)" "map fst ?l"] m by simp
  moreover have "set (lru_candidates ord c) \<subseteq> set (pc_gpuBlocks c)"
    using range_ok_set [OF assms(2), of "pc_gpuBlocks c"] by (auto simp: lru_candidates_def)
  ultimately show ?thesis using b(3) by (auto simp: gpu_entries_def)
qed

lemma evictLRU_ok [inv_intros]:
  assumes "pc_ok c" and "range_ok ord"
  shows "pc_ok (snd (evictLRU ord c))"
  using assms(1) evict_loop_spec [OF assms(1) lru_candidates_entries [OF assms], of "targetSize c"]
  by (cases "evict_loop (targetSize c) (lru_candidates ord c) c") (auto simp: evictLRU_def)

lemma evictExpired_fold:
  assumes "pc_ok c" and "gpu_entries ks c"
  shows "pc_ok (fold (\<lambda>(hash, p) c. if now > pb_ExpiresAt (pc_heap c ! p) \<and> pb_RefCount (pc_heap c ! p) = 0
        then removeBlock hash p c else c) ks c)"
  using assms
proof (induction ks arbitrary: c)
  case (Cons kp ks)
  obtain k p where kp: "kp = (k, p)" by (cases kp)
  have g: "gm_get (pc_gpuBlocks c) k = Some p" using Cons.prems(2) kp by (simp add: gpu_entries_def)
  note r = removeBlock_gpu [OF Cons.prems(1) g]
  have "gpu_entries ks (removeBlock k p c)" using gpu_entries_step [of k p ks c "removeBlock k p c"] Cons.prems(2) kp r(2) by simp
  moreover have "gpu_entries ks c" using Cons.prems(2) by (simp add: gpu_entries_def)
  ultimately show ?case using Cons.IH r(1) Cons.prems(1) kp by simp
qed simp

lemma evictExpired_ok [inv_intros]:
  assumes "pc_ok c" and "range_ok ord"
  shows "pc_ok (evictExpired ord now c)"
  unfolding evictExpired_def
proof (rule evictExpired_fold [OF assms(1)])
  note b = blocks_okD [OF pc_ok_blocks [OF assms(1)]]
  show "gpu_entries (ord (pc_gpuBlocks c)) c"
    using range_ok_distinct [OF assms(2), of fst "pc_gpuBlocks c"] range_ok_set [OF assms(2), of "pc_gpuBlocks c"] b(3)
    by (auto simp: gpu_entries_def)
qed

lemma insertIntoTree_ok [inv_intros]: "pc_ok c \<Longrightarrow> pc_ok (insertIntoTree ts h c)"
proof -
  assume "pc_ok c"
  moreover have "get_lookup (insertIntoTree ts h c) k = get_lookup c k" for k
    by (rule get_lookup_cong) (simp_all add: insertIntoTree_def)
  ultimately show ?thesis by (simp add: pc_ok_def) (simp add: insertIntoTree_def)
qed

lemma insert_blocks_ok: "pc_ok c \<Longrightarrow> pc_ok (insert_blocks e sha tokens kv ttl i n st c)"
  by (induction n arbitrary: i st c) (simp_all add: Let_def insertIntoTree_ok Prefix_Set_ok)

lemma InsertPrefix_ok [inv_intros]: "pc_ok c \<Longrightarrow> pc_ok (snd (InsertPrefix e sha c tokens kv ttl))"
  by (simp add: InsertPrefix_def Let_def insert_blocks_ok)

text \<open>
  The steps of a cache that several goroutines use. \<open>Get\<close> releases the lock between its lookup and what
  it does with the block it found, so beside the whole operation its sections are steps of their own,
  which the sections of other operations may come between: counting a miss, removing an expired block,
  pinning, touching (with the move to the GPU) and unpinning. The removal and the touch are taken while
  the key still leads to the block; \<open>prefix_expired_race\<close> is what happens otherwise. The insertion into
  the tree and the two halves of an eviction tick are also steps of their own.
\<close>

inductive pc_step :: "PrefixCache \<Rightarrow> PrefixCache \<Rightarrow> bool" where
  get: "pc_step c (snd (Prefix_Get e c k))"
| section_miss: "pc_step c (get_miss c)"
| section_expired: "get_lookup c k = Some p \<Longrightarrow> pc_step c (get_expired k p c)"
| section_pin: "pc_step c (get_pin p c)"
| section_touch: "get_lookup c k = Some p \<Longrightarrow> pc_step c (snd (get_touch now k p c))"
| section_unpin: "pc_step c (get_unpin p c)"
| section_tree: "pc_step c (insertIntoTree tokens k c)"
| section_evictExpired: "range_ok ord \<Longrightarrow> pc_step c (evictExpired ord now c)"
| section_evictLRU: "range_ok ord \<Longrightarrow> pc_step c (snd (evictLRU ord c))"
| set: "pc_step c (snd (Prefix_Set e c k v ttl))"
| delete: "pc_step c (snd (Prefix_Delete e c k))"
| clear: "pc_step c (snd (Prefix_Clear e c))"
| insert_prefix: "pc_step c (snd (InsertPrefix es sha c tokens kv ttl))"
| tick: "range_ok ord \<Longrightarrow> range_ok ord' \<Longrightarrow> pc_step c (snd (eviction_tick ord ord' now c))"
| background: "range_ok ord \<Longrightarrow> pc_step c (snd (run_pending ord c))"

inductive pc_reachable :: "PrefixCache \<Rightarrow> bool" where
  new: "pc_reachable (NewPrefixCache cn tn sz ttl config)"
| step: "pc_reachable c \<Longrightarrow> pc_step c c' \<Longrightarrow> pc_reachable c'"

lemma NewPrefixCache_ok: "pc_ok (NewPrefixCache cn tn sz ttl config)"
  by (simp add: NewPrefixCache_def pc_ok_def blocks_ok_def get_lookup_def total_def)

lemma pc_step_ok: "pc_step c c' \<Longrightarrow> pc_ok c \<Longrightarrow> pc_ok c'"
proof (induction rule: pc_step.induct)
  case (tick ord ord' c now)
  then show ?case unfolding eviction_tick_def by (blast intro: inv_intros)
next
  case (background ord c)
  then show ?case by (cases "pc_pending c = 0") (simp_all add: run_pending_def evictLRU_ok)
qed (blast intro: inv_intros)+

lemma pc_reachable_ok: "pc_reachable c \<Longrightarrow> pc_ok c"
  by (induction rule: pc_reachable.induct) (blast intro: NewPrefixCache_ok pc_step_ok)+

section \<open>The prefix cache keeps the contract of a cache tier\<close>

definition pc_live :: "pc_env \<Rightarrow> PrefixCache \<Rightarrow> string \<Rightarrow> bytes option" where
  "pc_live e c k = (case get_lookup c k of None \<Rightarrow> None
     | Some p \<Rightarrow> if pe_now e > pb_ExpiresAt (pc_heap c ! p) then None else Some (pb_KVCache (pc_heap c ! p)))"

definition pc_alive :: "pc_env \<Rightarrow> PrefixCache \<Rightarrow> duration \<Rightarrow> pc_env \<Rightarrow> bool" where
  "pc_alive e c ttl e' \<longleftrightarrow> pe_now e' \<le> pe_now e + (if ttl = 0 then pc_defaultTTL c else ttl)"

lemma get_touch_KVCache:
  "pb_KVCache (pc_heap (snd (get_touch now k p c)) ! q) = pb_KVCache (pc_heap c ! q)"
  by (auto simp: get_touch_def Let_def moveToGPU_def move_to_gpu_def upd_block_field)

lemma get_pin_field: "pb_KVCache (pc_heap (get_pin p c) ! q) = pb_KVCache (pc_heap c ! q)"
  by (simp add: get_pin_def upd_block_field)

lemma Prefix_Get_live:
  assumes "Prefix_Get e c k = (Ok r, c')"
  shows "map_option ce_Value r = pc_live e c k"
proof (cases "get_lookup c k")
  case (Some p)
  obtain t c1 where t: "get_touch (pe_access e) k p (get_pin p c) = (t, c1)" by fastforce
  have "pb_KVCache (pc_heap c1 ! p) = pb_KVCache (pc_heap c ! p)"
    using get_touch_KVCache [of "pe_access e" k p "get_pin p c" p] t get_pin_field [of p c p] by simp
  with assms Some t show ?thesis
    by (cases t; cases "pe_now e > pb_ExpiresAt (pc_heap c ! p)") (auto simp: Prefix_Get_def pc_live_def block_entry_def)
qed (use assms in \<open>auto simp: Prefix_Get_def pc_live_def\<close>)

text \<open>A \<open>Get\<close>, however it ends, leaves what can be read at its time or later as it was.\<close>

lemma get_touch_block:
  "pb_ExpiresAt (pc_heap (snd (get_touch now k p (get_pin p c))) ! q) = pb_ExpiresAt (pc_heap c ! q)"
  "pb_KVCache (pc_heap (snd (get_touch now k p (get_pin p c))) ! q) = pb_KVCache (pc_heap c ! q)"
  by (auto simp: get_touch_def Let_def moveToGPU_def move_to_gpu_def get_pin_def upd_block_field)

lemma get_unpin_block:
  "pb_ExpiresAt (pc_heap (get_unpin p c) ! q) = pb_ExpiresAt (pc_heap c ! q)"
  "pb_KVCache (pc_heap (get_unpin p c) ! q) = pb_KVCache (pc_heap c ! q)"
  by (auto simp: get_unpin_def upd_block_field)

lemma pc_live_cong:
  assumes "\<And>k. get_lookup c' k = get_lookup c k" and "\<And>q. pb_ExpiresAt (pc_heap c' ! q) = pb_ExpiresAt (pc_heap c ! q)"
    and "\<And>q. pb_KVCache (pc_heap c' ! q) = pb_KVCache (pc_heap c ! q)"
  shows "pc_live e c' = pc_live e c"
  by (rule ext) (simp add: pc_live_def assms split: option.split)

lemma Prefix_Get_frame:
  assumes "pc_ok c" and "pe_now e \<le> pe_now e'"
  shows "pc_live e' (snd (Prefix_Get e c k)) = pc_live e' c"
proof (cases "get_lookup c k")
  case None
  then show ?thesis by (intro pc_live_cong) (simp_all add: Prefix_Get_def get_miss_def get_lookup_def split: option.split)
next
  case (Some p)
  show ?thesis
  proof (cases "pe_now e > pb_ExpiresAt (pc_heap c ! p)")
    case True
    then show ?thesis using Some assms(2) get_expired_ok(2) [OF assms(1) Some]
      by (auto simp: Prefix_Get_def pc_live_def get_expired_def get_miss_def fun_eq_iff split: option.split)
  next
    case False
    obtain r c' where t: "get_touch (pe_access e) k p (get_pin p c) = (r, c')" by fastforce
    have l: "get_lookup c' k' = get_lookup c k'" for k'
      using get_touch_ok(2) [OF get_pin_ok(1) [OF assms(1)], of p k p "pe_access e" k'] get_pin_ok(2) [OF assms(1)] Some t by simp
    have ok: "pc_ok c'" using get_touch_ok(1) [OF get_pin_ok(1) [OF assms(1)], of p k p "pe_access e"] get_pin_ok(2) [OF assms(1)] Some t by simp
    have "pc_live e' c' = pc_live e' c" using l get_touch_block [of "pe_access e" k p c] t by (intro pc_live_cong) simp_all
    moreover have "pc_live e' (get_unpin p c') = pc_live e' c'"
      by (intro pc_live_cong) (simp_all add: get_unpin_ok(2) [OF ok] get_unpin_block)
    ultimately show ?thesis using Some False t by (cases r) (simp_all add: Prefix_Get_def)
  qed
qed

lemma lookup_in_heap: "pc_ok c \<Longrightarrow> get_lookup c k = Some p \<Longrightarrow> p < length (pc_heap c)"
  by (erule get_lookup_cases) auto

lemma Prefix_Set_live:
  assumes "pc_ok c" and "pc_alive e c ttl e'"
  shows "pc_live e' (snd (Prefix_Set e c k v ttl)) k' = (if k' = k then Some v else pc_live e' c k')"
  using Prefix_Set_lookup [OF assms(1), of e k v ttl] assms lookup_in_heap [OF assms(1), of k']
  by (auto simp: pc_live_def pc_alive_def new_block_def nth_append split: option.splits)

lemma drop_key_live: "pc_ok c \<Longrightarrow> pc_live e (drop_key k c) k' = (if k' = k then None else pc_live e c k')"
  using drop_key_ok(2) [of c k k'] by (simp add: pc_live_def split: option.splits)

interpretation prefix: cache_tier Prefix_Get Prefix_Set Prefix_Delete Prefix_Clear pc_live pc_ok pc_alive
proof (unfold_locales, goal_cases)
  case (1 s e k v ttl)
  then show ?case by (rule Prefix_Set_ok)
next
  case (2 s e k)
  then show ?case by (rule Prefix_Delete_ok)
next
  case (3 s e k r s')
  then show ?case using Prefix_Get_ok [of s e k] by simp
next
  case (4 s e)
  show ?case by (rule Prefix_Clear_ok)
next
  case (5 s e k v ttl s' e' k')
  then show ?case using Prefix_Set_live [of s e ttl e' k v k'] by simp
next
  case (6 s e k s' e' k')
  then show ?case using drop_key_live [of s e' k k'] by (auto simp: Prefix_Delete_def)
next
  case (7 s e s' e' k')
  then show ?case by (auto simp: Prefix_Clear_def pc_live_def get_lookup_def)
next
  case (8 s e k r s')
  then show ?case by (blast intro: Prefix_Get_live)
qed

lemma Prefix_Get_Set:
  assumes "pc_ok c"
  shows "if pe_now e' \<le> pe_now e + (if ttl = 0 then pc_defaultTTL c else ttl)
    then (\<exists>en c'. Prefix_Get e' (snd (Prefix_Set e c k v ttl)) k = (Ok (Some en), c') \<and> ce_Key en = k \<and>
            ce_Value en = v \<and> ce_Size en = int (length v) \<and> ce_AccessedAt en = pe_access e')
    else (\<exists>c'. Prefix_Get e' (snd (Prefix_Set e c k v ttl)) k = (Ok None, c') \<and> get_lookup c' k = None)"
proof -
  let ?c = "snd (Prefix_Set e c k v ttl)" and ?p = "length (pc_heap c)"
  let ?b = "new_block (pe_now e) k v (if ttl = 0 then pc_defaultTTL c else ttl)"
  have ok: "pc_ok ?c" by (rule Prefix_Set_ok [OF assms])
  have l: "get_lookup ?c k = Some ?p" and h: "pc_heap ?c = pc_heap c @ [?b]"
    using Prefix_Set_lookup [OF assms, of e k v ttl] by simp_all
  have p: "pc_heap ?c ! ?p = ?b" "?p < length (pc_heap ?c)" by (simp_all add: h)
  show ?thesis
  proof (cases "pe_now e' \<le> pe_now e + (if ttl = 0 then pc_defaultTTL c else ttl)")
    case True
    let ?c2 = "upd_block ?p (\<lambda>b. b\<lparr>pb_AccessedAt := pe_access e'\<rparr>) (get_pin ?p ?c)"
    have b2: "pc_heap ?c2 ! ?p = ?b\<lparr>pb_RefCount := 1, pb_AccessedAt := pe_access e'\<rparr>"
      using p by (simp add: get_pin_def upd_block_def new_block_def)
    have "get_touch (pe_access e') k ?p (get_pin ?p ?c) = (Ok (), ?c2)"
      using b2 by (simp add: get_touch_def Let_def new_block_def)
    then show ?thesis using True l p b2 by (simp add: Prefix_Get_def block_entry_def new_block_def)
  next
    case False
    then have "Prefix_Get e' ?c k = (Ok None, get_expired k ?p ?c)" using l p by (simp add: Prefix_Get_def new_block_def)
    moreover have "get_lookup (get_expired k ?p ?c) k = None"
      using removeBlock_ok(2) [OF ok l, of k] by (simp add: get_expired_def get_miss_def)
    ultimately show ?thesis using False by simp
  qed
qed

lemma get_touch_no_err: "fst (get_touch now k p c) \<noteq> Err err"
  by (simp add: get_touch_def Let_def moveToGPU_def log_hash_def)

lemma Prefix_Get_no_err: "fst (Prefix_Get e c k) \<noteq> Err err"
proof (cases "get_lookup c k")
  case (Some p)
  then show ?thesis using get_touch_no_err [of "pe_access e" k p "get_pin p c"]
    by (cases "get_touch (pe_access e) k p (get_pin p c)"; cases "fst (get_touch (pe_access e) k p (get_pin p c))")
      (auto simp: Prefix_Get_def)
qed (simp add: Prefix_Get_def)

interpretation prefix: memory_tier Prefix_Get Prefix_Set Prefix_Delete Prefix_Clear pc_live pc_ok pc_alive
proof (unfold_locales, goal_cases)
  case (1 s e k v ttl)
  show ?case by (simp add: Prefix_Set_file Let_def)
next
  case (2 s e k)
  show ?case by (simp add: Prefix_Delete_def)
next
  case (3 s e)
  show ?case by (simp add: Prefix_Clear_def)
next
  case (4 s e k)
  then show ?case by (auto simp: pc_live_def Prefix_Get_def split: option.splits if_splits)
next
  case (5 e s k err)
  show ?case by (rule Prefix_Get_no_err)
next
  case (6 s e k v ttl s' e')
  then have "s' = snd (Prefix_Set e s k v ttl)" by simp
  with Prefix_Get_Set [OF 6(1), of e' e ttl k v] 6(3) show ?case by (auto simp: pc_alive_def)
qed

section \<open>The prefix tree\<close>

lemma match_insert:
  "int (i + length ts) \<le> maxLen \<Longrightarrow> fst (match_node maxLen i (insert_node blk i' ts n) ts) = i + length ts"
proof (induction ts arbitrary: i i' n)
  case (Cons t ts)
  obtain tid ch b d where n: "n = PrefixNode tid ch b d" by (cases n)
  let ?child = "case gm_get ch t of Some n \<Rightarrow> n | None \<Rightarrow> PrefixNode t [] None (wrap32 (int i' + 1))"
  have "fst (match_node maxLen (Suc i) (insert_node blk (Suc i') ts ?child) ts) = Suc i + length ts"
    using Cons.prems by (intro Cons.IH) simp
  then show ?case using Cons.prems n
    by (cases "match_node maxLen (Suc i) (insert_node blk (Suc i') ts ?child) ts") (auto simp: Let_def gm_get_set)
qed simp

lemma match_insert_block:
  "int (i + length ts) \<le> maxLen \<Longrightarrow> ts \<noteq> [] \<Longrightarrow>
    last (snd (match_node maxLen i (insert_node (Some p) i' ts n) ts)) = p \<and>
    snd (match_node maxLen i (insert_node (Some p) i' ts n) ts) \<noteq> []"
proof (induction ts arbitrary: i i' n)
  case (Cons t ts)
  obtain tid ch b d where n: "n = PrefixNode tid ch b d" by (cases n)
  let ?child = "case gm_get ch t of Some n \<Rightarrow> n | None \<Rightarrow> PrefixNode t [] None (wrap32 (int i' + 1))"
  let ?ins = "insert_node (Some p) (Suc i') ts ?child"
  obtain m bs where m: "match_node maxLen (Suc i) ?ins ts = (m, bs)" by fastforce
  show ?case
  proof (cases "ts = []")
    case True
    then have "pn_Block ?ins = Some p" by (cases ?child) simp
    then show ?thesis using True Cons.prems n m by (simp add: Let_def gm_get_set)
  next
    case False
    then have "last bs = p \<and> bs \<noteq> []" using Cons.IH [of "Suc i" "Suc i'" ?child] Cons.prems m by simp
    then show ?thesis using Cons.prems n m by (auto simp: Let_def gm_get_set split: option.splits)
  qed
qed simp

lemma match_node_bounds: "fst (match_node maxLen i n ts) \<le> i + length ts \<and>
    int (fst (match_node maxLen i n ts)) \<le> max (int i) maxLen \<and> i \<le> fst (match_node maxLen i n ts)"
proof (induction ts arbitrary: i n)
  case (Cons t ts)
  show ?case
  proof (cases "int i \<ge> maxLen \<or> gm_get (pn_Children n) t = None")
    case True
    then show ?thesis by auto
  next
    case False
    then obtain ch where ch: "gm_get (pn_Children n) t = Some ch" "int i < maxLen" by auto
    obtain m bs where m: "match_node maxLen (Suc i) ch ts = (m, bs)" by fastforce
    from Cons.IH [of "Suc i" ch] m ch show ?thesis by auto
  qed
qed simp

section \<open>Token encoding\<close>

definition int32 :: "int \<Rightarrow> bool" where
  "int32 t \<longleftrightarrow> - (2 ^ 31) \<le> t \<and> t < 2 ^ 31"

lemma byte_eq_iff: "(word_of_int a :: 8 word) = word_of_int b \<longleftrightarrow> a mod 256 = b mod 256"
  by (simp add: word_of_int_eq_iff take_bit_eq_mod)

lemma signed_byte_eq:
  assumes "- 128 \<le> a" "a < 128" "- 128 \<le> b" "b < 128" and "a mod 256 = b mod (256 :: int)"
  shows "a = b"
proof -
  have "(a + 128) mod 256 = (b + 128) mod 256" using assms(5) by (metis mod_add_left_eq)
  then show ?thesis using assms(1-4) by simp
qed

lemma mod_div_256: "t = 256 * (t div 256) + t mod 256" for t :: int
  by simp

lemma token_bytes_inj:
  assumes "int32 s" "int32 t" and "token_bytes s = token_bytes t"
  shows "s = t"
proof -
  let ?d = "\<lambda>x :: int. x div 256"
  have dd: "x div 2 ^ 8 = ?d x" "x div 2 ^ 16 = ?d (?d x)" "x div 2 ^ 24 = ?d (?d (?d x))" for x :: int
    by (simp_all add: zdiv_zmult2_eq [symmetric])
  have e: "s mod 256 = t mod 256" "?d s mod 256 = ?d t mod 256" "?d (?d s) mod 256 = ?d (?d t) mod 256"
    "?d (?d (?d s)) mod 256 = ?d (?d (?d t)) mod 256"
    using assms(3) unfolding token_bytes_def dd by (simp_all add: byte_eq_iff)
  have r: "- 128 \<le> ?d (?d (?d x)) \<and> ?d (?d (?d x)) < 128" if "int32 x" for x
  proof -
    have "(- (2 ^ 31)) div 2 ^ 24 \<le> x div 2 ^ 24" "x div 2 ^ 24 \<le> (2 ^ 31 - 1) div 2 ^ 24"
      using that unfolding int32_def by (intro zdiv_mono1; simp)+
    then show ?thesis unfolding dd(3) [symmetric] by simp
  qed
  have "?d (?d (?d s)) = ?d (?d (?d t))"
    using r [OF assms(1)] r [OF assms(2)] e(4) by (blast intro: signed_byte_eq)
  then have "?d (?d s) = ?d (?d t)" using e(3) mod_div_256 by metis
  then have "?d s = ?d t" using e(2) mod_div_256 by metis
  then show ?thesis using e(1) mod_div_256 by metis
qed

lemma tokens_data_inj:
  "\<forall>t \<in> set ss. int32 t \<Longrightarrow> \<forall>t \<in> set ts. int32 t \<Longrightarrow> tokens_data ss = tokens_data ts \<Longrightarrow> ss = ts"
proof (induction ss arbitrary: ts)
  case Nil
  then show ?case by (cases ts) (auto simp: tokens_data_def token_bytes_def)
next
  case (Cons s ss)
  then obtain t ts' where ts: "ts = t # ts'" by (cases ts) (auto simp: tokens_data_def token_bytes_def)
  have "token_bytes s @ tokens_data ss = token_bytes t @ tokens_data ts'" using Cons.prems(3) ts by (simp add: tokens_data_def)
  moreover have "length (token_bytes s) = length (token_bytes t)" by (simp add: token_bytes_def)
  ultimately have e: "token_bytes s = token_bytes t" "tokens_data ss = tokens_data ts'"
    using append_eq_append_conv [of "token_bytes s" "token_bytes t"] by blast+
  have "s = t" using Cons.prems(1,2) ts e(1) by (intro token_bytes_inj) auto
  moreover have "ss = ts'" using Cons.prems(1,2) ts e(2) by (intro Cons.IH) auto
  ultimately show ?case using ts by simp
qed

section \<open>Properties\<close>

definition pc_demo_config :: PrefixCacheConfig where
  "pc_demo_config = \<lparr>pcc_MaxPrefixLength = 0, pcc_MinPrefixLength = 2, pcc_BlockSize = 2, pcc_EnableSwap = True,
     pcc_SwapSpaceSize = Some 100\<rparr>"

definition pc_demo :: PrefixCache where
  "pc_demo = NewPrefixCache ''c'' ''gpu'' 10 60 (Some pc_demo_config)"

definition pc_at :: "timestamp \<Rightarrow> pc_env" where
  "pc_at t = \<lparr>pe_now = t, pe_access = t\<rparr>"

definition pc_demo_kA :: string where "pc_demo_kA = ''aaaaaaaaaaaaaaaa''"
definition pc_demo_kB :: string where "pc_demo_kB = ''bbbbbbbbbbbbbbbb''"

text \<open>Two values of six bytes do not fit ten bytes: the older one is moved to the swap space.\<close>

definition pc_demo_two :: PrefixCache where
  "pc_demo_two = snd (Prefix_Set (pc_at 2) (snd (Prefix_Set (pc_at 1) pc_demo pc_demo_kA [1, 2, 3, 4, 5, 6] 0)) pc_demo_kB [7, 8, 9, 10, 11, 12] 0)"

definition pc_demo_swapped :: PrefixCache where
  "pc_demo_swapped = snd (run_pending (\<lambda>m. m) pc_demo_two)"

lemma pc_demo_reachable: "pc_reachable pc_demo"
  unfolding pc_demo_def by (rule pc_reachable.new)

lemma pc_demo_two_reachable: "pc_reachable pc_demo_two"
  unfolding pc_demo_two_def
  by (rule pc_reachable.step [OF _ pc_step.set], rule pc_reachable.step [OF _ pc_step.set], rule pc_demo_reachable)

lemma pc_demo_swapped_reachable: "pc_reachable pc_demo_swapped"
  unfolding pc_demo_swapped_def by (rule pc_reachable.step [OF pc_demo_two_reachable pc_step.background]) simp

text \<open>
  C5. The counters of the prefix cache are exact: after any sequence of its operations and of the
  single critical sections of \<open>Get\<close>, interleaved with those of other goroutines (completed, panicked
  or blocked), the used size, the swap size and the number of entries are, modulo \<open>2 ^ 64\<close>, the sizes
  and the number of the blocks that the maps hold; each key is in at most one of the GPU and the swap
  map, and the tree's index has exactly the same blocks. The interleavings are those in which the key
  still leads to the block when a \<open>Get\<close> removes or touches the block it looked up; without that the
  counters drift (\<open>prefix_expired_race\<close>).
\<close>

theorem prefix_accounting:
  assumes "pc_reachable c"
  shows "pc_usedSize c = wrap64 (total (pc_heap c) (pc_gpuBlocks c)) \<and>
    pc_swapUsed c = wrap64 (total (pc_heap c) (pc_swapBlocks c)) \<and>
    pc_entries c = wrap64 (int (length (pc_gpuBlocks c)) + int (length (pc_swapBlocks c))) \<and>
    fst ` set (pc_gpuBlocks c) \<inter> fst ` set (pc_swapBlocks c) = {} \<and>
    (\<forall>k. gm_get (pt_blocks (pc_tree c)) k = get_lookup c k)"
  using pc_reachable_ok [OF assms] blocks_okD(5) [OF pc_ok_blocks [OF pc_reachable_ok [OF assms]]] unfolding pc_ok_def by blast

theorem prefix_accounting_witness:
  "pc_swapUsed pc_demo_swapped = 6 \<and> pc_entries pc_demo_swapped = wrap64 (int (length (pc_gpuBlocks pc_demo_swapped)) + int (length (pc_swapBlocks pc_demo_swapped)))"
proof -
  have "pc_swapUsed pc_demo_swapped = 6" by code_simp
  then show ?thesis using prefix_accounting [OF pc_demo_swapped_reachable] by blast
qed

text \<open>
  C24. A value can be read back: a \<open>Get\<close> of the key right after a \<open>Set\<close>, not later than the time
  to live, succeeds with the stored value and size; a \<open>Get\<close> after it finds nothing.
\<close>

theorem prefix_get_after_set:
  assumes "pc_reachable c"
  shows "if pe_now e' \<le> pe_now e + (if ttl = 0 then pc_defaultTTL c else ttl)
    then (\<exists>en c'. Prefix_Get e' (snd (Prefix_Set e c k v ttl)) k = (Ok (Some en), c') \<and> ce_Key en = k \<and>
            ce_Value en = v \<and> ce_Size en = int (length v) \<and> ce_AccessedAt en = pe_access e')
    else (\<exists>c'. Prefix_Get e' (snd (Prefix_Set e c k v ttl)) k = (Ok None, c') \<and> get_lookup c' k = None)"
  using Prefix_Get_Set [OF pc_reachable_ok [OF assms]] .

theorem prefix_get_after_set_witness:
  "\<exists>en c'. Prefix_Get (pc_at 50) (snd (Prefix_Set (pc_at 1) pc_demo pc_demo_kA [1, 2] 0)) pc_demo_kA = (Ok (Some en), c') \<and> ce_Value en = [1, 2]"
proof -
  have t: "pe_now (pc_at 50) \<le> pe_now (pc_at 1) + (if (0::int) = 0 then pc_defaultTTL pc_demo else 0)" by code_simp
  from prefix_get_after_set [OF pc_demo_reachable, of "pc_at 50" "pc_at 1" 0 pc_demo_kA "[1, 2]"] show ?thesis
    unfolding if_P [OF t] by blast
qed

text \<open>
  C7. The prefix cache refines a map with expiry: with \<open>pc_live e\<close> as the abstraction, from keys to the
  values unexpired at the time of \<open>e\<close>, in every reachable state \<open>Set\<close> is a map update for as long as
  the new value lives, \<open>Delete\<close> takes the key out, \<open>Clear\<close> leaves the empty map, all three always
  succeed and stay reachable, and \<open>Get\<close> is a lookup: it never fails with an error, when it completes it
  returns what the map has at the key, and however it ends the map is unchanged at its time and at
  every later one.
\<close>

theorem prefix_refines_map:
  assumes "pc_reachable c" and "pc_alive e c ttl e'"
  shows "(\<exists>c'. Prefix_Set e c k v ttl = (Ok (), c') \<and> pc_reachable c' \<and> pc_live e' c' = (pc_live e' c)(k \<mapsto> v)) \<and>
    (\<exists>c'. Prefix_Delete e c k = (Ok (), c') \<and> pc_reachable c' \<and> pc_live e' c' = (pc_live e' c)(k := None)) \<and>
    (\<exists>c'. Prefix_Clear e c = (Ok (), c') \<and> pc_reachable c' \<and> pc_live e' c' = Map.empty) \<and>
    (case Prefix_Get e c k of (Ok r, c') \<Rightarrow> pc_reachable c' \<and> map_option ce_Value r = pc_live e c k | (Err m, c') \<Rightarrow> False | _ \<Rightarrow> True) \<and>
    (\<forall>e2. pe_now e \<le> pe_now e2 \<longrightarrow> pc_live e2 (snd (Prefix_Get e c k)) = pc_live e2 c)"
proof (intro conjI)
  have ok: "pc_ok c" by (rule pc_reachable_ok [OF assms(1)])
  obtain c1 where c1: "Prefix_Set e c k v ttl = (Ok (), c1)" using prefix.set_total [OF ok] by blast
  then show "\<exists>c'. Prefix_Set e c k v ttl = (Ok (), c') \<and> pc_reachable c' \<and> pc_live e' c' = (pc_live e' c)(k \<mapsto> v)"
    using prefix.set_live [OF ok c1 assms(2)] pc_reachable.step [OF assms(1) pc_step.set, of e k v ttl] by (auto simp: fun_eq_iff)
  obtain c2 where c2: "Prefix_Delete e c k = (Ok (), c2)" using prefix.del_total [OF ok] by blast
  then show "\<exists>c'. Prefix_Delete e c k = (Ok (), c') \<and> pc_reachable c' \<and> pc_live e' c' = (pc_live e' c)(k := None)"
    using prefix.del_live [OF ok c2, of e'] pc_reachable.step [OF assms(1) pc_step.delete, of e k] by (auto simp: fun_eq_iff)
  obtain c3 where c3: "Prefix_Clear e c = (Ok (), c3)" using prefix.clear_total [OF ok] by blast
  then show "\<exists>c'. Prefix_Clear e c = (Ok (), c') \<and> pc_reachable c' \<and> pc_live e' c' = Map.empty"
    using prefix.clear_live [OF ok c3, of e'] pc_reachable.step [OF assms(1) pc_step.clear, of e] by (auto simp: fun_eq_iff)
  show "case Prefix_Get e c k of (Ok r, c') \<Rightarrow> pc_reachable c' \<and> map_option ce_Value r = pc_live e c k | (Err m, c') \<Rightarrow> False | _ \<Rightarrow> True"
    using prefix.get_live [OF ok, of e k] prefix.get_never_fails [of e c k] pc_reachable.step [OF assms(1) pc_step.get, of e k]
    by (cases "Prefix_Get e c k"; cases "fst (Prefix_Get e c k)") auto
  show "\<forall>e2. pe_now e \<le> pe_now e2 \<longrightarrow> pc_live e2 (snd (Prefix_Get e c k)) = pc_live e2 c"
    using Prefix_Get_frame [OF ok] by blast
qed

theorem prefix_refines_map_witness:
  "(\<exists>c'. Prefix_Set (pc_at 3) pc_demo_two pc_demo_kA [1, 2] 0 = (Ok (), c') \<and> pc_live (pc_at 50) c' pc_demo_kA = Some [1, 2]) \<and>
   pc_live (pc_at 50) (snd (Prefix_Get (pc_at 3) pc_demo_two pc_demo_kA)) = pc_live (pc_at 50) pc_demo_two"
proof -
  have "pc_alive (pc_at 3) pc_demo_two 0 (pc_at 50)" by code_simp
  moreover have "pe_now (pc_at 3) \<le> pe_now (pc_at 50)" by code_simp
  ultimately show ?thesis using prefix_refines_map [OF pc_demo_two_reachable, of "pc_at 3" 0 "pc_at 50" pc_demo_kA "[1, 2]"] by auto
qed

text \<open>
  A read can hang the cache: a \<open>Get\<close> of an unexpired block in the swap space, when the block
  does not fit beside what the GPU holds, calls the eviction while it holds the lock the
  eviction takes, and never returns.
\<close>

theorem prefix_get_deadlock:
  assumes "pc_reachable c" and "gm_get (pc_swapBlocks c) k = Some p" and "pe_now e \<le> pb_ExpiresAt (pc_heap c ! p)"
    and "wrap64 (pc_usedSize c + pb_Size (pc_heap c ! p)) > pc_maxSize c"
  shows "fst (Prefix_Get e c k) = Blocked"
proof -
  have ok: "pc_ok c" by (rule pc_reachable_ok [OF assms(1)])
  note b = blocks_okD [OF pc_ok_blocks [OF ok]]
  have "k \<notin> fst ` set (pc_gpuBlocks c)" using b(5) gm_get_mem [OF assms(2)] by force
  then have l: "get_lookup c k = Some p" using assms(2) by (simp add: get_lookup_def gm_get_none [symmetric])
  have p: "p < length (pc_heap c)" "pb_InSwap (pc_heap c ! p)" using b(7) [OF gm_get_mem [OF assms(2)]] by auto
  let ?c = "upd_block p (\<lambda>b. b\<lparr>pb_AccessedAt := pe_access e\<rparr>) (get_pin p c)"
  have "pb_InSwap (pc_heap ?c ! p)" "pb_Size (pc_heap ?c ! p) = pb_Size (pc_heap c ! p)"
    "pc_usedSize ?c = pc_usedSize c" "pc_maxSize ?c = pc_maxSize c"
    using p by (simp_all add: get_pin_def upd_block_def)
  then have "fst (get_touch (pe_access e) k p (get_pin p c)) = Blocked"
    using assms(4) by (simp add: get_touch_def Let_def moveToGPU_def)
  then show ?thesis using l assms(3) by (cases "get_touch (pe_access e) k p (get_pin p c)") (simp add: Prefix_Get_def)
qed

theorem prefix_get_deadlock_witness: "fst (Prefix_Get (pc_at 3) pc_demo_swapped pc_demo_kA) = Blocked"
proof -
  have "gm_get (pc_swapBlocks pc_demo_swapped) pc_demo_kA = Some 0" by code_simp
  moreover have "pe_now (pc_at 3) \<le> pb_ExpiresAt (pc_heap pc_demo_swapped ! 0)" by code_simp
  moreover have "wrap64 (pc_usedSize pc_demo_swapped + pb_Size (pc_heap pc_demo_swapped ! 0)) > pc_maxSize pc_demo_swapped" by code_simp
  ultimately show ?thesis by (rule prefix_get_deadlock [OF pc_demo_swapped_reachable])
qed

lemma evictLRU_split:
  assumes "pc_ok c" and "range_ok ord" and "evictLRU ord c = (r, c')"
  obtains dn rest where "lru_candidates ord c = dn @ rest"
    "\<And>k. gm_get (pc_gpuBlocks c') k = (if k \<in> fst ` set dn then None else gm_get (pc_gpuBlocks c) k)"
    "pc_usedSize c' = used_without c dn" "\<And>n. n < length dn \<Longrightarrow> used_without c (take n dn) > targetSize c"
    "r = Ok () \<and> (rest = [] \<or> pc_usedSize c' \<le> targetSize c) \<or> r = Panic \<and> (\<exists>(k, p) \<in> set dn. length k < 16)"
proof (cases "pc_usedSize c \<le> targetSize c")
  case True
  then have "r = Ok ()" "c' = c" using assms(3) by (simp_all add: evictLRU_def)
  then show thesis using True used_without_Nil [OF assms(1)] by (intro that [of "[]" "lru_candidates ord c"]) auto
next
  case False
  then have "evict_loop (targetSize c) (lru_candidates ord c) c = (r, c')" using assms(3) by (simp add: evictLRU_def)
  from evict_loop_spec [OF assms(1) lru_candidates_entries [OF assms(1,2)] this] that show thesis by blast
qed

lemma lru_candidates_mem:
  assumes "range_ok ord"
  shows "(k, p) \<in> set (lru_candidates ord c) \<longleftrightarrow> (k, p) \<in> set (pc_gpuBlocks c) \<and> pb_RefCount (pc_heap c ! p) = 0"
  by (auto simp: lru_candidates_def range_ok_set [OF assms])

text \<open>
  C2. Eviction is by least recent use, frees enough and no more. It takes a front part \<open>dn\<close> of the
  unreferenced blocks of the GPU, in the order of their access times, off the GPU, and no other block;
  the used size falls by exactly their sizes; each of them is taken only while the used size without
  the ones before it is above 80 percent of the maximum, so that nothing is evicted when the cache is
  at or below it and nothing after it is reached; and it ends with the used size at most there, or
  with no unreferenced block left on the GPU. A block that a reader holds stays, and whatever was taken
  had been accessed no later than every unreferenced block that stayed. If it panics instead, a key
  shorter than 16 bytes was evicted.
\<close>

theorem evict_lru_spec:
  assumes "pc_reachable c" and "range_ok ord" and "evictLRU ord c = (r, c')"
  shows "(\<exists>dn rest. lru_candidates ord c = dn @ rest \<and>
        (\<forall>k. gm_get (pc_gpuBlocks c') k = (if k \<in> fst ` set dn then None else gm_get (pc_gpuBlocks c) k)) \<and>
        pc_usedSize c' = used_without c dn \<and> (\<forall>n < length dn. used_without c (take n dn) > targetSize c)) \<and>
    (r = Ok () \<and> (pc_usedSize c' \<le> targetSize c \<or>
            (\<forall>k p. gm_get (pc_gpuBlocks c') k = Some p \<longrightarrow> pb_RefCount (pc_heap c ! p) \<noteq> 0)) \<or>
          r = Panic \<and> (\<exists>k. length k < 16 \<and> gm_has (pc_gpuBlocks c) k \<and> \<not> gm_has (pc_gpuBlocks c') k)) \<and>
    (\<forall>k p. gm_get (pc_gpuBlocks c) k = Some p \<and> pb_RefCount (pc_heap c ! p) \<noteq> 0 \<longrightarrow> gm_get (pc_gpuBlocks c') k = Some p) \<and>
    (\<forall>k p k' p'. gm_get (pc_gpuBlocks c) k = Some p \<and> gm_get (pc_gpuBlocks c') k = None \<and>
        gm_get (pc_gpuBlocks c') k' = Some p' \<and> pb_RefCount (pc_heap c ! p') = 0 \<longrightarrow>
      pb_AccessedAt (pc_heap c ! p) \<le> pb_AccessedAt (pc_heap c ! p'))"
proof -
  have ok: "pc_ok c" by (rule pc_reachable_ok [OF assms(1)])
  have gok: "gm_ok (pc_gpuBlocks c)" by (rule blocks_okD(3) [OF pc_ok_blocks [OF ok]])
  obtain dn rest where s: "lru_candidates ord c = dn @ rest"
    "\<And>k. gm_get (pc_gpuBlocks c') k = (if k \<in> fst ` set dn then None else gm_get (pc_gpuBlocks c) k)"
    "pc_usedSize c' = used_without c dn" "\<And>n. n < length dn \<Longrightarrow> used_without c (take n dn) > targetSize c"
    "r = Ok () \<and> (rest = [] \<or> pc_usedSize c' \<le> targetSize c) \<or> r = Panic \<and> (\<exists>(k, p) \<in> set dn. length k < 16)"
    using evictLRU_split [OF ok assms(2,3)] by blast
  note mem = lru_candidates_mem [OF assms(2), of _ _ c, unfolded s(1)]
  have dn: "(k, p) \<in> set dn \<Longrightarrow> gm_get (pc_gpuBlocks c) k = Some p \<and> pb_RefCount (pc_heap c ! p) = 0" for k p
    using mem [of k p] gok by simp
  have cand: "gm_get (pc_gpuBlocks c') k = Some p \<Longrightarrow> pb_RefCount (pc_heap c ! p) = 0 \<Longrightarrow> (k, p) \<in> set rest" for k p
    using mem [of k p] s(2) [of k] gok by (force split: if_splits)
  have srt: "sorted (map (\<lambda>(k, p). pb_AccessedAt (pc_heap c ! p)) (dn @ rest))"
    unfolding s(1) [symmetric] lru_candidates_def by simp
  have lru: "(k, p) \<in> set dn \<Longrightarrow> (k', p') \<in> set rest \<Longrightarrow> pb_AccessedAt (pc_heap c ! p) \<le> pb_AccessedAt (pc_heap c ! p')" for k p k' p'
    using srt by (force simp: sorted_append)
  have off: "gm_get (pc_gpuBlocks c) k = Some p \<Longrightarrow> gm_get (pc_gpuBlocks c') k = None \<Longrightarrow> (k, p) \<in> set dn" for k p
    using s(2) [of k] dn by (force split: if_splits)
  have panic: "(k, p) \<in> set dn \<Longrightarrow> gm_has (pc_gpuBlocks c) k \<and> \<not> gm_has (pc_gpuBlocks c') k" for k p
    using dn [of k p] s(2) [of k] by (force simp: gm_has_def)
  have pin: "gm_get (pc_gpuBlocks c) k = Some p \<Longrightarrow> pb_RefCount (pc_heap c ! p) \<noteq> 0 \<Longrightarrow> gm_get (pc_gpuBlocks c') k = Some p" for k p
    using s(2) [of k] dn by (force split: if_splits)
  have "r = Ok () \<and> (pc_usedSize c' \<le> targetSize c \<or>
            (\<forall>k p. gm_get (pc_gpuBlocks c') k = Some p \<longrightarrow> pb_RefCount (pc_heap c ! p) \<noteq> 0)) \<or>
          r = Panic \<and> (\<exists>k. length k < 16 \<and> gm_has (pc_gpuBlocks c) k \<and> \<not> gm_has (pc_gpuBlocks c') k)"
    using s(5)
  proof (elim disjE conjE)
    assume "r = Ok ()" "rest = []"
    then show ?thesis using cand by fastforce
  next
    assume "r = Panic" "\<exists>(k, p) \<in> set dn. length k < 16"
    then show ?thesis using panic by blast
  qed blast
  moreover have "\<exists>dn rest. lru_candidates ord c = dn @ rest \<and>
        (\<forall>k. gm_get (pc_gpuBlocks c') k = (if k \<in> fst ` set dn then None else gm_get (pc_gpuBlocks c) k)) \<and>
        pc_usedSize c' = used_without c dn \<and> (\<forall>n < length dn. used_without c (take n dn) > targetSize c)"
    using s(1-4) by (intro exI [of _ dn] exI [of _ rest]) simp
  ultimately show ?thesis using lru cand off pin by blast
qed

theorem evict_lru_spec_witness:
  "gm_get (pc_gpuBlocks (snd (evictLRU (\<lambda>m. m) pc_demo_two))) pc_demo_kA = None \<and>
   (pc_usedSize (snd (evictLRU (\<lambda>m. m) pc_demo_two)) \<le> targetSize pc_demo_two \<or>
     (\<forall>k p. gm_get (pc_gpuBlocks (snd (evictLRU (\<lambda>m. m) pc_demo_two))) k = Some p \<longrightarrow> pb_RefCount (pc_heap pc_demo_two ! p) \<noteq> 0))"
proof -
  have "fst (evictLRU (\<lambda>m. m) pc_demo_two) = Ok ()" by code_simp
  then have "evictLRU (\<lambda>m. m) pc_demo_two = (Ok (), snd (evictLRU (\<lambda>m. m) pc_demo_two))" by (metis prod.collapse)
  from evict_lru_spec [OF pc_demo_two_reachable range_ok_id this]
  have "pc_usedSize (snd (evictLRU (\<lambda>m. m) pc_demo_two)) \<le> targetSize pc_demo_two \<or>
     (\<forall>k p. gm_get (pc_gpuBlocks (snd (evictLRU (\<lambda>m. m) pc_demo_two))) k = Some p \<longrightarrow> pb_RefCount (pc_heap pc_demo_two ! p) \<noteq> 0)"
    by blast
  moreover have "gm_get (pc_gpuBlocks (snd (evictLRU (\<lambda>m. m) pc_demo_two))) pc_demo_kA = None" by code_simp
  ultimately show ?thesis by blast
qed

text \<open>
  Two concurrent reads of an expired block both remove it: each has looked the block up
  before the other took the lock, and the second removal counts the block a second time, so the
  counters no longer match the maps.
\<close>

theorem prefix_expired_race:
  assumes "pc_reachable c" and "get_lookup c k = Some p" and "int (length (pc_gpuBlocks c)) + int (length (pc_swapBlocks c)) < 2 ^ 62"
  shows "let c1 = get_expired k p c; c2 = get_expired k p c1 in
    get_lookup c1 k = None \<and> pc_entries c1 = int (length (pc_gpuBlocks c1)) + int (length (pc_swapBlocks c1)) \<and>
    pc_entries c2 = int (length (pc_gpuBlocks c2)) + int (length (pc_swapBlocks c2)) - 1"
proof -
  have ok: "pc_ok c" by (rule pc_reachable_ok [OF assms(1)])
  let ?c1 = "get_expired k p c" and ?c2 = "get_expired k p (get_expired k p c)"
  have ok1: "pc_ok ?c1" and l1: "get_lookup ?c1 k = None"
    using removeBlock_ok [OF ok assms(2)] by (simp_all add: get_expired_def get_miss_def)
  have nk: "k \<notin> fst ` set (pc_gpuBlocks ?c1)" "k \<notin> fst ` set (pc_swapBlocks ?c1)" using l1 by (simp_all add: get_lookup_none)
  have len: "length (pc_gpuBlocks ?c1) \<le> length (pc_gpuBlocks c)" "length (pc_swapBlocks ?c1) \<le> length (pc_swapBlocks c)"
    by (simp_all add: get_expired_def get_miss_def removeBlock_def Let_def length_delete_le)
  have e1: "pc_entries ?c1 = int (length (pc_gpuBlocks ?c1)) + int (length (pc_swapBlocks ?c1))"
    using ok1 len assms(3) by (simp add: pc_ok_def wrap64_id)
  have m2: "pc_gpuBlocks ?c2 = pc_gpuBlocks ?c1" "pc_swapBlocks ?c2 = pc_swapBlocks ?c1"
    "pc_entries ?c2 = wrap64 (pc_entries ?c1 - 1)"
    using nk by (simp_all add: get_expired_def [of k p ?c1] get_miss_def removeBlock_def Let_def gm_del_notin)
  have "pc_entries ?c2 = int (length (pc_gpuBlocks ?c2)) + int (length (pc_swapBlocks ?c2)) - 1"
    unfolding m2 e1 using len assms(3) by (intro wrap64_id) auto
  then show ?thesis using l1 e1 by (simp add: Let_def)
qed

theorem prefix_expired_race_witness:
  "pc_entries (get_expired pc_demo_kA 0 (get_expired pc_demo_kA 0 pc_demo_two)) = 0 \<and>
   (let c1 = get_expired pc_demo_kA 0 pc_demo_two; c2 = get_expired pc_demo_kA 0 c1 in
    get_lookup c1 pc_demo_kA = None \<and> pc_entries c1 = int (length (pc_gpuBlocks c1)) + int (length (pc_swapBlocks c1)) \<and>
    pc_entries c2 = int (length (pc_gpuBlocks c2)) + int (length (pc_swapBlocks c2)) - 1)"
proof -
  have "get_lookup pc_demo_two pc_demo_kA = Some 0" by code_simp
  moreover have "int (length (pc_gpuBlocks pc_demo_two)) + int (length (pc_swapBlocks pc_demo_two)) < 2 ^ 62" by code_simp
  moreover have "pc_entries (get_expired pc_demo_kA 0 (get_expired pc_demo_kA 0 pc_demo_two)) = 0" by code_simp
  ultimately show ?thesis using prefix_expired_race [OF pc_demo_two_reachable, of pc_demo_kA 0] by blast
qed

text \<open>
  Different token sequences are hashed from different bytes: the four-byte big-endian
  encoding is injective on sequences of 32-bit tokens, so two sequences share a block hash only
  where the hash function itself collides.
\<close>

theorem hash_tokens_collision:
  assumes "\<forall>t \<in> set ss. int32 t" and "\<forall>t \<in> set ts. int32 t" and "ss \<noteq> ts"
    and "hashTokens sha256_hex ss = hashTokens sha256_hex ts"
  shows "\<exists>x y. x \<noteq> y \<and> sha256_hex x = sha256_hex y"
  using assms tokens_data_inj [of ss ts] unfolding hashTokens_def by blast

theorem hash_tokens_collision_witness: "\<exists>x y :: bytes. x \<noteq> y \<and> (\<lambda>_. ''0'') x = (\<lambda>_. ''0'') y"
  by (rule hash_tokens_collision [of "[1, -1]" "[]" "\<lambda>_. ''0''"]) (simp_all add: int32_def hashTokens_def)

text \<open>
  C39. What \<open>insertIntoTree\<close> files, \<open>MatchPrefix\<close> finds: after inserting a token sequence no longer
  than the maximum for a block the cache has, the sequence matches in full and its last matched
  block is that block.
\<close>

theorem match_after_insert:
  assumes "int (length tokens) \<le> pc_maxPrefixLen c" and "tokens \<noteq> []" and "gm_get (pt_blocks (pc_tree c)) h = Some p"
  shows "fst (MatchPrefix (insertIntoTree tokens h c) tokens) = length tokens \<and>
    snd (MatchPrefix (insertIntoTree tokens h c) tokens) \<noteq> [] \<and> last (snd (MatchPrefix (insertIntoTree tokens h c) tokens)) = p"
  using assms match_insert [of 0 tokens "pc_maxPrefixLen c"] match_insert_block [of 0 tokens "pc_maxPrefixLen c" p]
  by (simp add: MatchPrefix_def insertIntoTree_def)

theorem match_after_insert_witness:
  "fst (MatchPrefix (insertIntoTree [5, 6, 7] pc_demo_kA pc_demo_two) [5, 6, 7]) = 3"
proof -
  have "int (length [5, 6, 7 :: int]) \<le> pc_maxPrefixLen pc_demo_two" by code_simp
  moreover have "gm_get (pt_blocks (pc_tree pc_demo_two)) pc_demo_kA = Some 0" by code_simp
  ultimately show ?thesis using match_after_insert [of "[5, 6, 7]" pc_demo_two pc_demo_kA 0] by simp
qed

text \<open>
  But a prefix of several blocks is not found again: \<open>InsertPrefix\<close> files each block's own
  tokens from the root of the tree, so of four tokens stored in blocks of two only the first
  two match, and the tokens of the second block match on their own, at the start of a sequence.
\<close>

theorem insert_prefix_mismatch:
  "let c = snd (InsertPrefix es sha256_hex pc_demo [1, 2, 3, 4] kv 0)
   in fst (MatchPrefix c [1, 2, 3, 4]) = 2 \<and> fst (MatchPrefix c [3, 4]) = 2"
  for es :: "nat \<Rightarrow> pc_env"
proof -
  have tree: "pt_root (pc_tree (snd (Prefix_Set e c k v ttl))) = pt_root (pc_tree c)" for e c k v ttl
    by (simp add: Prefix_Set_def Let_def drop_key_def removeBlock_def split: option.split)
  have size: "pc_blockSize (snd (Prefix_Set e c k v ttl)) = pc_blockSize c" "pc_maxPrefixLen (snd (Prefix_Set e c k v ttl)) = pc_maxPrefixLen c"
    for e c k v ttl by (simp_all add: Prefix_Set_def Let_def drop_key_def removeBlock_def split: option.split)
  have demo: "pc_blockSize pc_demo = 2" "pc_maxPrefixLen pc_demo = 2048" "pc_minPrefixLen pc_demo = 2"
    "pt_root (pc_tree pc_demo) = PrefixNode (-1) [] None 0" by code_simp+
  have ins: "pc_blockSize (insertIntoTree ts h c) = pc_blockSize c" for ts h c by (simp add: insertIntoTree_def)
  have nb: "(length [1, 2, 3, 4 :: int] + nat (pc_blockSize pc_demo) - 1) div nat (pc_blockSize pc_demo) = Suc (Suc 0)"
    by (simp add: demo)
  have i1: "snd (InsertPrefix es sha256_hex pc_demo [1, 2, 3, 4] kv 0) =
      insert_blocks es sha256_hex [1, 2, 3, 4] kv 0 0 (Suc (Suc 0)) 0 pc_demo"
  proof -
    have "\<not> int (length [1, 2, 3, 4 :: int]) < pc_minPrefixLen pc_demo" "\<not> pc_maxPrefixLen pc_demo < int (length [1, 2, 3, 4 :: int])"
      by (simp_all add: demo)
    then show ?thesis unfolding InsertPrefix_def Let_def by (simp only: if_False nb snd_conv)
  qed
  have i2: "\<exists>e1 v1 h1 e2 v2 h2. insert_blocks es sha256_hex [1, 2, 3, 4] kv 0 0 (Suc (Suc 0)) 0 pc_demo =
      insertIntoTree [3, 4] h2 (snd (Prefix_Set e2 (insertIntoTree [1, 2] h1 (snd (Prefix_Set e1 pc_demo h1 v1 0))) h2 v2 0))"
    by (simp add: Let_def demo size ins) blast
  obtain e1 v1 h1 e2 v2 h2 where c: "insert_blocks es sha256_hex [1, 2, 3, 4] kv 0 0 (Suc (Suc 0)) 0 pc_demo =
      insertIntoTree [3, 4] h2 (snd (Prefix_Set e2 (insertIntoTree [1, 2] h1 (snd (Prefix_Set e1 pc_demo h1 v1 0))) h2 v2 0))"
    using i2 by (elim exE) (rule that)
  show ?thesis unfolding i1 c Let_def by (simp add: insertIntoTree_def tree size demo MatchPrefix_def)
qed

text \<open>
  The hit rate and the miss rate the prefix cache reports are proper fractions, between 0 and
  1, as long as the two counters have not overflowed.
\<close>

theorem prefix_rates:
  assumes "0 \<le> pc_hits c" and "0 \<le> pc_misses c" and "pc_hits c + pc_misses c < 2 ^ 63"
  shows "unit_rate (st_HitRate (Prefix_Stats c)) \<and> unit_rate (st_MissRate (Prefix_Stats c))"
  using rates_unit [OF assms] by (simp add: Prefix_Stats_def)

theorem prefix_rates_witness: "unit_rate (st_HitRate (Prefix_Stats (pc_demo\<lparr>pc_hits := 2, pc_misses := 1\<rparr>)))"
  using prefix_rates [of "pc_demo\<lparr>pc_hits := 2, pc_misses := 1\<rparr>"] by simp

end
