(* ===== verification/CacheManager.thy ===== *)
theory CacheManager
  imports PrefixCacheInv
begin

text \<open>
  The cache manager, \<open>internal/cache/manager.go\<close>. It calls its tiers only through the interface
  \<open>CacheTier\<close>, here the argument \<open>ops\<close>, and creates them with the constructors of the tier
  packages, here the argument \<open>mk\<close>. \<open>'s\<close> is the state of a tier and \<open>e i\<close> what its \<open>i\<close>-th call in an
  operation reads from outside. A goroutine that a call starts is a task that runs later: a
  promotion works on the configuration object it was started with (told apart by \<open>cc_Id\<close>, for
  the name may have been configured anew since), a warmup looks the configuration up by name
  when it runs. The hit and miss counters are lists of increments; latencies are not modelled.
\<close>

section \<open>Data\<close>

record 's CacheConfig =
  cc_Id :: nat
  cc_Name :: string
  cc_Tiers :: "'s list"
  cc_EvictionPolicy :: string
  cc_CoherencePolicy :: string
  cc_WarmupEnabled :: bool
  cc_CommonPrefixes :: "string list"

datatype cache_task =
    Promote nat string string CacheEntry
  | Warmup string "string list"

record 's CacheManager =
  cm_caches :: "(string, 's CacheConfig) gomap"
  cm_running :: bool
  cm_stopCh_closed :: bool
  cm_nextId :: nat
  cm_tasks :: "cache_task list"
  cm_hits :: "(string \<times> string) list"
  cm_misses :: "(string \<times> string) list"

record 's tier_makers =
  mk_prefix :: "string \<Rightarrow> string \<Rightarrow> quantity \<Rightarrow> duration \<Rightarrow> PrefixCacheConfig option \<Rightarrow> 's"
  mk_local :: "string \<Rightarrow> string \<Rightarrow> quantity \<Rightarrow> duration \<Rightarrow> LocalCacheConfig option \<Rightarrow> 's"
  mk_redis :: "string \<Rightarrow> string \<Rightarrow> quantity \<Rightarrow> duration \<Rightarrow> RedisCacheConfig option \<Rightarrow> (cache_error, 's) outcome"

definition NewCacheManager :: "'s CacheManager" where
  "NewCacheManager = \<lparr>cm_caches = [], cm_running = False, cm_stopCh_closed = False, cm_nextId = 0, cm_tasks = [],
     cm_hits = [], cm_misses = []\<rparr>"

definition Cache_Start :: "'s CacheManager \<Rightarrow> 's CacheManager" where
  "Cache_Start m = m\<lparr>cm_running := True\<rparr>"

definition Cache_Stop :: "'s CacheManager \<Rightarrow> (cache_error, unit) outcome \<times> 's CacheManager" where
  "Cache_Stop m =
    (if cm_stopCh_closed m then (Panic, m\<lparr>cm_running := False\<rparr>)
     else (Ok (), m\<lparr>cm_running := False, cm_stopCh_closed := True\<rparr>))"

text \<open>What \<open>runEviction\<close> logs: the tiers that are more than 90 percent full. It evicts nothing.\<close>

definition runEviction :: "('e, 's) CacheTier \<Rightarrow> ((string, 's CacheConfig) gomap \<Rightarrow> (string, 's CacheConfig) gomap)
    \<Rightarrow> 's CacheManager \<Rightarrow> (string \<times> string) list" where
  "runEviction ops ord m = concat (map (\<lambda>(n, cfg). map (\<lambda>t. (cc_Name cfg, op_Name ops t))
     (filter (\<lambda>t. f_gt (f_div (f_of_int (op_UsedSize ops t)) (f_of_int (op_Size ops t))) (Fin (fl (9 / 10)))) (cc_Tiers cfg)))
     (ord (cm_caches m)))"

section \<open>Configuration\<close>

definition createTier :: "'s tier_makers \<Rightarrow> string \<Rightarrow> CacheTierSpec \<Rightarrow> (cache_error, 's) outcome" where
  "createTier mk cacheName spec =
    (let ttl = (case cts_TTL spec of Some d \<Rightarrow> d | None \<Rightarrow> 0) in
     if cts_Type spec = CacheTierTypePrefix then Ok (mk_prefix mk cacheName (cts_Name spec) (cts_Size spec) ttl (cts_PrefixConfig spec))
     else if cts_Type spec = CacheTierTypeLocal then Ok (mk_local mk cacheName (cts_Name spec) (cts_Size spec) ttl (cts_LocalConfig spec))
     else if cts_Type spec = CacheTierTypeRedis then mk_redis mk cacheName (cts_Name spec) (cts_Size spec) ttl (cts_RedisConfig spec)
     else Err (UnsupportedTier (cts_Type spec)))"

fun create_tiers :: "'s tier_makers \<Rightarrow> string \<Rightarrow> CacheTierSpec list \<Rightarrow> (cache_error, 's list) outcome" where
  "create_tiers mk cacheName [] = Ok []"
| "create_tiers mk cacheName (spec # specs) =
    (case createTier mk cacheName spec of
       Ok t \<Rightarrow> (case create_tiers mk cacheName specs of Ok ts \<Rightarrow> Ok (t # ts) | r \<Rightarrow> r)
     | Err e \<Rightarrow> Err (CreateTierFailed (cts_Name spec) e)
     | Panic \<Rightarrow> Panic
     | Blocked \<Rightarrow> Blocked)"

definition ConfigureCache :: "'s tier_makers \<Rightarrow> 's CacheManager \<Rightarrow> TokenCache \<Rightarrow> (cache_error, unit) outcome \<times> 's CacheManager" where
  "ConfigureCache mk m cache =
    (let spec = tc_Spec cache;
         enabled = (case tcs_Warmup spec of Some w \<Rightarrow> wu_Enabled w | None \<Rightarrow> False);
         prefixes = (case tcs_Warmup spec of Some w \<Rightarrow> wu_CommonPrefixes w | None \<Rightarrow> [])
     in case create_tiers mk (tc_Name cache) (tcs_Tiers spec) of
          Ok tiers \<Rightarrow>
            (Ok (), m\<lparr>cm_caches := gm_set (tc_Name cache)
               \<lparr>cc_Id = cm_nextId m, cc_Name = tc_Name cache, cc_Tiers = tiers, cc_EvictionPolicy = tcs_EvictionPolicy spec,
                cc_CoherencePolicy = tcs_CoherencePolicy spec, cc_WarmupEnabled = enabled, cc_CommonPrefixes = prefixes\<rparr> (cm_caches m),
               cm_nextId := Suc (cm_nextId m),
               cm_tasks := cm_tasks m @ (if enabled \<and> prefixes \<noteq> [] then [Warmup (tc_Name cache) prefixes] else [])\<rparr>)
        | Err e \<Rightarrow> (Err e, m)
        | Panic \<Rightarrow> (Panic, m)
        | Blocked \<Rightarrow> (Blocked, m))"

section \<open>Loops over tiers\<close>

text \<open>A call on every tier whose errors are only logged.\<close>

fun each_tier :: "(nat \<Rightarrow> 's \<Rightarrow> (cache_error, unit) outcome \<times> 's) \<Rightarrow> nat \<Rightarrow> 's list \<Rightarrow> (cache_error, unit) outcome \<times> 's list" where
  "each_tier f i [] = (Ok (), [])"
| "each_tier f i (t # ts) =
    (case f i t of
       (Panic, t') \<Rightarrow> (Panic, t' # ts)
     | (Blocked, t') \<Rightarrow> (Blocked, t' # ts)
     | (_, t') \<Rightarrow> (case each_tier f (Suc i) ts of (r, ts') \<Rightarrow> (r, t' # ts')))"

text \<open>The tiers in order, up to the first that has the key; with the position of that tier.\<close>

fun get_tiers :: "('e, 's) CacheTier \<Rightarrow> (nat \<Rightarrow> 'e) \<Rightarrow> nat \<Rightarrow> 's list \<Rightarrow> string
    \<Rightarrow> (cache_error, (nat \<times> CacheEntry) option) outcome \<times> 's list" where
  "get_tiers ops e i [] key = (Ok None, [])"
| "get_tiers ops e i (t # ts) key =
    (case op_Get ops (e i) t key of
       (Ok (Some en), t') \<Rightarrow> (Ok (Some (i, en)), t' # ts)
     | (Panic, t') \<Rightarrow> (Panic, t' # ts)
     | (Blocked, t') \<Rightarrow> (Blocked, t' # ts)
     | (_, t') \<Rightarrow> (case get_tiers ops e (Suc i) ts key of (r, ts') \<Rightarrow> (r, t' # ts')))"

definition put_tiers :: "string \<Rightarrow> 's CacheConfig \<Rightarrow> 's list \<Rightarrow> 's CacheManager \<Rightarrow> 's CacheManager" where
  "put_tiers n cfg ts m = m\<lparr>cm_caches := gm_set n (cfg\<lparr>cc_Tiers := ts\<rparr>) (cm_caches m)\<rparr>"

section \<open>Operations\<close>

definition CleanupCache :: "('e, 's) CacheTier \<Rightarrow> (nat \<Rightarrow> 'e) \<Rightarrow> 's CacheManager \<Rightarrow> string
    \<Rightarrow> (cache_error, unit) outcome \<times> 's CacheManager" where
  "CleanupCache ops e m cacheName =
    (case gm_get (cm_caches m) cacheName of
       None \<Rightarrow> (Ok (), m)
     | Some cfg \<Rightarrow>
         (case each_tier (\<lambda>i t. op_Clear ops (e i) t) 0 (cc_Tiers cfg) of
            (Ok _, ts) \<Rightarrow> (Ok (), m\<lparr>cm_caches := gm_del cacheName (cm_caches m)\<rparr>)
          | (r, ts) \<Rightarrow> (r, put_tiers cacheName cfg ts m)))"

definition Cache_Get :: "('e, 's) CacheTier \<Rightarrow> (nat \<Rightarrow> 'e) \<Rightarrow> 's CacheManager \<Rightarrow> string \<Rightarrow> string
    \<Rightarrow> (cache_error, CacheEntry) outcome \<times> 's CacheManager" where
  "Cache_Get ops e m cacheName key =
    (case gm_get (cm_caches m) cacheName of
       None \<Rightarrow> (Err (CacheNotFound cacheName), m)
     | Some cfg \<Rightarrow>
         let names = map (\<lambda>t. (cacheName, op_Name ops t)) (cc_Tiers cfg) in
         (case get_tiers ops e 0 (cc_Tiers cfg) key of
            (Ok (Some (i, en)), ts) \<Rightarrow>
              (Ok en, (put_tiers cacheName cfg ts m)\<lparr>
                 cm_hits := cm_hits m @ [names ! i], cm_misses := cm_misses m @ take i names,
                 cm_tasks := cm_tasks m @ (if cc_CoherencePolicy cfg = ''write-through''
                    then [Promote (cc_Id cfg) (op_Name ops (cc_Tiers cfg ! i)) key en] else [])\<rparr>)
          | (Ok None, ts) \<Rightarrow> (Err (KeyNotFound key), (put_tiers cacheName cfg ts m)\<lparr>cm_misses := cm_misses m @ names\<rparr>)
          | (Err err, ts) \<Rightarrow> (Err err, put_tiers cacheName cfg ts m)
          | (Panic, ts) \<Rightarrow> (Panic, put_tiers cacheName cfg ts m)
          | (Blocked, ts) \<Rightarrow> (Blocked, put_tiers cacheName cfg ts m)))"

definition write_tiers :: "('e, 's) CacheTier \<Rightarrow> (nat \<Rightarrow> 'e) \<Rightarrow> string \<Rightarrow> 's list \<Rightarrow> string \<Rightarrow> bytes \<Rightarrow> duration
    \<Rightarrow> (cache_error, unit) outcome \<times> 's list" where
  "write_tiers ops e policy ts key value ttl =
    (if policy = ''write-back'' then
       (case ts of [] \<Rightarrow> (Ok (), [])
        | t # rest \<Rightarrow> (case op_Set ops (e 0) t key value ttl of (r, t') \<Rightarrow> (r, t' # rest)))
     else if policy = ''write-around'' then
       (if ts = [] then (Ok (), [])
        else case op_Set ops (e 0) (last ts) key value ttl of (r, t') \<Rightarrow> (r, butlast ts @ [t']))
     else each_tier (\<lambda>i t. op_Set ops (e i) t key value ttl) 0 ts)"

definition Cache_Set :: "('e, 's) CacheTier \<Rightarrow> (nat \<Rightarrow> 'e) \<Rightarrow> 's CacheManager \<Rightarrow> string \<Rightarrow> string \<Rightarrow> bytes \<Rightarrow> duration
    \<Rightarrow> (cache_error, unit) outcome \<times> 's CacheManager" where
  "Cache_Set ops e m cacheName key value ttl =
    (case gm_get (cm_caches m) cacheName of
       None \<Rightarrow> (Err (CacheNotFound cacheName), m)
     | Some cfg \<Rightarrow> (case write_tiers ops e (cc_CoherencePolicy cfg) (cc_Tiers cfg) key value ttl of
         (r, ts) \<Rightarrow> (r, put_tiers cacheName cfg ts m)))"

definition Cache_Delete :: "('e, 's) CacheTier \<Rightarrow> (nat \<Rightarrow> 'e) \<Rightarrow> 's CacheManager \<Rightarrow> string \<Rightarrow> string
    \<Rightarrow> (cache_error, unit) outcome \<times> 's CacheManager" where
  "Cache_Delete ops e m cacheName key =
    (case gm_get (cm_caches m) cacheName of
       None \<Rightarrow> (Err (CacheNotFound cacheName), m)
     | Some cfg \<Rightarrow> (case each_tier (\<lambda>i t. op_Delete ops (e i) t key) 0 (cc_Tiers cfg) of
         (r, ts) \<Rightarrow> (r, put_tiers cacheName cfg ts m)))"

definition Cache_Invalidate :: "('e, 's) CacheTier \<Rightarrow> (nat \<Rightarrow> 'e) \<Rightarrow> 's CacheManager \<Rightarrow> string \<Rightarrow> string
    \<Rightarrow> (cache_error, unit) outcome \<times> 's CacheManager" where
  "Cache_Invalidate ops e m cacheName pattern =
    (case gm_get (cm_caches m) cacheName of
       None \<Rightarrow> (Err (CacheNotFound cacheName), m)
     | Some cfg \<Rightarrow> (case each_tier (\<lambda>i t. op_Clear ops (e i) t) 0 (cc_Tiers cfg) of
         (r, ts) \<Rightarrow> (r, put_tiers cacheName cfg ts m)))"

section \<open>Background tasks\<close>

definition promoteToPreviousTiers :: "('e, 's) CacheTier \<Rightarrow> (nat \<Rightarrow> 'e) \<Rightarrow> string \<Rightarrow> string \<Rightarrow> CacheEntry \<Rightarrow> 's list
    \<Rightarrow> (cache_error, unit) outcome \<times> 's list" where
  "promoteToPreviousTiers ops e current key en ts =
    (case each_tier (\<lambda>i t. op_Set ops (e i) t key (ce_Value en) (ce_TTL en)) 0 (takeWhile (\<lambda>t. op_Name ops t \<noteq> current) ts) of
       (r, front) \<Rightarrow> (r, front @ dropWhile (\<lambda>t. op_Name ops t \<noteq> current) ts))"

definition string_bytes :: "string \<Rightarrow> bytes" where
  "string_bytes s = map (\<lambda>ch. word_of_nat (of_char ch)) s"

fun warm_prefixes :: "('e, 's) CacheTier \<Rightarrow> (nat \<Rightarrow> nat \<Rightarrow> 'e) \<Rightarrow> nat \<Rightarrow> string list \<Rightarrow> 's list
    \<Rightarrow> (cache_error, unit) outcome \<times> 's list" where
  "warm_prefixes ops e j [] ts = (Ok (), ts)"
| "warm_prefixes ops e j (pfx # ps) ts =
    (case each_tier (\<lambda>i t. op_Set ops (e j i) t (''prefix:'' @ pfx) (string_bytes pfx) (24 * hour)) 0 ts of
       (Ok _, ts') \<Rightarrow> warm_prefixes ops e (Suc j) ps ts'
     | (r, ts') \<Rightarrow> (r, ts'))"

definition warmupCache :: "('e, 's) CacheTier \<Rightarrow> (nat \<Rightarrow> nat \<Rightarrow> 'e) \<Rightarrow> string \<Rightarrow> string list \<Rightarrow> 's CacheManager
    \<Rightarrow> (cache_error, unit) outcome \<times> 's CacheManager" where
  "warmupCache ops e cacheName prefixes m =
    (case gm_get (cm_caches m) cacheName of
       None \<Rightarrow> (Ok (), m)
     | Some cfg \<Rightarrow> (case warm_prefixes ops e 0 prefixes (cc_Tiers cfg) of (r, ts) \<Rightarrow> (r, put_tiers cacheName cfg ts m)))"

text \<open>A promotion whose configuration is no longer registered writes to tiers nobody can reach.\<close>

fun run_task :: "('e, 's) CacheTier \<Rightarrow> (nat \<Rightarrow> nat \<Rightarrow> 'e) \<Rightarrow> cache_task \<Rightarrow> 's CacheManager
    \<Rightarrow> (cache_error, unit) outcome \<times> 's CacheManager" where
  "run_task ops e (Promote cid current key en) m =
    (case find (\<lambda>(n, cfg). cc_Id cfg = cid) (cm_caches m) of
       None \<Rightarrow> (Ok (), m)
     | Some (n, cfg) \<Rightarrow> (case promoteToPreviousTiers ops (e 0) current key en (cc_Tiers cfg) of
         (r, ts) \<Rightarrow> (r, put_tiers n cfg ts m)))"
| "run_task ops e (Warmup cacheName prefixes) m = warmupCache ops e cacheName prefixes m"

section \<open>Status\<close>

definition tier_status :: "('e, 's) CacheTier \<Rightarrow> 's \<Rightarrow> CacheTierStatus" where
  "tier_status ops t = \<lparr>cst_Name = op_Name ops t, cst_Ready = op_Healthy ops t, cst_Size = op_Size ops t,
     cst_UsedSize = op_UsedSize ops t, cst_Entries = st_Entries (op_Stats ops t), cst_HitRate = st_HitRate (op_Stats ops t),
     cst_MissRate = st_MissRate (op_Stats ops t), cst_AvgLatency = None, cst_Endpoint = ''''\<rparr>"

definition GetStatus :: "('e, 's) CacheTier \<Rightarrow> 's CacheManager \<Rightarrow> string \<Rightarrow> (cache_error, TokenCacheStatus) outcome" where
  "GetStatus ops m cacheName =
    (case gm_get (cm_caches m) cacheName of
       None \<Rightarrow> Err (CacheNotFound cacheName)
     | Some cfg \<Rightarrow>
         let ts = cc_Tiers cfg;
             totalHitRate = fold (\<lambda>t acc. f_add acc (st_HitRate (op_Stats ops t))) ts (Fin 0)
         in Ok \<lparr>tst_Phase = (if list_all (op_Healthy ops) ts then TokenCachePhaseReady else TokenCachePhaseDegraded),
              tst_TotalSize = fold (\<lambda>t acc. wrap64 (acc + op_Size ops t)) ts 0,
              tst_UsedSize = fold (\<lambda>t acc. wrap64 (acc + op_UsedSize ops t)) ts 0,
              tst_TotalEntries = fold (\<lambda>t acc. wrap64 (acc + st_Entries (op_Stats ops t))) ts 0,
              tst_OverallHitRate = (if ts \<noteq> [] then f_div totalHitRate (f_of_int (int (length ts))) else Fin 0),
              tst_Tiers = map (tier_status ops) ts, tst_WarmupStatus = None, tst_Conditions = [], tst_LastSyncTime = None,
              tst_ObservedGeneration = 0\<rparr>)"

definition GetCacheForService :: "'s CacheManager \<Rightarrow> string \<Rightarrow> (cache_error, 's CacheConfig) outcome" where
  "GetCacheForService m cacheRef =
    (if cacheRef = '''' then (case gm_get (cm_caches m) ''default'' of Some cfg \<Rightarrow> Ok cfg | None \<Rightarrow> Err NoDefaultCache)
     else case gm_get (cm_caches m) cacheRef of Some cfg \<Rightarrow> Ok cfg | None \<Rightarrow> Err (CacheNotFound cacheRef))"

definition ListCaches :: "((string, 's CacheConfig) gomap \<Rightarrow> (string, 's CacheConfig) gomap) \<Rightarrow> 's CacheManager \<Rightarrow> string list" where
  "ListCaches ord m = map fst (ord (cm_caches m))"

definition Cache_HealthCheck :: "('e, 's) CacheTier \<Rightarrow> ((string, 's CacheConfig) gomap \<Rightarrow> (string, 's CacheConfig) gomap)
    \<Rightarrow> 's CacheManager \<Rightarrow> (cache_error, unit) outcome" where
  "Cache_HealthCheck ops ord m =
    (case find (\<lambda>(n, t). \<not> op_Healthy ops t) (concat (map (\<lambda>(n, cfg). map (\<lambda>t. (n, t)) (cc_Tiers cfg)) (ord (cm_caches m)))) of
       Some (n, t) \<Rightarrow> Err (UnhealthyTier n (op_Name ops t)) | None \<Rightarrow> Ok ())"

section \<open>What the manager adds to its tiers\<close>

text \<open>
  The client's view: the lemmas hold for every kind of tier that keeps the contract. \<open>ops\<close> is
  the interface value the manager calls.
\<close>

locale tier_client = memory_tier "op_Get ops" "op_Set ops" "op_Delete ops" "op_Clear ops" live inv alive
  for ops :: "('e, 's) CacheTier" and live inv alive
begin

lemma each_tier_total:
  assumes "\<And>i t. inv t \<Longrightarrow> \<exists>t'. f i t = (Ok (), t') \<and> inv t' \<and> Q i t t'" and "\<forall>t \<in> set ts. inv t"
  shows "\<exists>ts'. each_tier f i ts = (Ok (), ts') \<and> length ts' = length ts \<and>
    (\<forall>j < length ts. inv (ts' ! j) \<and> Q (i + j) (ts ! j) (ts' ! j))"
  using assms(2)
proof (induction ts arbitrary: i)
  case (Cons t ts)
  obtain t' where t': "f i t = (Ok (), t')" "inv t'" "Q i t t'" using assms(1) [of t i] Cons.prems by auto
  obtain ts' where ts': "each_tier f (Suc i) ts = (Ok (), ts')" "length ts' = length ts"
    "\<forall>j < length ts. inv (ts' ! j) \<and> Q (Suc i + j) (ts ! j) (ts' ! j)" using Cons.IH [of "Suc i"] Cons.prems by auto
  have "each_tier f i (t # ts) = (Ok (), t' # ts')" using t'(1) ts'(1) by simp
  moreover have "inv ((t' # ts') ! j) \<and> Q (i + j) ((t # ts) ! j) ((t' # ts') ! j)" if "j < length (t # ts)" for j
    using that t' ts'(3) by (cases j) auto
  ultimately show ?case using ts'(2) by auto
qed simp

lemma get_absent_all:
  assumes "\<forall>t \<in> set ts. inv t" and "\<And>j. j < length ts \<Longrightarrow> live (e (i + j)) (ts ! j) k = None"
  shows "\<exists>ts'. get_tiers ops e i ts k = (Ok None, ts')"
  using assms
proof (induction ts arbitrary: i)
  case (Cons t ts)
  obtain t' where "op_Get ops (e i) t k = (Ok None, t')" using get_absent [of t "e i" k] Cons.prems(1) Cons.prems(2) [of 0] by auto
  moreover have "live (e (Suc i + j)) (ts ! j) k = None" if "j < length ts" for j
    using that Cons.prems(2) [of "Suc j"] by simp
  then obtain ts' where "get_tiers ops e (Suc i) ts k = (Ok None, ts')" using Cons.IH [of "Suc i"] Cons.prems(1) by auto
  ultimately show ?case by simp
qed simp

text \<open>A write under any policy but write-around is seen by the next read.\<close>

lemma read_your_write:
  assumes "\<forall>t \<in> set ts. inv t" and "ts \<noteq> []" and "policy \<noteq> ''write-around''" and "alive (e 0) (hd ts) ttl (e' 0)"
  shows "\<exists>ts' en ts''. write_tiers ops e policy ts k v ttl = (Ok (), ts') \<and>
    get_tiers ops e' 0 ts' k = (Ok (Some (0, en)), ts'') \<and> ce_Value en = v"
proof -
  obtain t rest where ts: "ts = t # rest" using assms(2) by (cases ts) auto
  obtain t' en t'' where t': "op_Set ops (e 0) t k v ttl = (Ok (), t')" "op_Get ops (e' 0) t' k = (Ok (Some en), t'')" "ce_Value en = v"
    using set_get [of t "e 0" ttl "e' 0" k v] assms ts by auto
  have "\<exists>ts'. each_tier (\<lambda>i t. op_Set ops (e i) t k v ttl) 1 rest = (Ok (), ts')"
    using each_tier_total [of "\<lambda>i t. op_Set ops (e i) t k v ttl" "\<lambda>_ _ _. True" rest 1] set_total inv_set assms(1) ts
    by (metis list.set_intros(2) snd_conv)
  then obtain rest' where "each_tier (\<lambda>i t. op_Set ops (e i) t k v ttl) 1 rest = (Ok (), rest')" by blast
  then have "\<exists>r. write_tiers ops e policy ts k v ttl = (Ok (), t' # r)"
    using assms(3) ts t'(1) by (auto simp: write_tiers_def)
  then show ?thesis using t'(2,3) by fastforce
qed

text \<open>A call on every tier that removes the key makes the next read miss.\<close>

lemma read_after_wipe:
  assumes "\<forall>t \<in> set ts. inv t" and "\<And>i t. inv t \<Longrightarrow> \<exists>t'. f i t = (Ok (), t') \<and> inv t' \<and> (\<forall>e'. live e' t' k = None)"
  shows "\<exists>ts' ts''. each_tier f 0 ts = (Ok (), ts') \<and> get_tiers ops e' 0 ts' k = (Ok None, ts'')"
proof -
  from each_tier_total [of f "\<lambda>i t t'. \<forall>e'. live e' t' k = None" ts 0, OF assms(2,1)]
  obtain ts' where ts': "each_tier f 0 ts = (Ok (), ts')" "length ts' = length ts"
    "\<forall>j < length ts. inv (ts' ! j) \<and> (\<forall>e'. live e' (ts' ! j) k = None)" by blast
  have "\<forall>t \<in> set ts'. inv t" using ts'(2,3) by (metis in_set_conv_nth)
  then show ?thesis using get_absent_all [of ts' e' 0 k] ts' by auto
qed

lemma read_after_delete:
  assumes "\<forall>t \<in> set ts. inv t"
  shows "\<exists>ts' ts''. each_tier (\<lambda>i t. op_Delete ops (e i) t k) 0 ts = (Ok (), ts') \<and> get_tiers ops e' 0 ts' k = (Ok None, ts'')"
proof (rule read_after_wipe [OF assms])
  fix i t assume t: "inv t"
  obtain t' where t': "op_Delete ops (e i) t k = (Ok (), t')" using del_total [OF t] by blast
  have "inv t'" using inv_del [OF t, of "e i" k] t' by simp
  moreover have "live e' t' k = None" for e' using del_live [OF t t', of e' k] by simp
  ultimately show "\<exists>t'. op_Delete ops (e i) t k = (Ok (), t') \<and> inv t' \<and> (\<forall>e'. live e' t' k = None)" using t' by blast
qed

lemma read_after_clear:
  assumes "\<forall>t \<in> set ts. inv t"
  shows "\<exists>ts' ts''. each_tier (\<lambda>i t. op_Clear ops (e i) t) 0 ts = (Ok (), ts') \<and> get_tiers ops e' 0 ts' k = (Ok None, ts'')"
proof (rule read_after_wipe [OF assms])
  fix i t assume t: "inv t"
  obtain t' where t': "op_Clear ops (e i) t = (Ok (), t')" using clear_total [OF t] by blast
  have "inv t'" using inv_clear [OF t, of "e i"] t' by simp
  moreover have "live e' t' k = None" for e' using clear_live [OF t t', of e' k] by simp
  ultimately show "\<exists>t'. op_Clear ops (e i) t = (Ok (), t') \<and> inv t' \<and> (\<forall>e'. live e' t' k = None)" using t' by blast
qed

text \<open>Under write-around an older value in the first of several tiers hides the new one.\<close>

lemma write_around_stale:
  assumes "inv t" and "rest \<noteq> []" and "live (e' 0) t k = Some old"
    and "get_tiers ops e' 0 (snd (write_tiers ops e ''write-around'' (t # rest) k v ttl)) k = (Ok r, ts')"
  shows "\<exists>en. r = Some (0, en) \<and> ce_Value en = old"
proof -
  obtain x where "snd (write_tiers ops e ''write-around'' (t # rest) k v ttl) = t # x"
    using assms(2) by (cases "op_Set ops (e 0) (last rest) k v ttl") (auto simp: write_tiers_def)
  then have g: "get_tiers ops e' 0 (t # x) k = (Ok r, ts')" using assms(4) by simp
  obtain q t' where q: "op_Get ops (e' 0) t k = (q, t')" by fastforce
  show ?thesis
  proof (cases q)
    case (Ok en)
    then have "map_option ce_Value en = Some old" using get_live [OF assms(1)] q assms(3) by metis
    then show ?thesis using g q Ok by (cases en) auto
  next
    case (Err err)
    then show ?thesis using get_never_fails [of "e' 0" t k err] q by simp
  qed (use g q in auto)
qed

end

interpretation pm: tier_client prefix_tier pc_live pc_ok pc_alive
  unfolding tier_client_def prefix_tier_def by (simp add: prefix.memory_tier_axioms)

lemma put_tiers_get: "gm_get (cm_caches (put_tiers n cfg ts m)) n = Some (cfg\<lparr>cc_Tiers := ts\<rparr>)"
  by (simp add: put_tiers_def gm_get_set)

lemma Cache_Get_hit:
  assumes "gm_get (cm_caches m) n = Some cfg" and "get_tiers ops e 0 (cc_Tiers cfg) k = (Ok (Some (i, en)), ts)"
  shows "fst (Cache_Get ops e m n k) = Ok en"
  using assms by (simp add: Cache_Get_def Let_def)

lemma Cache_Get_miss:
  assumes "gm_get (cm_caches m) n = Some cfg" and "get_tiers ops e 0 (cc_Tiers cfg) k = (Ok None, ts)"
  shows "fst (Cache_Get ops e m n k) = Err (KeyNotFound k)"
  using assms by (simp add: Cache_Get_def Let_def)

section \<open>Sums over tiers\<close>

lemma fold_wrap64: "fold (\<lambda>t acc. wrap64 (acc + f t)) ts (wrap64 a) = wrap64 (a + sum_list (map f ts))"
  by (induction ts arbitrary: a) (simp_all add: add.assoc)

text \<open>The sum of \<open>n\<close> fractions, rounded at each step, stays within \<open>n\<close>.\<close>

lemma fold_rates:
  assumes "\<forall>t \<in> set ts. unit_rate (f t)" and "0 \<le> x" "x \<le> of_nat i" "i + length ts \<le> 2 ^ 53"
  shows "\<exists>y. fold (\<lambda>t acc. f_add acc (f t)) ts (Fin x) = Fin y \<and> 0 \<le> y \<and> y \<le> of_nat (i + length ts)"
  using assms
proof (induction ts arbitrary: x i)
  case (Cons t ts)
  obtain r where r: "f t = Fin r" "0 \<le> r" "r \<le> 1" using Cons.prems(1) by (auto simp: unit_rate_def)
  have "fl (of_nat (Suc i)) = of_nat (Suc i)" using fl_of_int_exact [of "int (Suc i)"] Cons.prems(4) by simp
  moreover have "fl (x + r) \<le> fl (of_nat (Suc i))" using Cons.prems(3) r by (intro fl_mono) simp
  ultimately have "fl (x + r) \<le> of_nat (Suc i)" by simp
  moreover have "0 \<le> fl (x + r)" using Cons.prems(2) r by (intro fl_nonneg) simp
  ultimately show ?case using Cons.IH [of "fl (x + r)" "Suc i"] Cons.prems r by simp
qed simp

lemma average_rate:
  assumes "\<forall>t \<in> set ts. unit_rate (f t)" and "ts \<noteq> []" and "length ts \<le> 2 ^ 53"
  shows "unit_rate (f_div (fold (\<lambda>t acc. f_add acc (f t)) ts (Fin 0)) (f_of_int (int (length ts))))"
proof -
  obtain y where y: "fold (\<lambda>t acc. f_add acc (f t)) ts (Fin 0) = Fin y" "0 \<le> y" "y \<le> of_nat (length ts)"
    using fold_rates [OF assms(1), of 0 0] assms(3) by auto
  have n: "fl (of_int (int (length ts))) = of_nat (length ts)" using fl_of_int_exact [of "int (length ts)"] assms(3) by simp
  have "y / of_nat (length ts) \<le> 1" using y assms(2) by simp
  then have "fl (y / of_nat (length ts)) \<le> 1" by (rule fl_le_1)
  moreover have "0 \<le> fl (y / of_nat (length ts))" using y by (intro fl_nonneg) simp
  ultimately show ?thesis using n y assms(2) by (simp add: f_of_int_def unit_rate_def)
qed

section \<open>Properties\<close>

definition cm_ok :: "PrefixCache CacheManager \<Rightarrow> bool" where
  "cm_ok m \<longleftrightarrow> (\<forall>n cfg. gm_get (cm_caches m) n = Some cfg \<longrightarrow> (\<forall>t \<in> set (cc_Tiers cfg). pc_ok t))"

definition cm_demo :: "string \<Rightarrow> PrefixCache CacheManager" where
  "cm_demo policy = NewCacheManager\<lparr>cm_caches := [(''c'', \<lparr>cc_Id = 0, cc_Name = ''c'',
     cc_Tiers = [snd (Prefix_Set (pc_at 1) (NewPrefixCache ''c'' ''t0'' 100 60 None) ''k'' [1] 0), NewPrefixCache ''c'' ''t1'' 100 60 None],
     cc_EvictionPolicy = ''lru'', cc_CoherencePolicy = policy, cc_WarmupEnabled = False, cc_CommonPrefixes = []\<rparr>)]\<rparr>"

lemma cm_demo_ok: "cm_ok (cm_demo policy)"
  using Prefix_Set_ok [OF NewPrefixCache_ok] NewPrefixCache_ok by (auto simp: cm_ok_def cm_demo_def split: if_splits)

text \<open>
  C8. Reading your own write: under the write-through, the write-back and the default policy, a
  \<open>Set\<close> on a cache of prefix tiers succeeds and a \<open>Get\<close> of the same key, within the time to live,
  returns the value.
\<close>

theorem cache_read_your_write:
  assumes "cm_ok m" and "gm_get (cm_caches m) n = Some cfg" and "cc_Tiers cfg \<noteq> []" and "cc_CoherencePolicy cfg \<noteq> ''write-around''"
    and "pc_alive (e 0) (hd (cc_Tiers cfg)) ttl (e' 0)"
  shows "\<exists>m' en. Cache_Set prefix_tier e m n k v ttl = (Ok (), m') \<and> fst (Cache_Get prefix_tier e' m' n k) = Ok en \<and> ce_Value en = v"
proof -
  have "\<forall>t \<in> set (cc_Tiers cfg). pc_ok t" using assms(1,2) by (auto simp: cm_ok_def)
  from pm.read_your_write [of "cc_Tiers cfg" "cc_CoherencePolicy cfg" e ttl e' k v, OF this assms(3-5)]
  obtain ts' en ts'' where w: "write_tiers prefix_tier e (cc_CoherencePolicy cfg) (cc_Tiers cfg) k v ttl = (Ok (), ts')"
    "get_tiers prefix_tier e' 0 ts' k = (Ok (Some (0, en)), ts'')" "ce_Value en = v" by blast
  have s: "Cache_Set prefix_tier e m n k v ttl = (Ok (), put_tiers n cfg ts' m)" using assms(2) w(1) by (simp add: Cache_Set_def)
  have "fst (Cache_Get prefix_tier e' (put_tiers n cfg ts' m) n k) = Ok en"
    by (rule Cache_Get_hit [OF put_tiers_get]) (simp add: w(2))
  with s w(3) show ?thesis by blast
qed

theorem cache_read_your_write_witness:
  "\<exists>m' en. Cache_Set prefix_tier (\<lambda>_. pc_at 2) (cm_demo ''write-through'') ''c'' ''k'' [9] 0 = (Ok (), m') \<and>
     fst (Cache_Get prefix_tier (\<lambda>_. pc_at 3) m' ''c'' ''k'') = Ok en \<and> ce_Value en = [9]"
  by (rule cache_read_your_write [OF cm_demo_ok, where n = "''c''"])
    (simp_all add: cm_demo_def, simp_all add: pc_alive_def pc_at_def NewPrefixCache_def Prefix_Set_def Let_def drop_key_def get_lookup_def)

text \<open>
  C40. After a \<open>Delete\<close>, and after an \<open>Invalidate\<close> whatever its pattern, a cache of prefix tiers has
  no entry of the key in any tier: the next \<open>Get\<close> reports that the key is not found. \<open>Invalidate\<close>
  does so for every key, since it clears the tiers without looking at the pattern.
\<close>

theorem cache_delete_invalidate:
  assumes "cm_ok m" and "gm_get (cm_caches m) n = Some cfg"
  shows "fst (Cache_Get prefix_tier e' (snd (Cache_Delete prefix_tier e m n k)) n k) = Err (KeyNotFound k) \<and>
    fst (Cache_Get prefix_tier e' (snd (Cache_Invalidate prefix_tier e m n pattern)) n k) = Err (KeyNotFound k)"
proof -
  have ok: "\<forall>t \<in> set (cc_Tiers cfg). pc_ok t" using assms by (auto simp: cm_ok_def)
  obtain ts ts2 where d: "each_tier (\<lambda>i t. op_Delete prefix_tier (e i) t k) 0 (cc_Tiers cfg) = (Ok (), ts)"
    "get_tiers prefix_tier e' 0 ts k = (Ok None, ts2)" using pm.read_after_delete [OF ok] by blast
  obtain us us2 where c: "each_tier (\<lambda>i t. op_Clear prefix_tier (e i) t) 0 (cc_Tiers cfg) = (Ok (), us)"
    "get_tiers prefix_tier e' 0 us k = (Ok None, us2)" using pm.read_after_clear [OF ok] by blast
  have "snd (Cache_Delete prefix_tier e m n k) = put_tiers n cfg ts m" using assms(2) d(1) by (simp add: Cache_Delete_def)
  moreover have "snd (Cache_Invalidate prefix_tier e m n pattern) = put_tiers n cfg us m"
    using assms(2) c(1) by (simp add: Cache_Invalidate_def)
  moreover have "fst (Cache_Get prefix_tier e' (put_tiers n cfg ts m) n k) = Err (KeyNotFound k)"
    by (rule Cache_Get_miss [OF put_tiers_get]) (simp add: d(2))
  moreover have "fst (Cache_Get prefix_tier e' (put_tiers n cfg us m) n k) = Err (KeyNotFound k)"
    by (rule Cache_Get_miss [OF put_tiers_get]) (simp add: c(2))
  ultimately show ?thesis by simp
qed

theorem cache_delete_invalidate_witness:
  "fst (Cache_Get prefix_tier (\<lambda>_. pc_at 3) (snd (Cache_Invalidate prefix_tier (\<lambda>_. pc_at 2) (cm_demo ''write-through'') ''c'' ''zzz'')) ''c'' ''k'') =
     Err (KeyNotFound ''k'')"
proof -
  obtain cfg where "gm_get (cm_caches (cm_demo ''write-through'')) ''c'' = Some cfg" by (simp add: cm_demo_def)
  from cache_delete_invalidate [OF cm_demo_ok this] show ?thesis by blast
qed

text \<open>
  Under write-around a write can stay invisible: when the first of several tiers still
  holds an unexpired value of the key, a \<open>Set\<close> only changes the last tier and a later \<open>Get\<close>, if it
  returns a value, returns the old one.
\<close>

theorem cache_write_around_stale:
  assumes "cm_ok m" and "gm_get (cm_caches m) n = Some cfg" and "cc_CoherencePolicy cfg = ''write-around''"
    and "cc_Tiers cfg = t # rest" and "rest \<noteq> []" and "pc_live (e' 0) t k = Some old"
    and "fst (Cache_Get prefix_tier e' (snd (Cache_Set prefix_tier e m n k v ttl)) n k) = Ok en"
  shows "ce_Value en = old"
proof -
  let ?ts = "snd (write_tiers prefix_tier e ''write-around'' (t # rest) k v ttl)"
  have s: "snd (Cache_Set prefix_tier e m n k v ttl) = put_tiers n cfg ?ts m"
    using assms(2-4) by (simp add: Cache_Set_def split_beta)
  obtain r ts' where g: "get_tiers prefix_tier e' 0 ?ts k = (r, ts')" by fastforce
  have t: "pc_ok t" using assms(1,2,4) by (auto simp: cm_ok_def)
  have got: "fst (Cache_Get prefix_tier e' (put_tiers n cfg ?ts m) n k) = Ok en" using assms(7) s by simp
  obtain x where r: "r = Ok x"
    using got g by (cases r) (auto simp: Cache_Get_def put_tiers_get Let_def)
  from pm.write_around_stale [where e' = e' and e = e and v = v and ttl = ttl and r = x and ts' = ts', OF t assms(5,6)] g r obtain en' where x: "x = Some (0, en')" "ce_Value en' = old" by auto
  have "fst (Cache_Get prefix_tier e' (put_tiers n cfg ?ts m) n k) = Ok en'"
    by (rule Cache_Get_hit [OF put_tiers_get]) (simp add: g r x)
  with got x show ?thesis by simp
qed

theorem cache_write_around_stale_witness:
  "\<exists>en. fst (Cache_Get prefix_tier (\<lambda>_. pc_at 3) (snd (Cache_Set prefix_tier (\<lambda>_. pc_at 2) (cm_demo ''write-around'') ''c'' ''k'' [9] 0)) ''c'' ''k'') = Ok en
     \<and> ce_Value en = [1]"
proof -
  let ?m = "cm_demo ''write-around''"
  let ?t = "snd (Prefix_Set (pc_at 1) (NewPrefixCache ''c'' ''t0'' 100 60 None) ''k'' [1] 0)"
  obtain cfg where c: "gm_get (cm_caches ?m) ''c'' = Some cfg" "cc_CoherencePolicy cfg = ''write-around''"
    "cc_Tiers cfg = ?t # [NewPrefixCache ''c'' ''t1'' 100 60 None]" by (simp add: cm_demo_def)
  have l: "pc_live (pc_at 3) ?t ''k'' = Some [1]" by code_simp
  have "is_ok (fst (Cache_Get prefix_tier (\<lambda>_. pc_at 3) (snd (Cache_Set prefix_tier (\<lambda>_. pc_at 2) ?m ''c'' ''k'' [9] 0)) ''c'' ''k''))"
    by code_simp
  then obtain en where en: "fst (Cache_Get prefix_tier (\<lambda>_. pc_at 3) (snd (Cache_Set prefix_tier (\<lambda>_. pc_at 2) ?m ''c'' ''k'' [9] 0)) ''c'' ''k'') = Ok en"
    by (auto simp: is_ok_iff)
  from cache_write_around_stale [OF cm_demo_ok c _ l en] en show ?thesis by blast
qed

text \<open>
  The status of a cache: it is degraded exactly when some tier is unhealthy, the sizes, the
  used sizes and the entries are the sums over the tiers modulo \<open>2 ^ 64\<close>, every tier is reported,
  and where the tiers report proper fractions the overall hit rate is one too.
\<close>

theorem cache_status:
  assumes "gm_get (cm_caches m) n = Some cfg" and "\<forall>t \<in> set (cc_Tiers cfg). unit_rate (st_HitRate (op_Stats ops t))"
    and "length (cc_Tiers cfg) \<le> 2 ^ 53"
  shows "\<exists>st. GetStatus ops m n = Ok st \<and>
    (tst_Phase st = TokenCachePhaseDegraded \<longleftrightarrow> (\<exists>t \<in> set (cc_Tiers cfg). \<not> op_Healthy ops t)) \<and>
    tst_TotalSize st = wrap64 (sum_list (map (op_Size ops) (cc_Tiers cfg))) \<and>
    tst_UsedSize st = wrap64 (sum_list (map (op_UsedSize ops) (cc_Tiers cfg))) \<and>
    tst_TotalEntries st = wrap64 (sum_list (map (\<lambda>t. st_Entries (op_Stats ops t)) (cc_Tiers cfg))) \<and>
    map cst_Name (tst_Tiers st) = map (op_Name ops) (cc_Tiers cfg) \<and> unit_rate (tst_OverallHitRate st)"
proof -
  note sums = fold_wrap64 [of _ "cc_Tiers cfg" 0, simplified]
  have "cc_Tiers cfg \<noteq> [] \<Longrightarrow> unit_rate (f_div (fold (\<lambda>t acc. f_add acc (st_HitRate (op_Stats ops t))) (cc_Tiers cfg) (Fin 0))
      (f_of_int (int (length (cc_Tiers cfg)))))"
    using average_rate [OF assms(2) _ assms(3)] by blast
  moreover have "unit_rate (Fin 0)" by (simp add: unit_rate_def)
  ultimately show ?thesis using assms(1)
    by (auto simp: GetStatus_def Let_def sums tier_status_def list_all_iff comp_def)
qed

theorem cache_status_witness:
  "\<exists>st. GetStatus prefix_tier (cm_demo ''write-back'') ''c'' = Ok st \<and> unit_rate (tst_OverallHitRate st)"
proof -
  obtain cfg where c: "gm_get (cm_caches (cm_demo ''write-back'')) ''c'' = Some cfg"
    "cc_Tiers cfg = [snd (Prefix_Set (pc_at 1) (NewPrefixCache ''c'' ''t0'' 100 60 None) ''k'' [1] 0), NewPrefixCache ''c'' ''t1'' 100 60 None]"
    by (simp add: cm_demo_def)
  have "\<forall>t \<in> set (cc_Tiers cfg). unit_rate (st_HitRate (op_Stats prefix_tier t))"
    by (simp add: c prefix_tier_def Prefix_Stats_def rates_def unit_rate_def NewPrefixCache_def Prefix_Set_def Let_def drop_key_def get_lookup_def)
  moreover have "length (cc_Tiers cfg) \<le> 2 ^ 53" by (simp add: c)
  ultimately show ?thesis using cache_status [OF c(1)] by blast
qed

end
