(* ===== verification/Backend.thy ===== *)
theory Backend
  imports InferenceTypes
begin

text \<open>
  The backend interface and the factory, \<open>internal/backends/interface.go\<close>. The methods of a backend
  have no state: a backend is a record of functions. \<open>ord\<close> is the order in which a \<open>range\<close> loop visits
  the extra arguments; \<open>http\<close> is the HTTP client, a function of the URL. An error is its message.
\<close>

section \<open>Data\<close>

record DeploymentSpec =
  ds_Name :: string
  ds_Namespace :: string
  ds_Image :: string
  ds_Command :: "string list"
  ds_Args :: "string list"
  ds_Env :: "EnvVar list"
  ds_Ports :: "ContainerPort list"
  ds_Resources :: ResourceRequirements
  ds_VolumeMounts :: "VolumeMount list"
  ds_Volumes :: "Volume list"
  ds_NodeSelector :: "(string, string) gomap option"
  ds_Tolerations :: "Toleration list option"
  ds_Replicas :: int
  ds_Labels :: "(string, string) gomap"
  ds_Annotations :: "(string, string) gomap"
  ds_ServiceAccountName :: string
  ds_InitContainers :: "Container list"
  ds_ReadinessProbe :: "Probe option"
  ds_LivenessProbe :: "Probe option"
  ds_StartupProbe :: "Probe option"
  ds_SecurityContext :: "PodSecurityContext option"

record ServiceSpec =
  ss_Name :: string
  ss_Namespace :: string
  ss_Type :: string
  ss_Ports :: "ServicePort list"
  ss_Selector :: "(string, string) gomap"
  ss_Labels :: "(string, string) gomap"
  ss_Annotations :: "(string, string) gomap"

record HealthStatus =
  hs_Healthy :: bool
  hs_Ready :: bool
  hs_Message :: string
  hs_LastChecked :: timestamp
  hs_ModelLoaded :: bool
  hs_GPUAvailable :: bool
  hs_Details :: "(string, string) gomap"

record BackendMetrics =
  bm_RequestsTotal :: int
  bm_RequestsPerSecond :: gofloat
  bm_AverageLatency :: duration
  bm_P50Latency :: duration
  bm_P90Latency :: duration
  bm_P99Latency :: duration
  bm_QueueDepth :: int
  bm_BatchSize :: gofloat
  bm_TokensPerSecond :: gofloat
  bm_GPUUtilization :: gofloat
  bm_GPUMemoryUsed :: quantity
  bm_GPUMemoryTotal :: quantity
  bm_CacheHitRate :: gofloat
  bm_ActiveRequests :: int
  bm_PendingRequests :: int
  bm_Errors :: int
  bm_Custom :: "(string, gofloat) gomap"

definition zero_metrics :: BackendMetrics where
  "zero_metrics = \<lparr>bm_RequestsTotal = 0, bm_RequestsPerSecond = Fin 0, bm_AverageLatency = 0, bm_P50Latency = 0,
     bm_P90Latency = 0, bm_P99Latency = 0, bm_QueueDepth = 0, bm_BatchSize = Fin 0, bm_TokensPerSecond = Fin 0,
     bm_GPUUtilization = Fin 0, bm_GPUMemoryUsed = 0, bm_GPUMemoryTotal = 0, bm_CacheHitRate = Fin 0,
     bm_ActiveRequests = 0, bm_PendingRequests = 0, bm_Errors = 0, bm_Custom = []\<rparr>"

text \<open>
  What an HTTP request comes to: the URL is not one, there is no answer, or there is one with a
  status and a body, which may not be readable.
\<close>

datatype http_result = BadURL string | NoAnswer string | Answer int "string option"

type_synonym http_client = "string \<Rightarrow> http_result"
type_synonym args_ord = "(string, string) gomap \<Rightarrow> (string, string) gomap"

record Backend =
  b_Name :: string
  b_Type :: BackendType
  b_Version :: string
  b_GenerateDeployment :: "args_ord \<Rightarrow> InferenceService \<Rightarrow> (string, DeploymentSpec) outcome"
  b_GenerateService :: "InferenceService \<Rightarrow> (string, ServiceSpec) outcome"
  b_HealthCheck :: "http_client \<Rightarrow> timestamp \<Rightarrow> string \<Rightarrow> (string, HealthStatus) outcome"
  b_GetMetrics :: "http_client \<Rightarrow> string \<Rightarrow> (string, BackendMetrics) outcome"
  b_Scale :: "string \<Rightarrow> int \<Rightarrow> (string, unit) outcome"
  b_Configure :: "string \<Rightarrow> (string, string) gomap \<Rightarrow> (string, unit) outcome"
  b_Validate :: "InferenceService \<Rightarrow> (string, unit) outcome"

text \<open>A request to a served model and what comes back. \<open>float32\<close> fields are read as \<open>float64\<close>, which contains them.\<close>

record InferenceRequest =
  irq_RequestID :: string
  irq_Prompt :: string
  irq_MaxTokens :: int
  irq_Temperature :: gofloat
  irq_TopP :: gofloat
  irq_TopK :: int
  irq_StopSequences :: "string list"
  irq_Stream :: bool
  irq_Metadata :: "(string, string) gomap"

record TokenUsage =
  tu_PromptTokens :: int
  tu_CompletionTokens :: int
  tu_TotalTokens :: int
  tu_CacheHits :: int

record InferenceResponse =
  irs_RequestID :: string
  irs_Text :: string
  irs_Tokens :: int
  irs_FinishReason :: string
  irs_Latency :: duration
  irs_TimeToFirstToken :: duration
  irs_Usage :: "TokenUsage option"
  irs_Error :: "string option"

section \<open>The factory\<close>

record BackendFactory =
  bf_backends :: "(BackendType, Backend) gomap"

definition NewBackendFactory :: BackendFactory where
  "NewBackendFactory = \<lparr>bf_backends = []\<rparr>"

definition Factory_Register :: "Backend \<Rightarrow> BackendFactory \<Rightarrow> BackendFactory" where
  "Factory_Register b f = f\<lparr>bf_backends := gm_set (b_Type b) b (bf_backends f)\<rparr>"

definition Factory_Get :: "BackendFactory \<Rightarrow> BackendType \<Rightarrow> Backend option" where
  "Factory_Get f t = gm_get (bf_backends f) t"

definition Factory_List :: "((BackendType, Backend) gomap \<Rightarrow> (BackendType, Backend) gomap) \<Rightarrow> BackendFactory \<Rightarrow> Backend list" where
  "Factory_List ord f = map snd (ord (bf_backends f))"

section \<open>The contract of a backend\<close>

definition pods_ready_to_serve :: "DeploymentSpec \<Rightarrow> ServiceSpec \<Rightarrow> bool" where
  "pods_ready_to_serve d s \<longleftrightarrow>
     list_all (\<lambda>(k, v). gm_get (ds_Labels d) k = Some v) (ss_Selector s) \<and>
     list_all (\<lambda>p. list_ex (\<lambda>q. cp_ContainerPort q = sp_TargetPort p \<and> cp_Protocol q = sp_Protocol p) (ds_Ports d)) (ss_Ports s)"

definition mounts_ok :: "Volume list \<Rightarrow> VolumeMount list \<Rightarrow> bool" where
  "mounts_ok vs ms \<longleftrightarrow> list_all (\<lambda>m. list_ex (\<lambda>v. vo_Name v = vm_Name m) vs) ms"

definition probes_ok :: "DeploymentSpec \<Rightarrow> bool" where
  "probes_ok d \<longleftrightarrow> list_all (\<lambda>pr. case pr of None \<Rightarrow> True
     | Some p \<Rightarrow> list_ex (\<lambda>q. cp_ContainerPort q = probe_port (pr_Handler p)) (ds_Ports d))
     [ds_ReadinessProbe d, ds_LivenessProbe d, ds_StartupProbe d]"

text \<open>
  What the reconciler relies on: a service that a backend accepts is rendered, with the name and
  the replicas it asked for; the rendered service selects the rendered pods and forwards only to
  ports they open; probes go to open ports; containers mount volumes that exist.
\<close>

locale backend =
  fixes b :: Backend
  assumes validate_generate: "b_Validate b svc = Ok () \<Longrightarrow> \<exists>d. b_GenerateDeployment b ord svc = Ok d"
    and validate_refuse: "b_Validate b svc = Err m \<Longrightarrow> b_GenerateDeployment b ord svc = Err m"
    and validate_total: "is_ok (b_Validate b svc) \<or> is_err (b_Validate b svc)"
    and generate_service: "\<exists>s. b_GenerateService b svc = Ok s \<and> ss_Name s = is_Name svc \<and> ss_Namespace s = is_Namespace svc"
    and deployment_of: "b_GenerateDeployment b ord svc = Ok d \<Longrightarrow>
          ds_Name d = is_Name svc \<and> ds_Namespace d = is_Namespace svc \<and> ds_Replicas d = iss_Replicas (is_Spec svc) \<and>
          gm_get (ds_Labels d) ''app.kubernetes.io/name'' = Some (is_Name svc)"
    and serves: "b_GenerateDeployment b ord svc = Ok d \<Longrightarrow> b_GenerateService b svc = Ok s \<Longrightarrow> pods_ready_to_serve d s"
    and probes: "b_GenerateDeployment b ord svc = Ok d \<Longrightarrow> probes_ok d"
    and mounts: "b_GenerateDeployment b ord svc = Ok d \<Longrightarrow> mounts_ok (ds_Volumes d) (ds_VolumeMounts d) \<and>
          list_all (\<lambda>c. mounts_ok (ds_Volumes d) (ct_VolumeMounts c)) (ds_InitContainers d)"
begin

lemma generated_iff_valid: "is_ok (b_GenerateDeployment b ord svc) \<longleftrightarrow> b_Validate b svc = Ok ()"
  using validate_generate [of svc ord] validate_refuse [of svc _ ord] validate_total [of svc]
  by (cases "b_Validate b svc") auto

lemma accepted_is_served:
  assumes "b_Validate b svc = Ok ()"
  shows "\<exists>d s. b_GenerateDeployment b ord svc = Ok d \<and> b_GenerateService b svc = Ok s \<and> pods_ready_to_serve d s \<and>
    probes_ok d \<and> mounts_ok (ds_Volumes d) (ds_VolumeMounts d) \<and> ds_Replicas d = iss_Replicas (is_Spec svc)"
proof -
  obtain d where d: "b_GenerateDeployment b ord svc = Ok d" using validate_generate [OF assms] by blast
  obtain s where s: "b_GenerateService b svc = Ok s" using generate_service [of svc] by blast
  from serves [OF d s] probes [OF d] mounts [OF d] deployment_of [OF d] d s show ?thesis by blast
qed

end

section \<open>Code the backends share\<close>

text \<open>
  \<open>HealthCheck\<close> and \<open>GetMetrics\<close> are the same in all backends but for the path: a request that cannot
  be made is an error, no answer is an unhealthy status, and the metrics of a body are not parsed.
\<close>

definition http_health :: "string \<Rightarrow> http_client \<Rightarrow> timestamp \<Rightarrow> string \<Rightarrow> (string, HealthStatus) outcome" where
  "http_health path http now endpoint =
    (case http (''http://'' @ endpoint @ path) of
       BadURL err \<Rightarrow> Err (''failed to create request: '' @ err)
     | NoAnswer err \<Rightarrow> Ok \<lparr>hs_Healthy = False, hs_Ready = False, hs_Message = err, hs_LastChecked = now,
         hs_ModelLoaded = False, hs_GPUAvailable = False, hs_Details = []\<rparr>
     | Answer status body \<Rightarrow> (let healthy = (status = 200) in
         Ok \<lparr>hs_Healthy = healthy, hs_Ready = healthy, hs_Message = ''HTTP '' @ itoa status, hs_LastChecked = now,
           hs_ModelLoaded = healthy, hs_GPUAvailable = healthy, hs_Details = []\<rparr>))"

definition http_metrics :: "string \<Rightarrow> http_client \<Rightarrow> string \<Rightarrow> (string, BackendMetrics) outcome" where
  "http_metrics path http endpoint =
    (case http (''http://'' @ endpoint @ path) of
       BadURL err \<Rightarrow> Err (''failed to create request: '' @ err)
     | NoAnswer err \<Rightarrow> Err (''failed to fetch metrics: '' @ err)
     | Answer status None \<Rightarrow> Err ''failed to read response''
     | Answer status (Some body) \<Rightarrow> Ok zero_metrics)"

text \<open>
  A statistics request: the errors are those of the HTTP package and of the JSON decoder \<open>decode\<close>,
  which is given the body or fails on one that cannot be read. The status code is not looked at.
\<close>

definition http_stats :: "(string option \<Rightarrow> (string, 'a) outcome) \<Rightarrow> http_client \<Rightarrow> string \<Rightarrow> (string, 'a) outcome" where
  "http_stats decode http url =
    (case http url of BadURL err \<Rightarrow> Err err | NoAnswer err \<Rightarrow> Err err | Answer status body \<Rightarrow> decode body)"

definition hf_token :: "InferenceService \<Rightarrow> EnvVar list" where
  "hf_token service =
    (case mo_SecretRef (iss_Model (is_Spec service)) of
       None \<Rightarrow> []
     | Some n \<Rightarrow> [\<lparr>ev_Name = ''HF_TOKEN'', ev_Value = '''', ev_SecretKeyRef = Some \<lparr>skr_Name = n, skr_Key = ''token''\<rparr>\<rparr>])"

text \<open>The lists of \<open>buildResources\<close>: the GPUs first, then what the service asks for, or else the defaults.\<close>

definition build_resources :: "ResourceList \<Rightarrow> ResourceList \<Rightarrow> ResourceList \<Rightarrow> InferenceService \<Rightarrow> ResourceRequirements" where
  "build_resources gpus limits requests service =
    (case iss_Resources (is_Spec service) of
       Some r \<Rightarrow> \<lparr>rr_Limits = gm_puts (rr_Limits r) gpus, rr_Requests = gm_puts (rr_Requests r) gpus\<rparr>
     | None \<Rightarrow> \<lparr>rr_Limits = gm_puts limits gpus, rr_Requests = gm_puts requests gpus\<rparr>)"

definition model_labels :: "string \<Rightarrow> InferenceService \<Rightarrow> (string, string) gomap" where
  "model_labels kind service =
     [(''app.kubernetes.io/name'', is_Name service), (''app.kubernetes.io/component'', ''inference''),
      (''app.kubernetes.io/managed-by'', ''inference-operator''), (''inference.ai/backend'', kind)]"

definition service_of :: "ServicePort list \<Rightarrow> InferenceService \<Rightarrow> ServiceSpec" where
  "service_of ports service =
     \<lparr>ss_Name = is_Name service, ss_Namespace = is_Namespace service, ss_Type = ServiceTypeClusterIP, ss_Ports = ports,
      ss_Selector = [(''app.kubernetes.io/name'', is_Name service)],
      ss_Labels = [(''app.kubernetes.io/name'', is_Name service), (''app.kubernetes.io/managed-by'', ''inference-operator'')],
      ss_Annotations = []\<rparr>"

definition tcp_port :: "string \<Rightarrow> int \<Rightarrow> ContainerPort" where
  "tcp_port name port = \<lparr>cp_Name = name, cp_ContainerPort = port, cp_Protocol = ProtocolTCP\<rparr>"

definition tcp_service_port :: "string \<Rightarrow> int \<Rightarrow> int \<Rightarrow> ServicePort" where
  "tcp_service_port name port target = \<lparr>sp_Name = name, sp_Port = port, sp_TargetPort = target, sp_Protocol = ProtocolTCP\<rparr>"

definition http_probe :: "string \<Rightarrow> int \<Rightarrow> int \<Rightarrow> int \<Rightarrow> int \<Rightarrow> int \<Rightarrow> Probe" where
  "http_probe path port delay period timeout failures = \<lparr>pr_Handler = HTTPGet path port, pr_InitialDelaySeconds = delay,
     pr_PeriodSeconds = period, pr_TimeoutSeconds = timeout, pr_FailureThreshold = failures\<rparr>"

lemmas render_defs = model_labels_def service_of_def tcp_port_def tcp_service_port_def http_probe_def
  pods_ready_to_serve_def probes_ok_def mounts_ok_def

text \<open>A script text of the source: it starts with a line break and every line ends with one.\<close>

definition script_of :: "string list \<Rightarrow> string" where
  "script_of lines = [CHR 0x0A] @ concat (map (\<lambda>l. l @ [CHR 0x0A]) lines)"

text \<open>
  Every backend renders the same way: it validates, then fills in a deployment, and its service
  selects by name. What is left to check is the deployment itself.
\<close>

lemma backend_intro:
  assumes gen: "\<And>ord svc. b_GenerateDeployment b ord svc = (case b_Validate b svc of Ok _ \<Rightarrow> Ok (f ord svc)
      | Err m \<Rightarrow> Err m | Panic \<Rightarrow> Panic | Blocked \<Rightarrow> Blocked)"
    and val: "\<And>svc. is_ok (b_Validate b svc) \<or> is_err (b_Validate b svc)"
    and srv: "\<And>svc. b_GenerateService b svc = Ok (service_of ps svc)"
    and meta: "\<And>ord svc. ds_Name (f ord svc) = is_Name svc \<and> ds_Namespace (f ord svc) = is_Namespace svc \<and>
      ds_Replicas (f ord svc) = iss_Replicas (is_Spec svc) \<and>
      gm_get (ds_Labels (f ord svc)) ''app.kubernetes.io/name'' = Some (is_Name svc)"
    and serve: "\<And>ord svc. pods_ready_to_serve (f ord svc) (service_of ps svc)"
    and prb: "\<And>ord svc. probes_ok (f ord svc)"
    and mnt: "\<And>ord svc. mounts_ok (ds_Volumes (f ord svc)) (ds_VolumeMounts (f ord svc)) \<and>
      list_all (\<lambda>c. mounts_ok (ds_Volumes (f ord svc)) (ct_VolumeMounts c)) (ds_InitContainers (f ord svc))"
  shows "backend b"
proof -
  have d: "d = f ord svc" if "b_GenerateDeployment b ord svc = Ok d" for ord svc d
    using that gen [of ord svc] by (auto split: outcome.splits)
  show ?thesis
  proof (unfold_locales, goal_cases)
    case (1 svc ord)
    then show ?case by (simp add: gen)
  next
    case (2 svc m ord)
    then show ?case by (simp add: gen)
  next
    case (3 svc)
    show ?case by (rule val)
  next
    case (4 svc)
    show ?case by (simp add: srv service_of_def)
  next
    case (5 ord svc d)
    then show ?case using d [OF 5] meta by blast
  next
    case (6 ord svc d s)
    have "s = service_of ps svc" using 6(2) srv [of svc] by simp
    then show ?case using d [OF 6(1)] serve by simp
  next
    case (7 ord svc d)
    then show ?case using d [OF 7] prb by blast
  next
    case (8 ord svc d)
    then show ?case using d [OF 8] mnt by blast
  qed
qed

end
