(* ===== verification/Vllm.thy ===== *)
theory Vllm
  imports Backend
begin

text \<open>
  The vLLM backend, \<open>internal/backends/vllm.go\<close>. Its statistics request, \<open>getVLLMStats\<close>, is modelled although
  nothing calls it; the decoding of JSON is a parameter.
\<close>

section \<open>Rendering\<close>

definition vllmDefaultImage :: string where "vllmDefaultImage = ''vllm/vllm-openai:latest''"
definition vllmAPIPort :: int where "vllmAPIPort = 8000"
definition vllmMetricsPort :: int where "vllmMetricsPort = 9090"
definition vllmHealthEndpoint :: string where "vllmHealthEndpoint = ''/health''"
definition vllmMetricsEndpoint :: string where "vllmMetricsEndpoint = ''/metrics''"

definition VLLM_Validate :: "InferenceService \<Rightarrow> (string, unit) outcome" where
  "VLLM_Validate service =
    (let spec = is_Spec service; count = gs_Count (iss_GPU spec) in
     if mo_Name (iss_Model spec) = '''' then Err ''model name is required''
     else if count < 1 then Err ''at least 1 GPU is required''
     else case iss_BackendConfig spec of
       None \<Rightarrow> Ok ()
     | Some bc \<Rightarrow>
         let tp = bc_TensorParallelism bc in
         if tp > 0 \<and> count < tp
         then Err (''tensor parallelism ('' @ itoa tp @ '') cannot exceed GPU count ('' @ itoa count @ '')'')
         else Ok ())"

definition vllm_tensor_parallelism :: "InferenceService \<Rightarrow> int" where
  "vllm_tensor_parallelism service =
    (case iss_BackendConfig (is_Spec service) of
       Some bc \<Rightarrow> if bc_TensorParallelism bc > 0 then bc_TensorParallelism bc else 1
     | None \<Rightarrow> 1)"

definition vllm_buildArgs :: "args_ord \<Rightarrow> InferenceService \<Rightarrow> string list" where
  "vllm_buildArgs ord service =
    (let spec = is_Spec service; bc = iss_BackendConfig spec in
     [''--model'', mo_Name (iss_Model spec), ''--host'', ''0.0.0.0'', ''--port'', itoa vllmAPIPort] @
     [''--tensor-parallel-size'', itoa (vllm_tensor_parallelism service)] @
     (case bc of Some c \<Rightarrow> if bc_PipelineParallelism c > 1 then [''--pipeline-parallel-size'', itoa (bc_PipelineParallelism c)] else []
      | None \<Rightarrow> []) @
     (case bc of Some c \<Rightarrow> if bc_MaxSeqLen c > 0 then [''--max-model-len'', itoa (bc_MaxSeqLen c)] else [] | None \<Rightarrow> []) @
     (case bc of Some c \<Rightarrow> if bc_Quantization c \<noteq> '''' then [''--quantization'', bc_Quantization c] else [] | None \<Rightarrow> []) @
     (case iss_Cache spec of Some c \<Rightarrow> if cas_Enabled c then [''--enable-prefix-caching''] else [] | None \<Rightarrow> []) @
     (case bc of Some c \<Rightarrow> concat (map (\<lambda>(key, value). [''--'' @ key, value]) (ord (bc_ExtraArgs c))) | None \<Rightarrow> []))"

definition vllm_buildEnv :: "InferenceService \<Rightarrow> EnvVar list" where
  "vllm_buildEnv service =
     [\<lparr>ev_Name = ''VLLM_USAGE_STATS'', ev_Value = ''0'', ev_SecretKeyRef = None\<rparr>] @ hf_token service @
     (if gs_Sharing (iss_GPU (is_Spec service)) = GPUSharingModeMIG
      then [\<lparr>ev_Name = ''CUDA_MPS_PIPE_DIRECTORY'', ev_Value = ''/tmp/nvidia-mps'', ev_SecretKeyRef = None\<rparr>] else [])"

definition vllm_buildResources :: "InferenceService \<Rightarrow> ResourceRequirements" where
  "vllm_buildResources service = build_resources [(ResourceGPU, NewQuantity (gs_Count (iss_GPU (is_Spec service))))]
     [(ResourceCPU, MustParse ''8''), (ResourceMemory, MustParse ''32Gi'')]
     [(ResourceCPU, MustParse ''4''), (ResourceMemory, MustParse ''16Gi'')] service"

definition vllm_deployment :: "args_ord \<Rightarrow> InferenceService \<Rightarrow> DeploymentSpec" where
  "vllm_deployment ord service =
     \<lparr>ds_Name = is_Name service, ds_Namespace = is_Namespace service, ds_Image = vllmDefaultImage, ds_Command = [],
      ds_Args = vllm_buildArgs ord service, ds_Env = vllm_buildEnv service,
      ds_Ports = [tcp_port ''http'' vllmAPIPort, tcp_port ''metrics'' vllmMetricsPort],
      ds_Resources = vllm_buildResources service,
      ds_VolumeMounts = [\<lparr>vm_Name = ''model-cache'', vm_MountPath = ''/root/.cache/huggingface''\<rparr>,
        \<lparr>vm_Name = ''shm'', vm_MountPath = ''/dev/shm''\<rparr>],
      ds_Volumes = [\<lparr>vo_Name = ''model-cache'', vo_Medium = StorageMediumDefault, vo_SizeLimit = None\<rparr>,
        \<lparr>vo_Name = ''shm'', vo_Medium = StorageMediumMemory, vo_SizeLimit = Some (NewQuantity (10 * 1024 * 1024 * 1024))\<rparr>],
      ds_NodeSelector = iss_NodeSelector (is_Spec service), ds_Tolerations = iss_Tolerations (is_Spec service),
      ds_Replicas = iss_Replicas (is_Spec service), ds_Labels = model_labels ''vllm'' service,
      ds_Annotations = [(''inference.ai/model'', mo_Name (iss_Model (is_Spec service)))],
      ds_ServiceAccountName = iss_ServiceAccountName (is_Spec service), ds_InitContainers = [],
      ds_ReadinessProbe = Some (http_probe vllmHealthEndpoint vllmAPIPort 30 10 5 3),
      ds_LivenessProbe = Some (http_probe vllmHealthEndpoint vllmAPIPort 60 30 10 3),
      ds_StartupProbe = Some (http_probe vllmHealthEndpoint vllmAPIPort 10 10 5 60),
      ds_SecurityContext = None\<rparr>"

definition VLLM_GenerateDeployment :: "args_ord \<Rightarrow> InferenceService \<Rightarrow> (string, DeploymentSpec) outcome" where
  "VLLM_GenerateDeployment ord service =
    (case VLLM_Validate service of
       Ok _ \<Rightarrow> Ok (vllm_deployment ord service)
     | Err m \<Rightarrow> Err m | Panic \<Rightarrow> Panic | Blocked \<Rightarrow> Blocked)"

definition VLLM_GenerateService :: "InferenceService \<Rightarrow> (string, ServiceSpec) outcome" where
  "VLLM_GenerateService service =
     Ok (service_of [tcp_service_port ''http'' 80 vllmAPIPort, tcp_service_port ''metrics'' 9090 vllmMetricsPort] service)"

definition VLLM_HealthCheck :: "http_client \<Rightarrow> timestamp \<Rightarrow> string \<Rightarrow> (string, HealthStatus) outcome" where
  "VLLM_HealthCheck = http_health vllmHealthEndpoint"

definition VLLM_GetMetrics :: "http_client \<Rightarrow> string \<Rightarrow> (string, BackendMetrics) outcome" where
  "VLLM_GetMetrics = http_metrics vllmMetricsEndpoint"

definition VLLM_Scale :: "string \<Rightarrow> int \<Rightarrow> (string, unit) outcome" where
  "VLLM_Scale endpoint replicas = Ok ()"

definition VLLM_Configure :: "string \<Rightarrow> (string, string) gomap \<Rightarrow> (string, unit) outcome" where
  "VLLM_Configure endpoint config = Ok ()"

record vLLMStatsResponse =
  vs_NumRequests :: int
  vs_NumRunningReqs :: int
  vs_NumWaitingReqs :: int
  vs_GPUMemoryUsed :: int
  vs_GPUMemoryTotal :: int
  vs_CacheHitRate :: gofloat
  vs_TokensPerSecond :: gofloat

definition getVLLMStats :: "(string option \<Rightarrow> (string, vLLMStatsResponse) outcome) \<Rightarrow> http_client \<Rightarrow> string
    \<Rightarrow> (string, vLLMStatsResponse) outcome" where
  "getVLLMStats decode http endpoint = http_stats decode http (''http://'' @ endpoint @ ''/stats'')"

definition VLLMBackend :: Backend where
  "VLLMBackend = \<lparr>b_Name = ''vllm'', b_Type = BackendTypeVLLM, b_Version = ''0.4.0'',
     b_GenerateDeployment = VLLM_GenerateDeployment, b_GenerateService = VLLM_GenerateService,
     b_HealthCheck = VLLM_HealthCheck, b_GetMetrics = VLLM_GetMetrics, b_Scale = VLLM_Scale,
     b_Configure = VLLM_Configure, b_Validate = VLLM_Validate\<rparr>"

section \<open>The contract\<close>

interpretation vllm: backend VLLMBackend
proof (rule backend_intro)
  show "b_GenerateDeployment VLLMBackend ord svc = (case b_Validate VLLMBackend svc of Ok _ \<Rightarrow> Ok (vllm_deployment ord svc)
      | Err m \<Rightarrow> Err m | Panic \<Rightarrow> Panic | Blocked \<Rightarrow> Blocked)" for ord svc
    by (simp add: VLLMBackend_def VLLM_GenerateDeployment_def)
  show "b_GenerateService VLLMBackend svc = Ok (service_of ([tcp_service_port ''http'' 80 vllmAPIPort, tcp_service_port ''metrics'' 9090 vllmMetricsPort]) svc)" for svc
    by (simp add: VLLMBackend_def VLLM_GenerateService_def)
qed (simp_all add: VLLMBackend_def VLLM_Validate_def vllm_deployment_def render_defs Let_def split: option.split)

text \<open>An accepted service is told a tensor parallelism between 1 and its number of GPUs.\<close>

lemma VLLM_tensor_parallelism:
  assumes "VLLM_Validate service = Ok ()"
  shows "1 \<le> vllm_tensor_parallelism service \<and> vllm_tensor_parallelism service \<le> gs_Count (iss_GPU (is_Spec service))"
  using assms by (auto simp: VLLM_Validate_def vllm_tensor_parallelism_def Let_def split: option.splits if_splits)

end
