(* ===== verification/Triton.thy ===== *)
theory Triton
  imports Backend
begin

text \<open>
  The Triton backend, \<open>internal/backends/triton.go\<close>. Its statistics request, \<open>getModelStats\<close>, is modelled although
  nothing calls it; the decoding of JSON is a parameter.
\<close>

section \<open>Rendering\<close>

definition tritonDefaultImage :: string where "tritonDefaultImage = ''nvcr.io/nvidia/tritonserver:24.01-py3''"
definition tritonHTTPPort :: int where "tritonHTTPPort = 8000"
definition tritonGRPCPort :: int where "tritonGRPCPort = 8001"
definition tritonMetricsPort :: int where "tritonMetricsPort = 8002"
definition tritonHealthEndpoint :: string where "tritonHealthEndpoint = ''/v2/health/ready''"
definition tritonMetricsEndpoint :: string where "tritonMetricsEndpoint = ''/metrics''"

definition Triton_Validate :: "InferenceService \<Rightarrow> (string, unit) outcome" where
  "Triton_Validate service =
    (if mo_Name (iss_Model (is_Spec service)) = '''' then Err ''model name is required'' else Ok ())"

definition triton_buildArgs :: "args_ord \<Rightarrow> InferenceService \<Rightarrow> string list" where
  "triton_buildArgs ord service =
     [''--model-repository=/models'', ''--http-port='' @ itoa tritonHTTPPort, ''--grpc-port='' @ itoa tritonGRPCPort,
      ''--metrics-port='' @ itoa tritonMetricsPort, ''--allow-http=true'', ''--allow-grpc=true'', ''--allow-metrics=true''] @
     [''--model-control-mode=explicit''] @
     (if gs_Count (iss_GPU (is_Spec service)) > 0 then [''--cuda-memory-pool-byte-size=0:4294967296''] else []) @
     (case iss_BackendConfig (is_Spec service) of
        Some c \<Rightarrow> map (\<lambda>(key, value). ''--'' @ key @ ''='' @ value) (ord (bc_ExtraArgs c)) | None \<Rightarrow> [])"

definition triton_buildEnv :: "InferenceService \<Rightarrow> EnvVar list" where
  "triton_buildEnv service =
     [\<lparr>ev_Name = ''TRITON_SERVER_CPU_ONLY'', ev_Value = ''0'', ev_SecretKeyRef = None\<rparr>] @ hf_token service"

definition triton_buildResources :: "InferenceService \<Rightarrow> ResourceRequirements" where
  "triton_buildResources service = build_resources
     (let count = gs_Count (iss_GPU (is_Spec service)) in if count > 0 then [(ResourceGPU, NewQuantity count)] else [])
     [(ResourceCPU, MustParse ''8''), (ResourceMemory, MustParse ''32Gi'')]
     [(ResourceCPU, MustParse ''4''), (ResourceMemory, MustParse ''16Gi'')] service"

definition triton_getMaxBatchSize :: "InferenceService \<Rightarrow> int" where
  "triton_getMaxBatchSize service =
    (case iss_BackendConfig (is_Spec service) of
       Some c \<Rightarrow> if bc_MaxBatchSize c > 0 then bc_MaxBatchSize c else 32 | None \<Rightarrow> 32)"

definition generateModelLoaderScript :: "InferenceService \<Rightarrow> string" where
  \<open>generateModelLoaderScript service = script_of
     [''import os'',
      ''import shutil'',
      [],
      ''model_name = '' @ [CHR 0x27] @ mo_Name (iss_Model (is_Spec service)) @ [CHR 0x27],
      ''model_path = '/models/' + model_name.replace('/', '_')'',
      [],
      ''os.makedirs(model_path + '/1', exist_ok=True)'',
      [],
      ''# Create config.pbtxt for the model'',
      ''config = '' @ [CHR 0x27, CHR 0x27, CHR 0x27],
      ''name: "{name}"'',
      ''backend: "python"'',
      ''max_batch_size: {batch_size}'',
      ''input ['',
      ''  {{'',
      ''    name: "prompt"'',
      ''    data_type: TYPE_STRING'',
      ''    dims: [ 1 ]'',
      ''  }}'',
      '']'',
      ''output ['',
      ''  {{'',
      ''    name: "generated_text"'',
      ''    data_type: TYPE_STRING'',
      ''    dims: [ 1 ]'',
      ''  }}'',
      '']'',
      ''instance_group ['',
      ''  {{'',
      ''    count: 1'',
      ''    kind: KIND_GPU'',
      ''  }}'',
      '']'',
      [CHR 0x27, CHR 0x27, CHR 0x27] @ ''.format(name=model_name.replace('/', '_'), batch_size='' @ itoa (triton_getMaxBatchSize service) @ '')'',
      [],
      ''with open(model_path + '/config.pbtxt', 'w') as f:'',
      ''    f.write(config)'',
      [],
      ''print(f'Model config created at {model_path}')'']\<close>

definition triton_deployment :: "args_ord \<Rightarrow> InferenceService \<Rightarrow> DeploymentSpec" where
  "triton_deployment ord service =
     \<lparr>ds_Name = is_Name service, ds_Namespace = is_Namespace service, ds_Image = tritonDefaultImage,
      ds_Command = [''tritonserver''], ds_Args = triton_buildArgs ord service, ds_Env = triton_buildEnv service,
      ds_Ports = [tcp_port ''http'' tritonHTTPPort, tcp_port ''grpc'' tritonGRPCPort, tcp_port ''metrics'' tritonMetricsPort],
      ds_Resources = triton_buildResources service,
      ds_VolumeMounts = [\<lparr>vm_Name = ''model-repository'', vm_MountPath = ''/models''\<rparr>,
        \<lparr>vm_Name = ''shm'', vm_MountPath = ''/dev/shm''\<rparr>],
      ds_Volumes = [\<lparr>vo_Name = ''model-repository'', vo_Medium = '''', vo_SizeLimit = None\<rparr>,
        \<lparr>vo_Name = ''shm'', vo_Medium = StorageMediumMemory, vo_SizeLimit = Some (NewQuantity (10 * 1024 * 1024 * 1024))\<rparr>],
      ds_NodeSelector = iss_NodeSelector (is_Spec service), ds_Tolerations = iss_Tolerations (is_Spec service),
      ds_Replicas = iss_Replicas (is_Spec service), ds_Labels = model_labels ''triton'' service,
      ds_Annotations = [(''inference.ai/model'', mo_Name (iss_Model (is_Spec service)))],
      ds_ServiceAccountName = iss_ServiceAccountName (is_Spec service),
      ds_InitContainers = [\<lparr>ct_Name = ''model-loader'', ct_Image = ''python:3.10-slim'',
        ct_Command = [''python'', ''-c'', generateModelLoaderScript service], ct_Args = [], ct_Env = triton_buildEnv service,
        ct_Ports = [], ct_Resources = \<lparr>rr_Limits = [], rr_Requests = []\<rparr>,
        ct_VolumeMounts = [\<lparr>vm_Name = ''model-repository'', vm_MountPath = ''/models''\<rparr>],
        ct_ReadinessProbe = None, ct_LivenessProbe = None, ct_StartupProbe = None\<rparr>],
      ds_ReadinessProbe = Some (http_probe tritonHealthEndpoint tritonHTTPPort 30 10 5 3),
      ds_LivenessProbe = Some (http_probe ''/v2/health/live'' tritonHTTPPort 60 30 10 3),
      ds_StartupProbe = Some (http_probe tritonHealthEndpoint tritonHTTPPort 10 10 5 60),
      ds_SecurityContext = None\<rparr>"

definition Triton_GenerateDeployment :: "args_ord \<Rightarrow> InferenceService \<Rightarrow> (string, DeploymentSpec) outcome" where
  "Triton_GenerateDeployment ord service =
    (case Triton_Validate service of
       Ok _ \<Rightarrow> Ok (triton_deployment ord service)
     | Err m \<Rightarrow> Err m | Panic \<Rightarrow> Panic | Blocked \<Rightarrow> Blocked)"

definition Triton_GenerateService :: "InferenceService \<Rightarrow> (string, ServiceSpec) outcome" where
  "Triton_GenerateService service =
     Ok (service_of [tcp_service_port ''http'' 80 tritonHTTPPort, tcp_service_port ''grpc'' 8001 tritonGRPCPort,
       tcp_service_port ''metrics'' 9090 tritonMetricsPort] service)"

definition Triton_HealthCheck :: "http_client \<Rightarrow> timestamp \<Rightarrow> string \<Rightarrow> (string, HealthStatus) outcome" where
  "Triton_HealthCheck = http_health tritonHealthEndpoint"

definition Triton_GetMetrics :: "http_client \<Rightarrow> string \<Rightarrow> (string, BackendMetrics) outcome" where
  "Triton_GetMetrics = http_metrics tritonMetricsEndpoint"

definition Triton_Scale :: "string \<Rightarrow> int \<Rightarrow> (string, unit) outcome" where
  "Triton_Scale endpoint replicas = Ok ()"

definition Triton_Configure :: "string \<Rightarrow> (string, string) gomap \<Rightarrow> (string, unit) outcome" where
  "Triton_Configure endpoint config = Ok ()"

text \<open>\<open>'j\<close> is what the JSON decoder makes of a value of any kind.\<close>

record 'j TritonStats =
  ts_InferCount :: int
  ts_ExecCount :: int
  ts_InferStats :: "(string, 'j) gomap"

record 'j TritonModelStats =
  tms_ModelStats :: "(string \<times> string \<times> 'j TritonStats) list"

definition getModelStats :: "(string option \<Rightarrow> (string, 'j TritonModelStats) outcome) \<Rightarrow> http_client \<Rightarrow> string \<Rightarrow> string
    \<Rightarrow> (string, 'j TritonModelStats) outcome" where
  "getModelStats decode http endpoint modelName =
     http_stats decode http (''http://'' @ endpoint @ ''/v2/models/'' @ modelName @ ''/stats'')"

definition TritonBackend :: Backend where
  "TritonBackend = \<lparr>b_Name = ''triton'', b_Type = BackendTypeTriton, b_Version = ''24.01'',
     b_GenerateDeployment = Triton_GenerateDeployment, b_GenerateService = Triton_GenerateService,
     b_HealthCheck = Triton_HealthCheck, b_GetMetrics = Triton_GetMetrics, b_Scale = Triton_Scale,
     b_Configure = Triton_Configure, b_Validate = Triton_Validate\<rparr>"

section \<open>The contract\<close>

interpretation triton: backend TritonBackend
proof (rule backend_intro)
  show "b_GenerateDeployment TritonBackend ord svc = (case b_Validate TritonBackend svc of Ok _ \<Rightarrow> Ok (triton_deployment ord svc)
      | Err m \<Rightarrow> Err m | Panic \<Rightarrow> Panic | Blocked \<Rightarrow> Blocked)" for ord svc
    by (simp add: TritonBackend_def Triton_GenerateDeployment_def)
  show "b_GenerateService TritonBackend svc = Ok (service_of ([tcp_service_port ''http'' 80 tritonHTTPPort, tcp_service_port ''grpc'' 8001 tritonGRPCPort,
       tcp_service_port ''metrics'' 9090 tritonMetricsPort]) svc)" for svc
    by (simp add: TritonBackend_def Triton_GenerateService_def)
qed (simp_all add: TritonBackend_def Triton_Validate_def triton_deployment_def render_defs Let_def split: option.split)

end
