(* ===== verification/TensorRT.thy ===== *)
theory TensorRT
  imports Backend
begin

text \<open>The TensorRT-LLM backend, \<open>internal/backends/tensorrt.go\<close>.\<close>

section \<open>Rendering\<close>

definition tensorrtDefaultImage :: string where "tensorrtDefaultImage = ''nvcr.io/nvidia/tritonserver:24.01-trtllm-python-py3''"
definition tensorrtHTTPPort :: int where "tensorrtHTTPPort = 8000"
definition tensorrtGRPCPort :: int where "tensorrtGRPCPort = 8001"
definition tensorrtMetricsPort :: int where "tensorrtMetricsPort = 8002"
definition tensorrtHealthEndpoint :: string where "tensorrtHealthEndpoint = ''/v2/health/ready''"
definition tensorrtMetricsEndpoint :: string where "tensorrtMetricsEndpoint = ''/metrics''"

definition TensorRT_Validate :: "InferenceService \<Rightarrow> (string, unit) outcome" where
  "TensorRT_Validate service =
    (let spec = is_Spec service; count = gs_Count (iss_GPU spec) in
     if mo_Name (iss_Model spec) = '''' then Err ''model name is required''
     else if count < 1 then Err ''at least 1 GPU is required for TensorRT-LLM''
     else case iss_BackendConfig spec of
       None \<Rightarrow> Ok ()
     | Some bc \<Rightarrow>
         let tp = bc_TensorParallelism bc in
         if tp > 0 \<and> count < tp
         then Err (''tensor parallelism ('' @ itoa tp @ '') cannot exceed GPU count ('' @ itoa count @ '')'')
         else Ok ())"

definition tensorrt_buildArgs :: "InferenceService \<Rightarrow> string list" where
  "tensorrt_buildArgs service =
     [''-m'', ''tensorrt_llm_triton_backend.server'', ''--model-repository=/engines'', ''--http-port='' @ itoa tensorrtHTTPPort,
      ''--grpc-port='' @ itoa tensorrtGRPCPort, ''--metrics-port='' @ itoa tensorrtMetricsPort]"

definition tensorrt_tensor_parallelism :: "InferenceService \<Rightarrow> int" where
  "tensorrt_tensor_parallelism service =
    (case iss_BackendConfig (is_Spec service) of
       Some c \<Rightarrow> if bc_TensorParallelism c > 0 then bc_TensorParallelism c else 1 | None \<Rightarrow> 1)"

definition pipeline_parallelism :: "InferenceService \<Rightarrow> int" where
  "pipeline_parallelism service =
    (case iss_BackendConfig (is_Spec service) of
       Some c \<Rightarrow> if bc_PipelineParallelism c > 0 then bc_PipelineParallelism c else 1 | None \<Rightarrow> 1)"

definition tensorrt_buildEnv :: "InferenceService \<Rightarrow> EnvVar list" where
  "tensorrt_buildEnv service =
     [\<lparr>ev_Name = ''CUDA_VISIBLE_DEVICES'', ev_Value = ''all'', ev_SecretKeyRef = None\<rparr>,
      \<lparr>ev_Name = ''NCCL_DEBUG'', ev_Value = ''WARN'', ev_SecretKeyRef = None\<rparr>] @ hf_token service @
     [\<lparr>ev_Name = ''TENSOR_PARALLEL_SIZE'', ev_Value = itoa (tensorrt_tensor_parallelism service), ev_SecretKeyRef = None\<rparr>,
      \<lparr>ev_Name = ''PIPELINE_PARALLEL_SIZE'', ev_Value = itoa (pipeline_parallelism service), ev_SecretKeyRef = None\<rparr>]"

definition tensorrt_buildResources :: "InferenceService \<Rightarrow> ResourceRequirements" where
  "tensorrt_buildResources service = build_resources [(ResourceGPU, NewQuantity (gs_Count (iss_GPU (is_Spec service))))]
     [(ResourceCPU, MustParse ''16''), (ResourceMemory, MustParse ''64Gi'')]
     [(ResourceCPU, MustParse ''8''), (ResourceMemory, MustParse ''32Gi'')] service"

definition engine_build_lines :: "InferenceService \<Rightarrow> string list" where
  \<open>engine_build_lines service =
    (let bc = iss_BackendConfig (is_Spec service);
         tp = (case bc of Some c \<Rightarrow> if bc_TensorParallelism c > 0 then bc_TensorParallelism c else 1 | None \<Rightarrow> 1);
         pp = (case bc of Some c \<Rightarrow> if bc_PipelineParallelism c > 0 then bc_PipelineParallelism c else 1 | None \<Rightarrow> 1);
         maxSeqLen = (case bc of Some c \<Rightarrow> if bc_MaxSeqLen c > 0 then bc_MaxSeqLen c else 4096 | None \<Rightarrow> 4096);
         maxBatchSize = (case bc of Some c \<Rightarrow> if bc_MaxBatchSize c > 0 then bc_MaxBatchSize c else 32 | None \<Rightarrow> 32);
         quantization = (case bc of Some c \<Rightarrow> if bc_Quantization c \<noteq> [] then bc_Quantization c else ''float16'' | None \<Rightarrow> ''float16'')
     in
     [''set -e'',
      [],
      ''MODEL_NAME="'' @ mo_Name (iss_Model (is_Spec service)) @ ''"'',
      ''TP_SIZE='' @ itoa tp,
      ''PP_SIZE='' @ itoa pp,
      ''MAX_SEQ_LEN='' @ itoa maxSeqLen,
      ''MAX_BATCH_SIZE='' @ itoa maxBatchSize,
      ''QUANTIZATION="'' @ quantization @ ''"'',
      [],
      ''echo "Building TensorRT-LLM engine for $MODEL_NAME"'',
      ''echo "TP=$TP_SIZE, PP=$PP_SIZE, MaxSeqLen=$MAX_SEQ_LEN, MaxBatch=$MAX_BATCH_SIZE"'',
      [],
      ''# Download model if from HuggingFace'',
      ''if ['' @ ''[ "$MODEL_NAME" == *"/"* ]'' @ '']; then'',
      ''    echo "Downloading model from HuggingFace..."'',
      ''    python3 -c "'',
      ''from huggingface_hub import snapshot_download'',
      ''import os'',
      ''token = os.environ.get('HF_TOKEN', None)'',
      ''snapshot_download(repo_id='$MODEL_NAME', local_dir='/models/hf_model', token=token)'',
      ''"'',
      ''    MODEL_PATH="/models/hf_model"'',
      ''else'',
      ''    MODEL_PATH="$MODEL_NAME"'',
      ''fi'',
      [],
      ''# Convert to TensorRT-LLM format'',
      ''echo "Converting model to TensorRT-LLM format..."'',
      ''python3 /opt/tensorrtllm_backend/scripts/convert_checkpoint.py '' @ [CHR 0x5C],
      ''    --model_dir "$MODEL_PATH" '' @ [CHR 0x5C],
      ''    --output_dir /models/trt_ckpt '' @ [CHR 0x5C],
      ''    --dtype $QUANTIZATION '' @ [CHR 0x5C],
      ''    --tp_size $TP_SIZE '' @ [CHR 0x5C],
      ''    --pp_size $PP_SIZE'',
      [],
      ''# Build TensorRT engine'',
      ''echo "Building TensorRT engine..."'',
      ''trtllm-build '' @ [CHR 0x5C],
      ''    --checkpoint_dir /models/trt_ckpt '' @ [CHR 0x5C],
      ''    --output_dir /engines/model '' @ [CHR 0x5C],
      ''    --max_batch_size $MAX_BATCH_SIZE '' @ [CHR 0x5C],
      ''    --max_input_len $MAX_SEQ_LEN '' @ [CHR 0x5C],
      ''    --max_output_len $MAX_SEQ_LEN '' @ [CHR 0x5C],
      ''    --gemm_plugin auto '' @ [CHR 0x5C],
      ''    --gpt_attention_plugin auto'',
      [],
      ''echo "Engine build complete!"''])\<close>

definition engine_build_script :: "InferenceService \<Rightarrow> string" where
  "engine_build_script service = script_of (engine_build_lines service)"

definition tensorrt_mounts :: "VolumeMount list" where
  "tensorrt_mounts = [\<lparr>vm_Name = ''model-cache'', vm_MountPath = ''/models''\<rparr>,
     \<lparr>vm_Name = ''engine-cache'', vm_MountPath = ''/engines''\<rparr>, \<lparr>vm_Name = ''shm'', vm_MountPath = ''/dev/shm''\<rparr>]"

definition buildEngineBuilderContainer :: "InferenceService \<Rightarrow> EnvVar list \<Rightarrow> Container" where
  "buildEngineBuilderContainer service env =
    (let gpus = MustParse (itoa (gs_Count (iss_GPU (is_Spec service)))) in
     \<lparr>ct_Name = ''engine-builder'', ct_Image = tensorrtDefaultImage, ct_Command = [''bash'', ''-c''],
      ct_Args = [engine_build_script service], ct_Env = env, ct_Ports = [],
      ct_Resources = \<lparr>rr_Limits = [(ResourceGPU, gpus), (ResourceCPU, MustParse ''16''), (ResourceMemory, MustParse ''128Gi'')],
        rr_Requests = [(ResourceGPU, gpus), (ResourceCPU, MustParse ''8''), (ResourceMemory, MustParse ''64Gi'')]\<rparr>,
      ct_VolumeMounts = tensorrt_mounts, ct_ReadinessProbe = None, ct_LivenessProbe = None, ct_StartupProbe = None\<rparr>)"

definition tensorrt_deployment :: "args_ord \<Rightarrow> InferenceService \<Rightarrow> DeploymentSpec" where
  "tensorrt_deployment ord service =
     \<lparr>ds_Name = is_Name service, ds_Namespace = is_Namespace service, ds_Image = tensorrtDefaultImage,
      ds_Command = [''python3''], ds_Args = tensorrt_buildArgs service, ds_Env = tensorrt_buildEnv service,
      ds_Ports = [tcp_port ''http'' tensorrtHTTPPort, tcp_port ''grpc'' tensorrtGRPCPort, tcp_port ''metrics'' tensorrtMetricsPort],
      ds_Resources = tensorrt_buildResources service,
      ds_VolumeMounts = tensorrt_mounts,
      ds_Volumes = [\<lparr>vo_Name = ''model-cache'', vo_Medium = '''', vo_SizeLimit = None\<rparr>,
        \<lparr>vo_Name = ''engine-cache'', vo_Medium = '''', vo_SizeLimit = None\<rparr>,
        \<lparr>vo_Name = ''shm'', vo_Medium = StorageMediumMemory, vo_SizeLimit = Some (NewQuantity (16 * 1024 * 1024 * 1024))\<rparr>],
      ds_NodeSelector = iss_NodeSelector (is_Spec service), ds_Tolerations = iss_Tolerations (is_Spec service),
      ds_Replicas = iss_Replicas (is_Spec service), ds_Labels = model_labels ''tensorrt-llm'' service,
      ds_Annotations = gm_set (''container.apparmor.security.beta.kubernetes.io/'' @ is_Name service) ''unconfined''
        [(''inference.ai/model'', mo_Name (iss_Model (is_Spec service)))],
      ds_ServiceAccountName = iss_ServiceAccountName (is_Spec service),
      ds_InitContainers = [buildEngineBuilderContainer service (tensorrt_buildEnv service)],
      ds_ReadinessProbe = Some (http_probe tensorrtHealthEndpoint tensorrtHTTPPort 60 10 5 3),
      ds_LivenessProbe = Some (http_probe ''/v2/health/live'' tensorrtHTTPPort 120 30 10 3),
      ds_StartupProbe = Some (http_probe tensorrtHealthEndpoint tensorrtHTTPPort 30 15 5 80),
      ds_SecurityContext = Some \<lparr>psc_RunAsUser = Some 0, psc_RunAsGroup = Some 0\<rparr>\<rparr>"

definition TensorRT_GenerateDeployment :: "args_ord \<Rightarrow> InferenceService \<Rightarrow> (string, DeploymentSpec) outcome" where
  "TensorRT_GenerateDeployment ord service =
    (case TensorRT_Validate service of
       Ok _ \<Rightarrow> Ok (tensorrt_deployment ord service)
     | Err m \<Rightarrow> Err m | Panic \<Rightarrow> Panic | Blocked \<Rightarrow> Blocked)"

definition TensorRT_GenerateService :: "InferenceService \<Rightarrow> (string, ServiceSpec) outcome" where
  "TensorRT_GenerateService service =
     Ok (service_of [tcp_service_port ''http'' 80 tensorrtHTTPPort, tcp_service_port ''grpc'' 8001 tensorrtGRPCPort,
       tcp_service_port ''metrics'' 9090 tensorrtMetricsPort] service)"

definition TensorRT_HealthCheck :: "http_client \<Rightarrow> timestamp \<Rightarrow> string \<Rightarrow> (string, HealthStatus) outcome" where
  "TensorRT_HealthCheck = http_health tensorrtHealthEndpoint"

definition TensorRT_GetMetrics :: "http_client \<Rightarrow> string \<Rightarrow> (string, BackendMetrics) outcome" where
  "TensorRT_GetMetrics = http_metrics tensorrtMetricsEndpoint"

definition TensorRT_Scale :: "string \<Rightarrow> int \<Rightarrow> (string, unit) outcome" where
  "TensorRT_Scale endpoint replicas = Ok ()"

definition TensorRT_Configure :: "string \<Rightarrow> (string, string) gomap \<Rightarrow> (string, unit) outcome" where
  "TensorRT_Configure endpoint config = Ok ()"

definition TensorRTBackend :: Backend where
  "TensorRTBackend = \<lparr>b_Name = ''tensorrt-llm'', b_Type = BackendTypeTensorRT, b_Version = ''0.8.0'',
     b_GenerateDeployment = TensorRT_GenerateDeployment, b_GenerateService = TensorRT_GenerateService,
     b_HealthCheck = TensorRT_HealthCheck, b_GetMetrics = TensorRT_GetMetrics, b_Scale = TensorRT_Scale,
     b_Configure = TensorRT_Configure, b_Validate = TensorRT_Validate\<rparr>"

section \<open>The contract\<close>

interpretation tensorrt: backend TensorRTBackend
proof (rule backend_intro)
  show "b_GenerateDeployment TensorRTBackend ord svc = (case b_Validate TensorRTBackend svc of Ok _ \<Rightarrow> Ok (tensorrt_deployment ord svc)
      | Err m \<Rightarrow> Err m | Panic \<Rightarrow> Panic | Blocked \<Rightarrow> Blocked)" for ord svc
    by (simp add: TensorRTBackend_def TensorRT_GenerateDeployment_def)
  show "b_GenerateService TensorRTBackend svc = Ok (service_of ([tcp_service_port ''http'' 80 tensorrtHTTPPort, tcp_service_port ''grpc'' 8001 tensorrtGRPCPort,
       tcp_service_port ''metrics'' 9090 tensorrtMetricsPort]) svc)" for svc
    by (simp add: TensorRTBackend_def TensorRT_GenerateService_def)
qed (simp_all add: TensorRTBackend_def TensorRT_Validate_def tensorrt_deployment_def render_defs Let_def tensorrt_mounts_def buildEngineBuilderContainer_def split: option.split)

text \<open>An accepted service is told a tensor parallelism between 1 and its number of GPUs.\<close>

lemma TensorRT_tensor_parallelism:
  assumes "TensorRT_Validate service = Ok ()"
  shows "1 \<le> tensorrt_tensor_parallelism service \<and> tensorrt_tensor_parallelism service \<le> gs_Count (iss_GPU (is_Spec service))"
  using assms by (auto simp: TensorRT_Validate_def tensorrt_tensor_parallelism_def Let_def split: option.splits if_splits)

text \<open>The engine is built for the parallelism that the server is then told.\<close>

lemma engine_build_script_tp:
  "\<exists>pre post. engine_build_script service = script_of (pre @ (''TP_SIZE='' @ itoa (tensorrt_tensor_parallelism service)) # post)"
proof -
  have "3 < length (engine_build_lines service)"
    "engine_build_lines service ! 3 = ''TP_SIZE='' @ itoa (tensorrt_tensor_parallelism service)"
    by (simp_all only: engine_build_lines_def Let_def tensorrt_tensor_parallelism_def) simp_all
  from id_take_nth_drop [OF this(1)] this(2) show ?thesis unfolding engine_build_script_def by metis
qed

end
