(* ===== verification/Backends.thy ===== *)
theory Backends
  imports Vllm Triton TensorRT
begin

text \<open>
  The factory as \<open>cmd/operator/main.go\<close> fills it, and what holds of every backend in it, from the
  contract \<open>backend\<close> that the three interpret.
\<close>

definition operator_factory :: BackendFactory where
  "operator_factory = Factory_Register TensorRTBackend (Factory_Register TritonBackend (Factory_Register VLLMBackend NewBackendFactory))"

lemma operator_factory_get:
  "Factory_Get operator_factory t =
    (if t = BackendTypeVLLM then Some VLLMBackend else if t = BackendTypeTriton then Some TritonBackend
     else if t = BackendTypeTensorRT then Some TensorRTBackend else None)"
  by (simp add: operator_factory_def Factory_Get_def Factory_Register_def NewBackendFactory_def gm_get_set
      VLLMBackend_def TritonBackend_def TensorRTBackend_def backend_type_defs)

text \<open>
  The package's own factory. The \<open>init\<close> functions run in the order of the file names:
  \<open>interface.go\<close> creates it, then \<open>tensorrt.go\<close>, \<open>triton.go\<close> and \<open>vllm.go\<close> register their backends.
\<close>

definition DefaultFactory :: BackendFactory where
  "DefaultFactory = Factory_Register VLLMBackend (Factory_Register TritonBackend (Factory_Register TensorRTBackend NewBackendFactory))"

text \<open>It has the backends of the factory that \<open>main\<close> fills, although they were registered in another order.\<close>

lemma default_factory_get: "Factory_Get DefaultFactory t = Factory_Get operator_factory t"
  unfolding operator_factory_get
  by (simp add: DefaultFactory_def Factory_Get_def Factory_Register_def NewBackendFactory_def gm_get_set
      VLLMBackend_def TritonBackend_def TensorRTBackend_def backend_type_defs)

lemma operator_backend: "Factory_Get operator_factory t = Some b \<Longrightarrow> backend b"
  using vllm.backend_axioms triton.backend_axioms tensorrt.backend_axioms
  by (auto simp: operator_factory_get split: if_splits)

text \<open>A registered backend is filed under its own type.\<close>

lemma operator_backend_type: "Factory_Get operator_factory t = Some b \<Longrightarrow> b_Type b = t"
  by (auto simp: operator_factory_get VLLMBackend_def TritonBackend_def TensorRTBackend_def split: if_splits)

section \<open>GPUs and parallelism\<close>

text \<open>A service may set the limit of GPUs itself, among its resources; then that is the limit.\<close>

definition sets_gpu_limit :: "InferenceService \<Rightarrow> bool" where
  "sets_gpu_limit svc = (case iss_Resources (is_Spec svc) of Some r \<Rightarrow> gm_has (rr_Limits r) ResourceGPU | None \<Rightarrow> False)"

lemma gm_get_puts_other: "\<not> gm_has src k \<Longrightarrow> gm_get (gm_puts src dst) k = gm_get dst k"
proof (induction src arbitrary: dst)
  case (Cons kv src)
  then show ?case by (cases kv) (auto simp: gm_puts_def gm_has_def gm_get_set split: if_splits)
qed (simp add: gm_puts_def)

lemma build_resources_gpu:
  assumes "gpus = [(ResourceGPU, q)]" and "\<not> sets_gpu_limit svc" and "ResourceGPU \<notin> fst ` set limits"
  shows "gm_get (rr_Limits (build_resources gpus limits requests svc)) ResourceGPU = Some q"
proof -
  have "\<not> gm_has limits ResourceGPU" using assms(3) by (simp add: gm_has_def gm_get_none)
  then show ?thesis using assms(1,2) by (auto simp: build_resources_def sets_gpu_limit_def gm_get_puts_other split: option.split)
qed

lemma vllm_gpu_limit:
  "\<not> sets_gpu_limit svc \<Longrightarrow>
    gm_get (rr_Limits (vllm_buildResources svc)) ResourceGPU = Some (NewQuantity (gs_Count (iss_GPU (is_Spec svc))))"
  unfolding vllm_buildResources_def by (rule build_resources_gpu) (simp_all add: ResourceGPU_def ResourceCPU_def ResourceMemory_def)

lemma tensorrt_gpu_limit:
  "\<not> sets_gpu_limit svc \<Longrightarrow>
    gm_get (rr_Limits (tensorrt_buildResources svc)) ResourceGPU = Some (NewQuantity (gs_Count (iss_GPU (is_Spec svc))))"
  unfolding tensorrt_buildResources_def by (rule build_resources_gpu) (simp_all add: ResourceGPU_def ResourceCPU_def ResourceMemory_def)

section \<open>Extra arguments\<close>

lemma concat_pairs_inj: "concat (map (\<lambda>(k, v). [f k, v]) xs) = concat (map (\<lambda>(k, v). [f k, v]) ys) \<Longrightarrow> inj f \<Longrightarrow> xs = ys"
proof (induction xs arbitrary: ys)
  case Nil
  then show ?case by (cases ys) auto
next
  case (Cons x xs)
  obtain k v where x: "x = (k, v)" by fastforce
  note prems = Cons.prems and IH = Cons.IH
  show ?case
  proof (cases ys)
    case (Cons y ys')
    moreover obtain k' v' where "y = (k', v')" by fastforce
    ultimately show ?thesis using prems x IH [of ys'] by (auto simp: inj_eq)
  qed (use prems x in auto)
qed

lemma distinct_not_rev:
  assumes "distinct xs" and "2 \<le> length xs"
  shows "rev xs \<noteq> xs"
proof
  assume r: "rev xs = xs"
  have "rev xs ! 0 = xs ! (length xs - Suc 0)" using assms(2) by (intro rev_nth) linarith
  then have "xs ! 0 = xs ! (length xs - Suc 0)" using r by simp
  moreover have "0 < length xs" "length xs - Suc 0 < length xs" "0 \<noteq> length xs - Suc 0" using assms(2) by linarith+
  ultimately show False using nth_eq_iff_index_eq [OF assms(1)] by blast
qed

text \<open>The rendered arguments depend on the order of a \<open>range\<close> loop as soon as there are two extra ones.\<close>

lemma vllm_args_order:
  assumes "iss_BackendConfig (is_Spec svc) = Some bc" and "gm_ok (bc_ExtraArgs bc)" and "2 \<le> length (bc_ExtraArgs bc)"
  shows "vllm_buildArgs rev svc \<noteq> vllm_buildArgs (\<lambda>x. x) svc"
proof
  assume eq: "vllm_buildArgs rev svc = vllm_buildArgs (\<lambda>x. x) svc"
  have "concat (map (\<lambda>(k, v). [''--'' @ k, v]) (rev (bc_ExtraArgs bc))) = concat (map (\<lambda>(k, v). [''--'' @ k, v]) (bc_ExtraArgs bc))"
    using eq by (simp add: vllm_buildArgs_def Let_def assms(1))
  then have "rev (bc_ExtraArgs bc) = bc_ExtraArgs bc" by (rule concat_pairs_inj) (simp add: inj_def)
  moreover have "distinct (bc_ExtraArgs bc)" using assms(2) by (simp add: distinct_map)
  ultimately show False using distinct_not_rev [OF _ assms(3)] by blast
qed

section \<open>Properties\<close>

definition is_demo :: "BackendType \<Rightarrow> GPUSharingMode \<Rightarrow> BackendConfig option \<Rightarrow> InferenceService" where
  "is_demo kind mode bc = \<lparr>is_Meta = \<lparr>om_Name = ''s'', om_Namespace = ''ns'', om_Generation = 1, om_DeletionTimestamp = None,
       om_Finalizers = [''inference.ai/finalizer'']\<rparr>,
     is_Spec = \<lparr>iss_Model = \<lparr>mo_Name = ''llama'', mo_Source = ModelSourceHuggingFace, mo_Revision = '''', mo_SecretRef = Some ''hf'',
         mo_StoragePath = ''''\<rparr>,
       iss_Backend = kind, iss_BackendConfig = bc, iss_Replicas = 1,
       iss_GPU = \<lparr>gs_Type = '''', gs_Count = 2, gs_Sharing = mode, gs_MIGProfile = ''1g.5gb'', gs_Memory = None, gs_GPUPoolRef = Some ''p''\<rparr>,
       iss_Cache = None, iss_Autoscaling = None, iss_Resources = None, iss_NodeSelector = None, iss_Tolerations = None,
       iss_ServiceAccountName = '''', iss_ImagePullSecrets = []\<rparr>,
     is_Status = \<lparr>ist_Phase = InferenceServicePhaseUnset, ist_ReadyReplicas = 0, ist_AvailableReplicas = 0, ist_URL = '''',
       ist_GPUAllocations = [], ist_CacheStatus = None, ist_Conditions = [], ist_LastScaleTime = None, ist_ObservedGeneration = 0\<rparr>\<rparr>"

definition bc_demo :: BackendConfig where
  "bc_demo = \<lparr>bc_MaxBatchSize = 0, bc_MaxSeqLen = 0, bc_TensorParallelism = 2, bc_PipelineParallelism = 8, bc_Quantization = '''',
     bc_ExtraArgs = [(''seed'', ''1''), (''swap-space'', ''4'')]\<rparr>"

text \<open>
  C22. Whatever backend of the operator a service names: if the backend accepts the service it
  renders a deployment and a service for it that fit each other. The service selects the pods and
  forwards only to ports they open, the probes go to open ports, every mount has its volume, and
  the replicas are those asked for. If it does not accept the service it renders no deployment.
\<close>

theorem backends_render:
  assumes "Factory_Get operator_factory t = Some b"
  shows "if b_Validate b svc = Ok ()
    then \<exists>d s. b_GenerateDeployment b ord svc = Ok d \<and> b_GenerateService b svc = Ok s \<and> pods_ready_to_serve d s \<and>
      probes_ok d \<and> mounts_ok (ds_Volumes d) (ds_VolumeMounts d) \<and> ds_Replicas d = iss_Replicas (is_Spec svc)
    else \<not> is_ok (b_GenerateDeployment b ord svc)"
  using backend.accepted_is_served [OF operator_backend [OF assms]] backend.generated_iff_valid [OF operator_backend [OF assms]] by simp

theorem backends_render_witness:
  "\<exists>d s. TensorRT_GenerateDeployment (\<lambda>x. x) (is_demo ''tensorrt'' ''mig'' (Some bc_demo)) = Ok d \<and>
     TensorRT_GenerateService (is_demo ''tensorrt'' ''mig'' (Some bc_demo)) = Ok s \<and> pods_ready_to_serve d s"
proof -
  have g: "Factory_Get operator_factory BackendTypeTensorRT = Some TensorRTBackend" by (simp add: operator_factory_get backend_type_defs)
  have v: "b_Validate TensorRTBackend (is_demo ''tensorrt'' ''mig'' (Some bc_demo)) = Ok ()" by code_simp
  from backends_render [OF g, of "is_demo ''tensorrt'' ''mig'' (Some bc_demo)" "\<lambda>x. x"] show ?thesis
    unfolding if_P [OF v] by (auto simp: TensorRTBackend_def)
qed



text \<open>
  A comment of \<open>TensorRTBackend.Validate\<close> says that the tensor parallelism has to match the number of GPUs.
  The check only turns down more: a service with two GPUs and no configured parallelism is accepted, and
  its engine is built for one.
\<close>

lemma tensorrt_parallelism_below:
  "TensorRT_Validate (is_demo ''tensorrt-llm'' ''mig'' None) = Ok () \<and> gs_Count (iss_GPU (is_Spec (is_demo ''tensorrt-llm'' ''mig'' None))) = 2 \<and>
   tensorrt_tensor_parallelism (is_demo ''tensorrt-llm'' ''mig'' None) = 1"
  by code_simp

text \<open>What the validation leaves unchecked: a pipeline parallelism that needs more GPUs than the service has.\<close>

lemma pipeline_parallelism_unchecked:
  "VLLM_Validate (is_demo ''vllm'' ''mig'' (Some bc_demo)) = Ok () \<and> TensorRT_Validate (is_demo ''vllm'' ''mig'' (Some bc_demo)) = Ok () \<and>
   tensorrt_tensor_parallelism (is_demo ''vllm'' ''mig'' (Some bc_demo)) * pipeline_parallelism (is_demo ''vllm'' ''mig'' (Some bc_demo)) = 16 \<and>
   gs_Count (iss_GPU (is_Spec (is_demo ''vllm'' ''mig'' (Some bc_demo)))) = 2"
  by code_simp

end
