(* ===== verification/InferenceServiceController.thy ===== *)
theory InferenceServiceController
  imports GPUPoolController CacheManager Backends
begin

text \<open>
  The InferenceService reconciler, \<open>internal/controller/inferenceservice_controller.go\<close>, on top of the
  GPU manager, the cache manager and the backend factory. One reconciliation reads its environment
  \<open>is_env\<close> (what the API answers, the clock, the order of \<open>range\<close> loops, the comparison of
  objects), and yields the result, the calls it made and the new GPU manager. The cache manager is
  only read.
\<close>

section \<open>Kubernetes objects\<close>

record DeploymentObjectSpec =
  do_Replicas :: int
  do_MatchLabels :: "(string, string) gomap"
  do_TemplateLabels :: "(string, string) gomap"
  do_TemplateAnnotations :: "(string, string) gomap"
  do_ServiceAccountName :: string
  do_NodeSelector :: "(string, string) gomap option"
  do_Tolerations :: "Toleration list option"
  do_SecurityContext :: "PodSecurityContext option"
  do_InitContainers :: "Container list"
  do_Containers :: "Container list"
  do_Volumes :: "Volume list"
  do_ImagePullSecrets :: "string list"

record DeploymentObject =
  dp_Name :: string
  dp_Namespace :: string
  dp_Labels :: "(string, string) gomap"
  dp_Annotations :: "(string, string) gomap"
  dp_Spec :: DeploymentObjectSpec
  dp_ReadyReplicas :: int
  dp_AvailableReplicas :: int
  dp_UnavailableReplicas :: int

record ServiceObjectSpec =
  so_Type :: string
  so_Ports :: "ServicePort list"
  so_Selector :: "(string, string) gomap"
  so_ClusterIP :: string

record ServiceObject =
  sv_Name :: string
  sv_Namespace :: string
  sv_Labels :: "(string, string) gomap"
  sv_Annotations :: "(string, string) gomap"
  sv_Spec :: ServiceObjectSpec

datatype is_object = ISDeployment DeploymentObject | ISService ServiceObject

type_synonym is_calls = "(InferenceService, is_object) kube_call list"

text \<open>
  \<open>ie_stored\<close> is the object as the API server returns it from a create or an update, \<open>ie_same_deployment\<close>
  and \<open>ie_same_service\<close> are \<open>equality.Semantic.DeepEqual\<close> on the two kinds of specification.
\<close>

record is_env =
  ie_get :: "InferenceService api_get"
  ie_update :: "string option"
  ie_status :: "string option"
  ie_now :: timestamp
  ie_gpu :: gpu_env
  ie_args :: args_ord
  ie_dep_owner :: "string option"
  ie_dep_get :: "DeploymentObject api_get"
  ie_dep_create :: "string option"
  ie_dep_update :: "string option"
  ie_stored :: "DeploymentObject \<Rightarrow> DeploymentObject"
  ie_same_deployment :: "DeploymentObjectSpec \<Rightarrow> DeploymentObjectSpec \<Rightarrow> bool"
  ie_svc_owner :: "string option"
  ie_svc_get :: "ServiceObject api_get"
  ie_svc_create :: "string option"
  ie_svc_update :: "string option"
  ie_same_service :: "ServiceObjectSpec \<Rightarrow> ServiceObjectSpec \<Rightarrow> bool"

section \<open>Reconciliation\<close>

definition inferenceServiceFinalizer :: string where
  "inferenceServiceFinalizer = ''inference.ai/finalizer''"

definition requeueAfter :: duration where
  "requeueAfter = 30 * second"

definition Inference_validateSpec :: "InferenceService \<Rightarrow> (string, unit) outcome" where
  "Inference_validateSpec svc =
    (if mo_Name (iss_Model (is_Spec svc)) = '''' then Err ''model name is required''
     else if iss_Replicas (is_Spec svc) < 0 then Err ''replicas cannot be negative''
     else if gs_Count (iss_GPU (is_Spec svc)) < 1 then Err ''at least 1 GPU is required''
     else Ok ())"

definition allocation_request :: "InferenceService \<Rightarrow> AllocationRequest" where
  "allocation_request svc =
    (let g = iss_GPU (is_Spec svc) in
     \<lparr>ar_ServiceName = is_Name svc, ar_Namespace = is_Namespace svc, ar_GPUType = gs_Type g, ar_GPUCount = gs_Count g,
      ar_Memory = (case gs_Memory g of Some q \<Rightarrow> q | None \<Rightarrow> 0), ar_SharingMode = gs_Sharing g, ar_MIGProfile = gs_MIGProfile g,
      ar_PoolName = (case gs_GPUPoolRef g of Some n \<Rightarrow> n | None \<Rightarrow> '''')\<rparr>)"

definition gpu_allocation :: "GPUAllocationInfo \<Rightarrow> GPUAllocation" where
  "gpu_allocation alloc = \<lparr>ga_NodeName = ai_NodeName alloc, ga_DeviceID = ai_DeviceID alloc,
     ga_MIGInstance = ai_MIGInstance alloc, ga_MemoryAllocated = ai_Memory alloc, ga_Utilization = 0\<rparr>"

text \<open>The service with its status updated, or the error; the calls; the manager.\<close>

definition reconcileGPUAllocation :: "is_env \<Rightarrow> InferenceService \<Rightarrow> Manager \<Rightarrow> (string, InferenceService) outcome \<times> is_calls \<times> Manager" where
  "reconcileGPUAllocation e svc m =
    (let req = allocation_request svc in
     case Manager_Allocate (ie_gpu e) m req of
       (Ok result, m') \<Rightarrow>
         if res_Success result
         then (Ok (svc\<lparr>is_Status := (is_Status svc)\<lparr>ist_GPUAllocations := map gpu_allocation (res_Allocations result)\<rparr>\<rparr>),
               [CallEvent event_normal ''GPUAllocated'' (''Allocated '' @ itoa (int (length (res_Allocations result))) @ '' GPUs'')], m')
         else (Ok svc, [], m')
     | (Err err, m') \<Rightarrow>
         (let msg = gpu_error_text (ar_SharingMode req) err in (Err msg, [CallEvent event_warning ''GPUAllocationFailed'' msg], m'))
     | (Panic, m') \<Rightarrow> (Panic, [], m')
     | (Blocked, m') \<Rightarrow> (Blocked, [], m'))"

definition reconcileCacheConfiguration :: "InferenceService \<Rightarrow> 's CacheManager \<Rightarrow> (cache_error, unit) outcome" where
  "reconcileCacheConfiguration svc cm =
    (case iss_Cache (is_Spec svc) of
       None \<Rightarrow> Ok ()
     | Some c \<Rightarrow>
         if \<not> cas_Enabled c then Ok ()
         else case GetCacheForService cm (case cas_TokenCacheRef c of Some n \<Rightarrow> n | None \<Rightarrow> '''') of
           Ok _ \<Rightarrow> Ok () | Err err \<Rightarrow> Err err | Panic \<Rightarrow> Panic | Blocked \<Rightarrow> Blocked)"

definition deployment_object :: "InferenceService \<Rightarrow> DeploymentSpec \<Rightarrow> DeploymentObject" where
  "deployment_object svc d =
     \<lparr>dp_Name = ds_Name d, dp_Namespace = ds_Namespace d, dp_Labels = ds_Labels d, dp_Annotations = ds_Annotations d,
      dp_Spec = \<lparr>do_Replicas = ds_Replicas d, do_MatchLabels = [(''app.kubernetes.io/name'', is_Name svc)],
        do_TemplateLabels = ds_Labels d, do_TemplateAnnotations = ds_Annotations d,
        do_ServiceAccountName = ds_ServiceAccountName d, do_NodeSelector = ds_NodeSelector d, do_Tolerations = ds_Tolerations d,
        do_SecurityContext = ds_SecurityContext d, do_InitContainers = ds_InitContainers d,
        do_Containers = [\<lparr>ct_Name = is_Name svc, ct_Image = ds_Image d, ct_Command = ds_Command d, ct_Args = ds_Args d,
          ct_Env = ds_Env d, ct_Ports = ds_Ports d, ct_Resources = ds_Resources d, ct_VolumeMounts = ds_VolumeMounts d,
          ct_ReadinessProbe = ds_ReadinessProbe d, ct_LivenessProbe = ds_LivenessProbe d, ct_StartupProbe = ds_StartupProbe d\<rparr>],
        do_Volumes = ds_Volumes d,
        do_ImagePullSecrets = iss_ImagePullSecrets (is_Spec svc)\<rparr>,
      dp_ReadyReplicas = 0, dp_AvailableReplicas = 0, dp_UnavailableReplicas = 0\<rparr>"

definition reconcileDeployment :: "is_env \<Rightarrow> InferenceService \<Rightarrow> Backend \<Rightarrow> (string, DeploymentObject) outcome \<times> is_calls" where
  "reconcileDeployment e svc b =
    (case b_GenerateDeployment b (ie_args e) svc of
       Err err \<Rightarrow> (Err (''failed to generate deployment spec: '' @ err), [])
     | Panic \<Rightarrow> (Panic, [])
     | Blocked \<Rightarrow> (Blocked, [])
     | Ok d \<Rightarrow>
         let deployment = deployment_object svc d in
         (case ie_dep_owner e of
            Some err \<Rightarrow> (Err err, [])
          | None \<Rightarrow>
              (case ie_dep_get e of
                 NotFound \<Rightarrow>
                   (case ie_dep_create e of
                      Some err \<Rightarrow> (Err err, [CallCreate (ISDeployment deployment)])
                    | None \<Rightarrow> (Ok (ie_stored e deployment), [CallCreate (ISDeployment deployment),
                        CallEvent event_normal ''DeploymentCreated'' (''Created deployment '' @ dp_Name deployment)]))
               | GetError err \<Rightarrow> (Err err, [])
               | Found found \<Rightarrow>
                   if ie_same_deployment e (dp_Spec found) (dp_Spec deployment) then (Ok found, [])
                   else let found' = found\<lparr>dp_Spec := dp_Spec deployment\<rparr> in
                     (case ie_dep_update e of
                        Some err \<Rightarrow> (Err err, [CallUpdateOwned (ISDeployment found')])
                      | None \<Rightarrow> (Ok (ie_stored e found'), [CallUpdateOwned (ISDeployment found'),
                          CallEvent event_normal ''DeploymentUpdated'' (''Updated deployment '' @ dp_Name deployment)])))))"

definition service_object :: "ServiceSpec \<Rightarrow> ServiceObject" where
  "service_object s = \<lparr>sv_Name = ss_Name s, sv_Namespace = ss_Namespace s, sv_Labels = ss_Labels s, sv_Annotations = ss_Annotations s,
     sv_Spec = \<lparr>so_Type = ss_Type s, so_Ports = ss_Ports s, so_Selector = ss_Selector s, so_ClusterIP = ''''\<rparr>\<rparr>"

definition reconcileService :: "is_env \<Rightarrow> InferenceService \<Rightarrow> Backend \<Rightarrow> (string, unit) outcome \<times> is_calls" where
  "reconcileService e svc b =
    (case b_GenerateService b svc of
       Err err \<Rightarrow> (Err (''failed to generate service spec: '' @ err), [])
     | Panic \<Rightarrow> (Panic, [])
     | Blocked \<Rightarrow> (Blocked, [])
     | Ok s \<Rightarrow>
         let service = service_object s in
         (case ie_svc_owner e of
            Some err \<Rightarrow> (Err err, [])
          | None \<Rightarrow>
              (case ie_svc_get e of
                 NotFound \<Rightarrow>
                   (case ie_svc_create e of
                      Some err \<Rightarrow> (Err err, [CallCreate (ISService service)])
                    | None \<Rightarrow> (Ok (), [CallCreate (ISService service),
                        CallEvent event_normal ''ServiceCreated'' (''Created service '' @ sv_Name service)]))
               | GetError err \<Rightarrow> (Err err, [])
               | Found found \<Rightarrow>
                   let spec = (sv_Spec service)\<lparr>so_ClusterIP := so_ClusterIP (sv_Spec found)\<rparr> in
                   if ie_same_service e (sv_Spec found) spec then (Ok (), [])
                   else let found' = found\<lparr>sv_Spec := spec\<rparr> in
                     (case ie_svc_update e of
                        Some err \<Rightarrow> (Err err, [CallUpdateOwned (ISService found')])
                      | None \<Rightarrow> (Ok (), [CallUpdateOwned (ISService found')])))))"

section \<open>Status\<close>

definition inference_phase :: "DeploymentObject option \<Rightarrow> InferenceServicePhase" where
  "inference_phase deployment =
    (case deployment of
       None \<Rightarrow> InferenceServicePhasePending
     | Some d \<Rightarrow>
         if dp_AvailableReplicas d > 0
         then (if dp_AvailableReplicas d = do_Replicas (dp_Spec d) then InferenceServicePhaseRunning else InferenceServicePhaseScaling)
         else if dp_UnavailableReplicas d > 0 then InferenceServicePhaseInitializing
         else InferenceServicePhasePending)"

definition Inference_updateConditions :: "timestamp \<Rightarrow> DeploymentObject option \<Rightarrow> InferenceServiceStatus \<Rightarrow> InferenceServiceStatus" where
  "Inference_updateConditions now deployment st =
    (let cond = (\<lambda>t s r msg. \<lparr>c_Type = t, c_Status = s, c_LastTransitionTime = now, c_Reason = r, c_Message = msg\<rparr>);
         ready = (if case deployment of Some d \<Rightarrow> dp_AvailableReplicas d = do_Replicas (dp_Spec d) | None \<Rightarrow> False
                  then cond ''Ready'' True ''AllReplicasReady'' ''All replicas are ready''
                  else cond ''Ready'' False ''ReplicasNotReady'' ''Not all replicas are ready'');
         model = (if ist_Phase st = InferenceServicePhaseRunning
                  then cond ''ModelLoaded'' True ''ModelReady'' ''Model is loaded and ready''
                  else cond ''ModelLoaded'' False ''ModelLoading'' ''Model is being loaded'')
     in st\<lparr>ist_Conditions := setCondition (setCondition (ist_Conditions st) ready) model\<rparr>)"

definition service_url :: "InferenceService \<Rightarrow> string" where
  "service_url svc = ''http://'' @ is_Name svc @ ''.'' @ is_Namespace svc @ ''.svc.cluster.local''"

definition inference_status :: "is_env \<Rightarrow> InferenceService \<Rightarrow> DeploymentObject option \<Rightarrow> InferenceServiceStatus" where
  "inference_status e svc deployment =
    (let st = (is_Status svc)\<lparr>ist_Phase := inference_phase deployment, ist_ObservedGeneration := om_Generation (is_Meta svc)\<rparr>;
         st1 = (case deployment of
                  Some d \<Rightarrow> st\<lparr>ist_ReadyReplicas := dp_ReadyReplicas d, ist_AvailableReplicas := dp_AvailableReplicas d\<rparr>
                | None \<Rightarrow> st)
     in Inference_updateConditions (ie_now e) deployment (st1\<lparr>ist_URL := service_url svc\<rparr>))"

definition Inference_updateStatus :: "is_env \<Rightarrow> InferenceService \<Rightarrow> DeploymentObject option \<Rightarrow> (string, Result) outcome \<times> is_calls" where
  "Inference_updateStatus e svc deployment =
     (or_error (ie_status e) (requeue_after requeueAfter),
      [CallStatusUpdate (svc\<lparr>is_Status := inference_status e svc deployment\<rparr>)])"

definition Inference_updateStatusWithError :: "is_env \<Rightarrow> InferenceService \<Rightarrow> string \<Rightarrow> (string, Result) outcome \<times> is_calls" where
  "Inference_updateStatusWithError e svc err =
    (let st = is_Status svc;
         svc' = svc\<lparr>is_Status := st\<lparr>ist_Phase := InferenceServicePhaseFailed,
           ist_Conditions := setCondition (ist_Conditions st) (error_condition (ie_now e) err)\<rparr>\<rparr>
     in (Ok (requeue_after requeueAfter), [CallStatusUpdate svc', CallEvent event_warning ''ReconcileError'' err]))"

section \<open>The reconciler\<close>

definition Inference_handleDeletion :: "is_env \<Rightarrow> InferenceService \<Rightarrow> Manager \<Rightarrow> (string, Result) outcome \<times> is_calls \<times> Manager" where
  "Inference_handleDeletion e svc m =
    (let svc1 = svc\<lparr>is_Status := (is_Status svc)\<lparr>ist_Phase := InferenceServicePhaseTerminating\<rparr>\<rparr>;
         svc2 = svc1\<lparr>is_Meta := RemoveFinalizer (is_Meta svc1) inferenceServiceFinalizer\<rparr>
     in (or_error (ie_update e) done_result,
         [CallStatusUpdate svc1, CallEvent event_normal ''Deleted'' ''InferenceService deleted'', CallUpdate svc2],
         Manager_Release m (is_Name svc) (is_Namespace svc)))"

text \<open>The steps after the GPUs are allocated: the deployment, the service, the status.\<close>

definition reconcile_objects :: "is_env \<Rightarrow> InferenceService \<Rightarrow> Backend \<Rightarrow> (string, Result) outcome \<times> is_calls" where
  "reconcile_objects e svc b =
    (case reconcileDeployment e svc b of
       (Err err, calls) \<Rightarrow> (case Inference_updateStatusWithError e svc err of (r, calls') \<Rightarrow> (r, calls @ calls'))
     | (Panic, calls) \<Rightarrow> (Panic, calls)
     | (Blocked, calls) \<Rightarrow> (Blocked, calls)
     | (Ok deployment, calls) \<Rightarrow>
         (case reconcileService e svc b of
            (Err err, calls') \<Rightarrow> (case Inference_updateStatusWithError e svc err of (r, calls'') \<Rightarrow> (r, calls @ calls' @ calls''))
          | (Panic, calls') \<Rightarrow> (Panic, calls @ calls')
          | (Blocked, calls') \<Rightarrow> (Blocked, calls @ calls')
          | (Ok _, calls') \<Rightarrow> (case Inference_updateStatus e svc (Some deployment) of (r, calls'') \<Rightarrow> (r, calls @ calls' @ calls''))))"

definition with_manager :: "Manager \<Rightarrow> (string, Result) outcome \<times> is_calls \<Rightarrow> (string, Result) outcome \<times> is_calls \<times> Manager" where
  "with_manager m rc = (fst rc, snd rc, m)"

text \<open>An error of \<open>reconcileCacheConfiguration\<close> is logged and the reconciliation goes on.\<close>

definition Inference_Reconcile :: "is_env \<Rightarrow> BackendFactory \<Rightarrow> 's CacheManager \<Rightarrow> Manager
    \<Rightarrow> (string, Result) outcome \<times> is_calls \<times> Manager" where
  "Inference_Reconcile e f cm m =
    (case ie_get e of
       NotFound \<Rightarrow> (Ok done_result, [], m)
     | GetError err \<Rightarrow> (Err err, [], m)
     | Found svc \<Rightarrow>
         if om_DeletionTimestamp (is_Meta svc) \<noteq> None then Inference_handleDeletion e svc m
         else if \<not> ContainsFinalizer (is_Meta svc) inferenceServiceFinalizer
         then (or_error (ie_update e) requeue_now,
               [CallUpdate (svc\<lparr>is_Meta := AddFinalizer (is_Meta svc) inferenceServiceFinalizer\<rparr>)], m)
         else case Inference_validateSpec svc of
           Err err \<Rightarrow> with_manager m (Inference_updateStatusWithError e svc err)
         | Panic \<Rightarrow> (Panic, [], m)
         | Blocked \<Rightarrow> (Blocked, [], m)
         | Ok _ \<Rightarrow>
             (case Factory_Get f (iss_Backend (is_Spec svc)) of
                None \<Rightarrow> with_manager m (Inference_updateStatusWithError e svc (''unsupported backend: '' @ iss_Backend (is_Spec svc)))
              | Some b \<Rightarrow>
                  (case b_Validate b svc of
                     Err err \<Rightarrow> with_manager m (Inference_updateStatusWithError e svc err)
                   | Panic \<Rightarrow> (Panic, [], m)
                   | Blocked \<Rightarrow> (Blocked, [], m)
                   | Ok _ \<Rightarrow>
                       (case reconcileGPUAllocation e svc m of
                          (Err err, calls, m') \<Rightarrow>
                            (case Inference_updateStatusWithError e svc err of (r, calls') \<Rightarrow> (r, calls @ calls', m'))
                        | (Panic, calls, m') \<Rightarrow> (Panic, calls, m')
                        | (Blocked, calls, m') \<Rightarrow> (Blocked, calls, m')
                        | (Ok svc', calls, m') \<Rightarrow>
                            (case reconcileCacheConfiguration svc' cm of
                               Panic \<Rightarrow> (Panic, calls, m')
                             | Blocked \<Rightarrow> (Blocked, calls, m')
                             | _ \<Rightarrow> (case reconcile_objects e svc' b of (r, calls') \<Rightarrow> (r, calls @ calls', m')))))))"

section \<open>What a reconciliation does to the GPU manager\<close>

text \<open>A service that the reconciler goes on with after its checks.\<close>

definition due :: "BackendFactory \<Rightarrow> InferenceService \<Rightarrow> bool" where
  "due f svc \<longleftrightarrow> om_DeletionTimestamp (is_Meta svc) = None \<and> ContainsFinalizer (is_Meta svc) inferenceServiceFinalizer \<and>
     Inference_validateSpec svc = Ok () \<and>
     (case Factory_Get f (iss_Backend (is_Spec svc)) of Some b \<Rightarrow> b_Validate b svc = Ok () | None \<Rightarrow> False)"

lemma reconcileGPUAllocation_manager:
  "snd (snd (reconcileGPUAllocation e svc m)) = snd (Manager_Allocate (ie_gpu e) m (allocation_request svc))"
  by (simp add: reconcileGPUAllocation_def Let_def split: prod.split outcome.split)

text \<open>Whatever the API answers later on, a due reconciliation ends with the GPUs allocated once more.\<close>

lemma Inference_Reconcile_manager:
  assumes "ie_get e = Found svc" and "due f svc"
  shows "snd (snd (Inference_Reconcile e f cm m)) = snd (Manager_Allocate (ie_gpu e) m (allocation_request svc))"
proof -
  obtain b where b: "Factory_Get f (iss_Backend (is_Spec svc)) = Some b" "b_Validate b svc = Ok ()"
    using assms(2) by (auto simp: due_def split: option.splits)
  obtain r calls m' where g: "reconcileGPUAllocation e svc m = (r, calls, m')" by (metis prod_cases3)
  have "snd (snd (Inference_Reconcile e f cm m)) = m'"
    using assms b g by (simp add: Inference_Reconcile_def due_def split: outcome.split prod.split)
  then show ?thesis using reconcileGPUAllocation_manager [of e svc m] g by simp
qed

section \<open>MIG instances held\<close>

lemma createInstances_loop_grows:
  "createInstances_loop prof pn i n c m cr = (cr', c', m') \<Longrightarrow>
    length (mm_heap m) \<le> length (mm_heap m') \<and> mm_pools m' = mm_pools m"
  by (induction prof pn i n c m cr arbitrary: cr' c' m' rule: createInstances_loop.induct) (fastforce simp: Let_def)+

lemma mig_grant_grows:
  "length (mm_heap (snd (mig_grant prof req av m))) = length (mm_heap m)" "mm_pools (snd (mig_grant prof req av m)) = mm_pools m"
  by (simp_all add: mig_grant_def Let_def)

lemma MIG_Allocate_grows:
  shows "length (mm_heap m) \<le> length (mm_heap (snd (MIG_Allocate ord m req pool)))"
    and "gm_has (mm_pools m) n \<Longrightarrow> gm_has (mm_pools (snd (MIG_Allocate ord m req pool))) n"
  using createInstances_loop_grows
  by (fastforce simp: MIG_Allocate_def createInstances_def Let_def mig_grant_grows gm_has_def gm_get_set split: option.split prod.split)+

text \<open>A MIG request that its manager will grant.\<close>

definition mig_ready :: "AllocationRequest \<Rightarrow> Manager \<Rightarrow> bool" where
  "mig_ready req m \<longleftrightarrow> gpu_ok m \<and> ar_SharingMode req = GPUSharingModeMIG \<and> gm_has migProfiles (ar_MIGProfile req) \<and> 0 \<le> ar_GPUCount req \<and>
     (case gm_get (mg_pools m) (ar_PoolName req) of Some pool \<Rightarrow> gm_has (mm_pools (mg_mig m)) (pi_Name pool) | None \<Rightarrow> False)"

lemma mig_ready_allocate:
  assumes "mig_ready req m" and "gpu_env_ok e"
  defines "m' \<equiv> snd (Manager_Allocate e m req)"
  shows "mig_ready req m'" and "is_ok (fst (Manager_Allocate e m req))"
    and "mig_objects_held (mg_mig m') (ar_ServiceName req) (ar_Namespace req) =
      mig_objects_held (mg_mig m) (ar_ServiceName req) (ar_Namespace req) + nat (ar_GPUCount req)"
proof -
  obtain pool c prof where p: "gm_get (mg_pools m) (ar_PoolName req) = Some pool" "gm_get (mm_pools (mg_mig m)) (pi_Name pool) = Some c"
    "gm_get migProfiles (ar_MIGProfile req) = Some prof"
    using assms(1) by (auto simp: mig_ready_def gm_has_def split: option.splits)
  have r: "gpu_ok m" "ar_SharingMode req = GPUSharingModeMIG" "0 \<le> ar_GPUCount req" using assms(1) by (simp_all add: mig_ready_def)
  have ord: "range_ok (ge_mig e)" using assms(2) by (simp add: gpu_env_ok_def)
  obtain ps s where s: "MIG_Allocate (ge_mig e) (mg_mig m) req pool = (Ok (map (\<lambda>p. mig_info prof (mm_heap s ! p)) ps), s)"
    "mig_granted (mg_mig m) req ps s" using MIG_Allocate_spec [OF gpu_ok_subD(1) [OF r(1)] ord p(2,3) r(3)] by blast
  have m': "m' = m\<lparr>mg_mig := s, mg_allocationCounter := mg_allocationCounter m @ [(pi_Name pool, ar_SharingMode req)]\<rparr>"
    and ok: "is_ok (fst (Manager_Allocate e m req))"
    using p(1) r(2) s(1) by (simp_all add: m'_def Manager_Allocate_def dispatch_def)
  have grow: "length (mm_heap (mg_mig m)) \<le> length (mm_heap s)" "gm_has (mm_pools s) (pi_Name pool)"
    using MIG_Allocate_grows [where m = "mg_mig m" and ord = "ge_mig e" and req = req and pool = pool] s(1) p(2) by (simp_all add: gm_has_def)
  have "gpu_ok m'" unfolding m'_def using Manager_Allocate_ok [OF r(1) assms(2)] by simp
  then show "mig_ready req m'" using assms(1) m' p(1) grow(2) by (simp add: mig_ready_def)
  show "is_ok (fst (Manager_Allocate e m req))" by (rule ok)
  have "length ps = nat (ar_GPUCount req)" using s(2) by (auto simp: mig_granted_def)
  then show "mig_objects_held (mg_mig m') (ar_ServiceName req) (ar_Namespace req) =
      mig_objects_held (mg_mig m) (ar_ServiceName req) (ar_Namespace req) + nat (ar_GPUCount req)"
    using mig_granted_objects [OF s(2)] m' by simp
qed

definition due_env :: "BackendFactory \<Rightarrow> InferenceService \<Rightarrow> is_env \<Rightarrow> bool" where
  "due_env f svc e \<longleftrightarrow> gpu_env_ok (ie_gpu e) \<and>
     (case ie_get e of Found svc' \<Rightarrow> due f svc' \<and> allocation_request svc' = allocation_request svc | _ \<Rightarrow> False)"

definition reconcile_all :: "is_env list \<Rightarrow> BackendFactory \<Rightarrow> 's CacheManager \<Rightarrow> Manager \<Rightarrow> Manager" where
  "reconcile_all es f cm m = fold (\<lambda>e m. snd (snd (Inference_Reconcile e f cm m))) es m"

lemma reconcile_all_holds:
  assumes "mig_ready (allocation_request svc) m" and "list_all (due_env f svc) es"
  shows "mig_objects_held (mg_mig (reconcile_all es f cm m)) (is_Name svc) (is_Namespace svc) =
    mig_objects_held (mg_mig m) (is_Name svc) (is_Namespace svc) + length es * nat (gs_Count (iss_GPU (is_Spec svc)))"
  using assms
proof (induction es arbitrary: m)
  case (Cons e es)
  obtain svc' where e: "ie_get e = Found svc'" "due f svc'" "allocation_request svc' = allocation_request svc" "gpu_env_ok (ie_gpu e)"
    using Cons.prems(2) by (auto simp: due_env_def split: api_get.splits)
  let ?req = "allocation_request svc"
  let ?m' = "snd (Manager_Allocate (ie_gpu e) m ?req)"
  have step: "snd (snd (Inference_Reconcile e f cm m)) = ?m'" using Inference_Reconcile_manager [OF e(1,2)] e(3) by simp
  have req: "ar_ServiceName ?req = is_Name svc" "ar_Namespace ?req = is_Namespace svc" "ar_GPUCount ?req = gs_Count (iss_GPU (is_Spec svc))"
    by (simp_all add: allocation_request_def Let_def)
  have "mig_objects_held (mg_mig ?m') (is_Name svc) (is_Namespace svc) =
      mig_objects_held (mg_mig m) (is_Name svc) (is_Namespace svc) + nat (gs_Count (iss_GPU (is_Spec svc)))"
    using mig_ready_allocate(3) [OF Cons.prems(1) e(4)] req by simp
  with Cons.IH [OF mig_ready_allocate(1) [OF Cons.prems(1) e(4)]] Cons.prems(2) show ?case by (simp add: reconcile_all_def step)
qed (simp add: reconcile_all_def)

section \<open>Status and conditions\<close>

lemma Inference_updateConditions_status:
  shows "map_option c_Status (cond_of (ist_Conditions (Inference_updateConditions now (Some d) st)) ''Ready'') =
      Some (dp_AvailableReplicas d = do_Replicas (dp_Spec d))"
    and "map_option c_Status (cond_of (ist_Conditions (Inference_updateConditions now (Some d) st)) ''ModelLoaded'') =
      Some (ist_Phase st = InferenceServicePhaseRunning)"
    and "cond_of (ist_Conditions (Inference_updateConditions now (Some d) st)) ''Error'' = cond_of (ist_Conditions st) ''Error''"
    and "ist_Phase (Inference_updateConditions now (Some d) st) = ist_Phase st"
  by (simp_all add: Inference_updateConditions_def Let_def cond_status_set cond_of_setCondition_other del: map_option_eq_Some)

lemma inference_status_of:
  shows "map_option c_Status (cond_of (ist_Conditions (inference_status e svc (Some d))) ''Ready'') =
      Some (dp_AvailableReplicas d = do_Replicas (dp_Spec d))"
    and "map_option c_Status (cond_of (ist_Conditions (inference_status e svc (Some d))) ''ModelLoaded'') =
      Some (inference_phase (Some d) = InferenceServicePhaseRunning)"
    and "cond_of (ist_Conditions (inference_status e svc (Some d))) ''Error'' = cond_of (ist_Conditions (is_Status svc)) ''Error''"
    and "ist_Phase (inference_status e svc (Some d)) = inference_phase (Some d)"
  by (simp_all add: inference_status_def Let_def Inference_updateConditions_status del: map_option_eq_Some)

lemma inference_status_kept:
  "ist_GPUAllocations (inference_status e svc d) = ist_GPUAllocations (is_Status svc)"
  "ist_ReadyReplicas (inference_status e svc (Some d')) = dp_ReadyReplicas d'"
  "ist_AvailableReplicas (inference_status e svc (Some d')) = dp_AvailableReplicas d'"
  by (simp_all add: inference_status_def Inference_updateConditions_def Let_def split: option.split)

text \<open>The steps after the allocation when the deployment and the service go through.\<close>

lemma reconcile_objects_ok:
  assumes "reconcileDeployment e svc b = (Ok d, calls)" and "reconcileService e svc b = (Ok (), calls')" and "ie_status e = None"
  shows "reconcile_objects e svc b = (Ok (requeue_after requeueAfter),
    calls @ calls' @ [CallStatusUpdate (svc\<lparr>is_Status := inference_status e svc (Some d)\<rparr>)])"
  using assms by (simp add: reconcile_objects_def Inference_updateStatus_def or_error_def)

text \<open>The whole reconciliation of a due service whose request the GPU manager grants.\<close>

definition granted :: "InferenceService \<Rightarrow> AllocationResult \<Rightarrow> InferenceService" where
  "granted svc res = svc\<lparr>is_Status := (is_Status svc)\<lparr>ist_GPUAllocations := map gpu_allocation (res_Allocations res)\<rparr>\<rparr>"

lemma granted_sel [simp]:
  "is_Spec (granted svc res) = is_Spec svc" "is_Meta (granted svc res) = is_Meta svc" "is_Name (granted svc res) = is_Name svc"
  "is_Namespace (granted svc res) = is_Namespace svc" "ist_Conditions (is_Status (granted svc res)) = ist_Conditions (is_Status svc)"
  "ist_GPUAllocations (is_Status (granted svc res)) = map gpu_allocation (res_Allocations res)"
  by (simp_all add: granted_def)

lemma Inference_Reconcile_granted:
  assumes "ie_get e = Found svc" and "due f svc" and "Factory_Get f (iss_Backend (is_Spec svc)) = Some b"
    and "Manager_Allocate (ie_gpu e) m (allocation_request svc) = (Ok res, m')"
  shows "Inference_Reconcile e f cm m = (fst (reconcile_objects e (granted svc res) b),
    CallEvent event_normal ''GPUAllocated'' (''Allocated '' @ itoa (int (length (res_Allocations res))) @ '' GPUs'') #
      snd (reconcile_objects e (granted svc res) b), m')"
proof -
  have "res_Success res" using assms(4) by (auto simp: Manager_Allocate_def split: option.splits prod.splits outcome.splits)
  then have g: "reconcileGPUAllocation e svc m = (Ok (granted svc res),
      [CallEvent event_normal ''GPUAllocated'' (''Allocated '' @ itoa (int (length (res_Allocations res))) @ '' GPUs'')], m')"
    using assms(4) by (simp add: reconcileGPUAllocation_def Let_def granted_def)
  have "reconcileCacheConfiguration s cm \<noteq> Panic \<and> reconcileCacheConfiguration s cm \<noteq> Blocked" for s
    by (simp add: reconcileCacheConfiguration_def GetCacheForService_def split: option.split)
  then show ?thesis using assms(1-3) g
    by (auto simp: Inference_Reconcile_def due_def split: outcome.split prod.split)
qed

lemma operator_validate_spec:
  "Factory_Get operator_factory t = Some b \<Longrightarrow> is_Spec svc' = is_Spec svc \<Longrightarrow> b_Validate b svc' = b_Validate b svc"
  by (auto simp: operator_factory_get VLLMBackend_def TritonBackend_def TensorRTBackend_def VLLM_Validate_def Triton_Validate_def
      TensorRT_Validate_def split: if_splits)

text \<open>What is used of \<open>DeepEqual\<close>.\<close>

definition args_compared :: "(DeploymentObjectSpec \<Rightarrow> DeploymentObjectSpec \<Rightarrow> bool) \<Rightarrow> bool" where
  "args_compared same \<longleftrightarrow> (\<forall>a b. same a b \<longrightarrow> map ct_Args (do_Containers a) = map ct_Args (do_Containers b))"

text \<open>Every status it writes has well-formed conditions.\<close>

lemma object_calls_no_status:
  "CallStatusUpdate x \<notin> set (snd (reconcileDeployment e svc b))" "CallStatusUpdate x \<notin> set (snd (reconcileService e svc b))"
  by (auto simp: reconcileDeployment_def reconcileService_def Let_def split: outcome.splits option.splits api_get.splits if_splits)

lemma updateStatusWithError_conditions:
  "conds_ok (ist_Conditions (is_Status svc)) \<Longrightarrow> Inference_updateStatusWithError e svc err = (r, calls) \<Longrightarrow> CallStatusUpdate svc' \<in> set calls \<Longrightarrow>
    conds_ok (ist_Conditions (is_Status svc'))"
  by (auto simp: Inference_updateStatusWithError_def Let_def intro: inv_intros)

lemma updateStatus_conditions:
  "conds_ok (ist_Conditions (is_Status svc)) \<Longrightarrow> Inference_updateStatus e svc d = (r, calls) \<Longrightarrow> CallStatusUpdate svc' \<in> set calls \<Longrightarrow>
    conds_ok (ist_Conditions (is_Status svc'))"
  by (auto simp: Inference_updateStatus_def inference_status_def Inference_updateConditions_def Let_def intro!: inv_intros split: option.splits)

lemma reconcile_objects_conditions:
  assumes "conds_ok (ist_Conditions (is_Status svc))" and "CallStatusUpdate svc' \<in> set (snd (reconcile_objects e svc b))"
  shows "conds_ok (ist_Conditions (is_Status svc'))"
  using assms(2) object_calls_no_status(1) [of svc' e svc b] object_calls_no_status(2) [of svc' e svc b]
    updateStatusWithError_conditions [OF assms(1)] updateStatus_conditions [OF assms(1)]
  by (auto simp: reconcile_objects_def split: prod.splits outcome.splits)

lemma reconcileGPUAllocation_conditions:
  assumes "reconcileGPUAllocation e svc m = (r, calls, m')"
  shows "CallStatusUpdate x \<notin> set calls" and "r = Ok svc' \<Longrightarrow> ist_Conditions (is_Status svc') = ist_Conditions (is_Status svc)"
  using assms by (auto simp: reconcileGPUAllocation_def Let_def split: prod.splits outcome.splits if_splits)

lemma Inference_conditions:
  assumes "ie_get e = Found svc" and "conds_ok (ist_Conditions (is_Status svc))"
    and "CallStatusUpdate svc' \<in> set (fst (snd (Inference_Reconcile e f cm m)))"
  shows "conds_ok (ist_Conditions (is_Status svc'))"
proof -
  obtain r calls m' where g: "reconcileGPUAllocation e svc m = (r, calls, m')" by (metis prod_cases3)
  note err = updateStatusWithError_conditions [OF assms(2)] and gc = reconcileGPUAllocation_conditions [OF g]
  have obj: "conds_ok (ist_Conditions (is_Status svc'))" if "r = Ok s" "CallStatusUpdate svc' \<in> set (snd (reconcile_objects e s b))" for s b
    using reconcile_objects_conditions [OF _ that(2)] gc(2) [OF that(1)] assms(2) by simp
  have manager: "CallStatusUpdate svc' \<in> set (fst (snd (with_manager m (Inference_updateStatusWithError e svc msg)))) \<Longrightarrow>
      conds_ok (ist_Conditions (is_Status svc'))" for msg
    using err by (cases "Inference_updateStatusWithError e svc msg") (simp add: with_manager_def)
  have pair: "reconcile_objects e s b = (x, y) \<Longrightarrow> snd (reconcile_objects e s b) = y" for s b x y by simp
  show ?thesis using assms g gc(1)
    by (auto simp: Inference_Reconcile_def Inference_handleDeletion_def Let_def dest: manager err obj pair
        split: if_splits outcome.splits option.splits prod.splits)
qed

section \<open>InferenceServices as stored resources\<close>

definition is_zero :: InferenceServiceStatus where
  "is_zero = \<lparr>ist_Phase = InferenceServicePhaseUnset, ist_ReadyReplicas = 0, ist_AvailableReplicas = 0, ist_URL = '''',
     ist_GPUAllocations = [], ist_CacheStatus = None, ist_Conditions = [], ist_LastScaleTime = None, ist_ObservedGeneration = 0\<rparr>"

definition is_kind :: "(InferenceService, string \<times> string, InferenceServiceSpec, InferenceServiceStatus) kind" where
  "is_kind = \<lparr>kd_key = (\<lambda>s. (is_Namespace s, is_Name s)), kd_meta = is_Meta, kd_spec = is_Spec, kd_status = is_Status,
     kd_conditions = ist_Conditions, kd_zero = is_zero, kd_finalizer = inferenceServiceFinalizer\<rparr>"

lemma object_calls_no_update:
  "CallUpdate x \<notin> set (snd (reconcileDeployment e svc b))" "CallUpdate x \<notin> set (snd (reconcileService e svc b))"
  by (auto simp: reconcileDeployment_def reconcileService_def Let_def split: outcome.splits option.splits api_get.splits if_splits)

lemma reconcile_objects_no_update: "CallUpdate x \<notin> set (snd (reconcile_objects e svc b))"
  using object_calls_no_update(1) [of x e svc b] object_calls_no_update(2) [of x e svc b]
  by (auto simp: reconcile_objects_def Inference_updateStatus_def Inference_updateStatusWithError_def Let_def split: prod.splits outcome.splits)

lemma Inference_Reconcile_update:
  assumes "ie_get e = Found v" and "Inference_Reconcile e f cm m = (r, calls, m')" and "CallUpdate u \<in> set calls"
  shows "is_Spec u = is_Spec v \<and> (om_DeletionTimestamp (is_Meta v) = None \<and> is_Meta u = AddFinalizer (is_Meta v) inferenceServiceFinalizer \<or>
    om_DeletionTimestamp (is_Meta v) \<noteq> None \<and> is_Meta u = RemoveFinalizer (is_Meta v) inferenceServiceFinalizer)"
proof -
  have g: "CallUpdate u \<notin> set (fst (snd (reconcileGPUAllocation e v m)))"
    by (auto simp: reconcileGPUAllocation_def Let_def split: prod.split outcome.split)
  have o: "reconcile_objects e s b = (x, y) \<Longrightarrow> CallUpdate u \<notin> set y" for s b x y
    using reconcile_objects_no_update [of u e s b] by simp
  show ?thesis using assms g
    by (auto simp: Inference_Reconcile_def Inference_handleDeletion_def Inference_updateStatusWithError_def with_manager_def Let_def
        dest: o split: if_splits outcome.splits option.splits prod.splits)
qed

text \<open>The manager after a reconciliation is as before, or has been asked once, to allocate or to release.\<close>

lemma Inference_Reconcile_manager_cases:
  assumes "ie_get e = Found v" and "Inference_Reconcile e f cm m = (r, calls, m')"
  shows "m' = m \<or> due f v \<and> m' = snd (Manager_Allocate (ie_gpu e) m (allocation_request v)) \<or>
    om_DeletionTimestamp (is_Meta v) \<noteq> None \<and> m' = Manager_Release m (is_Name v) (is_Namespace v)"
proof (cases "due f v")
  case True
  then show ?thesis using Inference_Reconcile_manager [OF assms(1) True, of cm m] assms(2) by simp
next
  case False
  then show ?thesis using assms
    by (auto simp: Inference_Reconcile_def Inference_handleDeletion_def Inference_updateStatusWithError_def with_manager_def due_def Let_def
        split: if_splits outcome.splits option.splits)
qed

interpretation isr: reconciler is_kind ie_get "\<lambda>e m. Inference_Reconcile e f cm m" "\<lambda>m. {}" for f cm
proof
  fix e m v r calls m' u
  show "snd (Inference_Reconcile e f cm m) = ([], m)" if "\<forall>v. ie_get e \<noteq> Found v"
    using that by (cases "ie_get e") (simp_all add: Inference_Reconcile_def)
  assume f: "ie_get e = Found v" "Inference_Reconcile e f cm m = (r, calls, m')"
  show "kd_spec is_kind u = kd_spec is_kind v \<and>
      (kd_meta is_kind u = AddFinalizer (kd_meta is_kind v) (kd_finalizer is_kind) \<and> \<not> deleting is_kind v \<or>
       kd_meta is_kind u = RemoveFinalizer (kd_meta is_kind v) (kd_finalizer is_kind) \<and> deleting is_kind v \<and>
       om_Name (kd_meta is_kind v) \<notin> {})" if "CallUpdate u \<in> set calls"
    using Inference_Reconcile_update [OF f that] by (auto simp: is_kind_def deleting_def)
  show "conds_ok (kd_conditions is_kind (kd_status is_kind u))"
    if "CallStatusUpdate u \<in> set calls" "conds_ok (kd_conditions is_kind (kd_status is_kind v))"
    using Inference_conditions [OF f(1), of u f cm m] that f(2) by (simp add: is_kind_def)
qed simp

text \<open>Whatever a reconciliation does to the manager is a step of the manager.\<close>

lemma Inference_Reconcile_reachable:
  assumes "gpu_reachable m" and "gpu_env_ok (ie_gpu e)" and "Inference_Reconcile e f cm m = (r, calls, m')"
  shows "gpu_reachable m'"
proof (cases "ie_get e")
  case (Found v)
  then show ?thesis using Inference_Reconcile_manager_cases [OF Found assms(3)] assms(1,2)
    by (auto intro: gpu_reachable.step gpu_step.intros)
qed (use assms in \<open>simp_all add: Inference_Reconcile_def\<close>)

section \<open>Examples\<close>

definition is_demo_env :: "InferenceService \<Rightarrow> args_ord \<Rightarrow> DeploymentObject api_get \<Rightarrow> ServiceObject api_get \<Rightarrow> is_env" where
  "is_demo_env svc ord dep sv = \<lparr>ie_get = Found svc, ie_update = None, ie_status = None, ie_now = 7, ie_gpu = gm_demo_env, ie_args = ord,
     ie_dep_owner = None, ie_dep_get = dep, ie_dep_create = None, ie_dep_update = None, ie_stored = (\<lambda>d. d), ie_same_deployment = (=),
     ie_svc_owner = None, ie_svc_get = sv, ie_svc_create = None, ie_svc_update = None, ie_same_service = (=)\<rparr>"

lemma is_demo_due: "due operator_factory (is_demo ''vllm'' ''mig'' (Some bc_demo))"
  by code_simp

section \<open>Properties\<close>

text \<open>
  C20. Every periodic reconciliation allocates again. For a service with a MIG profile that its pool's
  manager can grant, each of any number of reconciliations adds exactly its whole GPU count to the
  instance objects that were created and are marked in use by the service, whatever the API answered on
  the way: nothing checks that the GPUs are there already, and nothing is released in between. The
  count is of the instances themselves. The manager's tables keep one per identifier and may list fewer,
  since identifiers collide (\<open>mig_instance_id_collision\<close>): then the instances are held and cannot even
  be found any more.
\<close>

theorem inference_reallocates:
  assumes "mig_ready (allocation_request svc) m" and "list_all (due_env f svc) es"
  shows "mig_objects_held (mg_mig (reconcile_all es f cm m)) (is_Name svc) (is_Namespace svc) =
    mig_objects_held (mg_mig m) (is_Name svc) (is_Namespace svc) + length es * nat (gs_Count (iss_GPU (is_Spec svc)))"
  by (rule reconcile_all_holds [OF assms])

theorem inference_reallocates_witness:
  "mig_objects_held (mg_mig (reconcile_all (replicate 3 (is_demo_env (is_demo ''vllm'' ''mig'' (Some bc_demo)) (\<lambda>x. x) NotFound NotFound))
     operator_factory (NewCacheManager :: PrefixCache CacheManager) gm_mig)) ''s'' ''ns'' = 6"
proof -
  let ?svc = "is_demo ''vllm'' ''mig'' (Some bc_demo)"
  let ?e = "is_demo_env ?svc (\<lambda>x. x) NotFound NotFound"
  have "due_env operator_factory ?svc ?e" using is_demo_due by (simp add: due_env_def is_demo_env_def)
  then have es: "list_all (due_env operator_factory ?svc) (replicate 3 ?e)" by (simp add: list_all_iff)
  have "gm_get (mg_pools gm_mig) ''p'' = Some (pool_info (\<lambda>s x. x) mig_demo_pool)" "gm_has (mm_pools (mg_mig gm_mig)) ''p''"
    "gm_has migProfiles ''1g.5gb''" "pi_Name (pool_info (\<lambda>s x. x) mig_demo_pool) = ''p''" by code_simp+
  then have r: "mig_ready (allocation_request ?svc) gm_mig"
    using gpu_reachable_ok [OF gm_mig_reachable] by (simp add: mig_ready_def allocation_request_def Let_def is_demo_def GPUSharingModeMIG_def)
  have "is_Name ?svc = ''s''" "is_Namespace ?svc = ''ns''" "gs_Count (iss_GPU (is_Spec ?svc)) = 2" by (simp_all add: is_demo_def)
  moreover have "mig_objects_held (mg_mig gm_mig) ''s'' ''ns'' = 0" by code_simp
  ultimately show ?thesis using inference_reallocates [OF r es, of "NewCacheManager :: PrefixCache CacheManager"] by simp
qed

text \<open>
  C30. A service that fails a check is turned down before anything is touched: when the specification
  is invalid, the backend unknown, or the backend does not accept it, the reconciliation neither
  allocates a GPU nor creates or updates an object. It reports the phase Failed and a true error
  condition, records a warning, and comes back after thirty seconds.
\<close>

theorem inference_rejects:
  assumes "ie_get e = Found svc" and "om_DeletionTimestamp (is_Meta svc) = None"
    and "ContainsFinalizer (is_Meta svc) inferenceServiceFinalizer" and "\<not> due operator_factory svc"
  shows "\<exists>svc' err. Inference_Reconcile e operator_factory cm m =
      (Ok (requeue_after requeueAfter), [CallStatusUpdate svc', CallEvent event_warning ''ReconcileError'' err], m) \<and>
    is_Spec svc' = is_Spec svc \<and> ist_Phase (is_Status svc') = InferenceServicePhaseFailed \<and>
    map_option c_Status (cond_of (ist_Conditions (is_Status svc')) ''Error'') = Some True"
proof -
  have err: "\<exists>svc'. with_manager m (Inference_updateStatusWithError e svc err) =
      (Ok (requeue_after requeueAfter), [CallStatusUpdate svc', CallEvent event_warning ''ReconcileError'' err], m) \<and>
    is_Spec svc' = is_Spec svc \<and> ist_Phase (is_Status svc') = InferenceServicePhaseFailed \<and>
    map_option c_Status (cond_of (ist_Conditions (is_Status svc')) ''Error'') = Some True" for err
    by (simp add: with_manager_def Inference_updateStatusWithError_def Let_def cond_status_set error_condition_def del: map_option_eq_Some)
  have "\<exists>err. Inference_Reconcile e operator_factory cm m = with_manager m (Inference_updateStatusWithError e svc err)"
  proof (cases "Inference_validateSpec svc = Ok ()")
    case False
    then obtain msg where "Inference_validateSpec svc = Err msg" by (auto simp: Inference_validateSpec_def split: if_splits)
    then show ?thesis using assms by (auto simp: Inference_Reconcile_def)
  next
    case v: True
    show ?thesis
    proof (cases "Factory_Get operator_factory (iss_Backend (is_Spec svc))")
      case (Some b)
      then have "b_Validate b svc \<noteq> Ok ()" using assms v by (auto simp: due_def)
      then obtain msg where "b_Validate b svc = Err msg"
        using backend.validate_total [OF operator_backend [OF Some], of svc] by (auto simp: is_ok_iff is_err_iff)
      then show ?thesis using assms v Some by (auto simp: Inference_Reconcile_def)
    qed (use assms v in \<open>auto simp: Inference_Reconcile_def\<close>)
  qed
  then obtain msg where "Inference_Reconcile e operator_factory cm m = with_manager m (Inference_updateStatusWithError e svc msg)" by blast
  then show ?thesis using err [of msg] by metis
qed

theorem inference_rejects_witness:
  "\<exists>svc' err. Inference_Reconcile (is_demo_env (is_demo ''onnx'' ''mig'' None) (\<lambda>x. x) NotFound NotFound) operator_factory
       (NewCacheManager :: PrefixCache CacheManager) gm_mig =
     (Ok (requeue_after requeueAfter), [CallStatusUpdate svc', CallEvent event_warning ''ReconcileError'' err], gm_mig)"
proof -
  let ?svc = "is_demo ''onnx'' ''mig'' None"
  have "\<not> due operator_factory ?svc" "om_DeletionTimestamp (is_Meta ?svc) = None"
    "ContainsFinalizer (is_Meta ?svc) inferenceServiceFinalizer" by code_simp+
  moreover have "ie_get (is_demo_env ?svc (\<lambda>x. x) NotFound NotFound) = Found ?svc" by (simp add: is_demo_env_def)
  ultimately show ?thesis using inference_rejects [of "is_demo_env ?svc (\<lambda>x. x) NotFound NotFound" ?svc] by blast
qed

text \<open>
  C21. What the reconciliation of a new service creates, when its checks pass and the GPU manager grants the
  GPUs it asks for: a deployment and a service in the namespace of the resource and under its name, and
  a status with the granted GPUs. The deployment's selector matches the labels of its own pods, as the
  API server demands, the service selects the same pods, and every port it forwards to is opened by
  their container. This holds for each backend of the operator.
\<close>

theorem inference_creates:
  assumes "ie_get e = Found svc" and "due operator_factory svc"
    and "Manager_Allocate (ie_gpu e) m (allocation_request svc) = (Ok res, m')"
    and "ie_dep_owner e = None" and "ie_dep_get e = NotFound" and "ie_dep_create e = None"
    and "ie_svc_owner e = None" and "ie_svc_get e = NotFound" and "ie_svc_create e = None" and "ie_status e = None"
  shows "\<exists>d s c svc' ev ev' ev''. Inference_Reconcile e operator_factory cm m = (Ok (requeue_after requeueAfter),
      [CallEvent event_normal ''GPUAllocated'' ev, CallCreate (ISDeployment d), CallEvent event_normal ''DeploymentCreated'' ev',
       CallCreate (ISService s), CallEvent event_normal ''ServiceCreated'' ev'', CallStatusUpdate svc'], m') \<and>
    is_Spec svc' = is_Spec svc \<and> ist_GPUAllocations (is_Status svc') = map gpu_allocation (res_Allocations res) \<and>
    dp_Name d = is_Name svc \<and> dp_Namespace d = is_Namespace svc \<and> sv_Name s = is_Name svc \<and> sv_Namespace s = is_Namespace svc \<and>
    do_Replicas (dp_Spec d) = iss_Replicas (is_Spec svc) \<and> do_Containers (dp_Spec d) = [c] \<and>
    list_all (\<lambda>(k, v). gm_get (do_TemplateLabels (dp_Spec d)) k = Some v) (do_MatchLabels (dp_Spec d)) \<and>
    list_all (\<lambda>(k, v). gm_get (do_TemplateLabels (dp_Spec d)) k = Some v) (so_Selector (sv_Spec s)) \<and>
    list_all (\<lambda>p. list_ex (\<lambda>q. cp_ContainerPort q = sp_TargetPort p \<and> cp_Protocol q = sp_Protocol p) (ct_Ports c)) (so_Ports (sv_Spec s))"
proof -
  let ?svc = "granted svc res"
  obtain b where f: "Factory_Get operator_factory (iss_Backend (is_Spec svc)) = Some b" and "b_Validate b svc = Ok ()"
    using assms(2) by (auto simp: due_def split: option.splits)
  then have v: "b_Validate b ?svc = Ok ()" using operator_validate_spec [OF f, of ?svc svc] by simp
  have b: "backend b" by (rule operator_backend [OF f])
  obtain d where d: "b_GenerateDeployment b (ie_args e) ?svc = Ok d" using backend.validate_generate [OF b v] by blast
  obtain s where s: "b_GenerateService b ?svc = Ok s" "ss_Name s = is_Name svc" "ss_Namespace s = is_Namespace svc"
    using backend.generate_service [OF b, of ?svc] by auto
  let ?d = "deployment_object ?svc d" and ?s = "service_object s"
  have rd: "reconcileDeployment e ?svc b = (Ok (ie_stored e ?d), [CallCreate (ISDeployment ?d),
      CallEvent event_normal ''DeploymentCreated'' (''Created deployment '' @ dp_Name ?d)])"
    using assms(4-6) d by (simp add: reconcileDeployment_def Let_def)
  have rs: "reconcileService e ?svc b = (Ok (), [CallCreate (ISService ?s),
      CallEvent event_normal ''ServiceCreated'' (''Created service '' @ sv_Name ?s)])"
    using assms(7-9) s by (simp add: reconcileService_def Let_def)
  let ?svc' = "?svc\<lparr>is_Status := inference_status e ?svc (Some (ie_stored e ?d))\<rparr>"
  have r: "Inference_Reconcile e operator_factory cm m = (Ok (requeue_after requeueAfter),
      [CallEvent event_normal ''GPUAllocated'' (''Allocated '' @ itoa (int (length (res_Allocations res))) @ '' GPUs''),
       CallCreate (ISDeployment ?d), CallEvent event_normal ''DeploymentCreated'' (''Created deployment '' @ dp_Name ?d),
       CallCreate (ISService ?s), CallEvent event_normal ''ServiceCreated'' (''Created service '' @ sv_Name ?s), CallStatusUpdate ?svc'], m')"
    using Inference_Reconcile_granted [OF assms(1,2) f assms(3)] reconcile_objects_ok [OF rd rs assms(10)] by simp
  show ?thesis
    by (rule exI [of _ ?d], rule exI [of _ ?s], rule exI [of _ "hd (do_Containers (dp_Spec ?d))"], rule exI [of _ ?svc'], intro exI, rule conjI, rule r)
      (use backend.deployment_of [OF b d] backend.serves [OF b d s(1)] s(2,3) in
        \<open>simp add: deployment_object_def service_object_def pods_ready_to_serve_def inference_status_kept\<close>)
qed

text \<open>The demonstration service on the demonstration manager, whose pool has the MIG profile it asks for.\<close>

lemma is_demo_granted:
  assumes "b \<in> {''vllm'', ''triton''}"
  obtains res m' where "Manager_Allocate gm_demo_env gm_mig (allocation_request (is_demo b ''mig'' None)) = (Ok res, m')"
proof -
  have "is_ok (fst (Manager_Allocate gm_demo_env gm_mig (allocation_request (is_demo ''vllm'' ''mig'' None))))" by code_simp
  moreover have "allocation_request (is_demo b ''mig'' None) = allocation_request (is_demo ''vllm'' ''mig'' None)"
    by (simp add: allocation_request_def is_demo_def Let_def)
  ultimately show thesis using that by (metis is_ok_iff prod.collapse)
qed

theorem inference_creates_witness:
  "\<exists>d s svc' ev ev' ev'' m'. Inference_Reconcile (is_demo_env (is_demo ''triton'' ''mig'' None) (\<lambda>x. x) NotFound NotFound) operator_factory
      (NewCacheManager :: PrefixCache CacheManager) gm_mig =
     (Ok (requeue_after requeueAfter), [CallEvent event_normal ''GPUAllocated'' ev, CallCreate (ISDeployment d),
       CallEvent event_normal ''DeploymentCreated'' ev', CallCreate (ISService s), CallEvent event_normal ''ServiceCreated'' ev'',
       CallStatusUpdate svc'], m') \<and> dp_Name d = ''s''"
proof -
  let ?svc = "is_demo ''triton'' ''mig'' None"
  let ?e = "is_demo_env ?svc (\<lambda>x. x) NotFound NotFound"
  have g: "ie_get ?e = Found ?svc" "ie_gpu ?e = gm_demo_env" by (simp_all add: is_demo_env_def)
  have due: "due operator_factory ?svc" by code_simp
  obtain res m' where a: "Manager_Allocate (ie_gpu ?e) gm_mig (allocation_request ?svc) = (Ok res, m')"
    using is_demo_granted [of "''triton''"] g(2) by auto
  have e: "ie_dep_owner ?e = None" "ie_dep_get ?e = NotFound" "ie_dep_create ?e = None" "ie_svc_owner ?e = None" "ie_svc_get ?e = NotFound"
    "ie_svc_create ?e = None" "ie_status ?e = None" by (simp_all add: is_demo_env_def)
  have n: "is_Name ?svc = ''s''" by (simp add: is_demo_def)
  from inference_creates [OF g(1) due a e, of "NewCacheManager :: PrefixCache CacheManager"] show ?thesis
    unfolding n by (elim exE conjE, intro exI conjI) assumption+
qed

text \<open>
  C31. The status that a reconciliation reports, of a due service whose request is granted, when the steps
  for the deployment and for the service go through. Of the deployment \<open>d\<close> it ended with, the phase is
  Running exactly when some replica is available and all that were asked for are, Scaling exactly when
  some is and not all, Initializing exactly when none is available and some is unavailable, and Pending
  otherwise; the replica counts are those of \<open>d\<close>. The Ready condition is true exactly when the available
  replicas are those asked for, and so also for a service scaled to zero, whose phase is Pending; the
  model counts as loaded exactly in phase Running; an earlier error condition is left standing.
\<close>

theorem inference_reports:
  assumes "ie_get e = Found svc" and "due f svc" and "Factory_Get f (iss_Backend (is_Spec svc)) = Some b"
    and "Manager_Allocate (ie_gpu e) m (allocation_request svc) = (Ok res, m')"
    and "reconcileDeployment e (granted svc res) b = (Ok d, calls)" and "reconcileService e (granted svc res) b = (Ok (), calls')"
    and "ie_status e = None"
  shows "\<exists>ev st. Inference_Reconcile e f cm m = (Ok (requeue_after requeueAfter),
      ev # calls @ calls' @ [CallStatusUpdate (svc\<lparr>is_Status := st\<rparr>)], m') \<and>
    (ist_Phase st = InferenceServicePhaseRunning \<longleftrightarrow> dp_AvailableReplicas d > 0 \<and> dp_AvailableReplicas d = do_Replicas (dp_Spec d)) \<and>
    (ist_Phase st = InferenceServicePhaseScaling \<longleftrightarrow> dp_AvailableReplicas d > 0 \<and> dp_AvailableReplicas d \<noteq> do_Replicas (dp_Spec d)) \<and>
    (ist_Phase st = InferenceServicePhaseInitializing \<longleftrightarrow> dp_AvailableReplicas d \<le> 0 \<and> dp_UnavailableReplicas d > 0) \<and>
    (ist_Phase st = InferenceServicePhasePending \<longleftrightarrow> dp_AvailableReplicas d \<le> 0 \<and> dp_UnavailableReplicas d \<le> 0) \<and>
    ist_ReadyReplicas st = dp_ReadyReplicas d \<and> ist_AvailableReplicas st = dp_AvailableReplicas d \<and>
    map_option c_Status (cond_of (ist_Conditions st) ''Ready'') = Some (dp_AvailableReplicas d = do_Replicas (dp_Spec d)) \<and>
    map_option c_Status (cond_of (ist_Conditions st) ''ModelLoaded'') = Some (ist_Phase st = InferenceServicePhaseRunning) \<and>
    cond_of (ist_Conditions st) ''Error'' = cond_of (ist_Conditions (is_Status svc)) ''Error''"
  using Inference_Reconcile_granted [OF assms(1-4)] reconcile_objects_ok [OF assms(5-7)] inference_status_of [of e "granted svc res" d]
  by (intro exI [of _ "inference_status e (granted svc res) (Some d)"] exI) (auto simp: inference_phase_def granted_def inference_status_kept)

theorem inference_reports_witness:
  "\<exists>st calls m'. Inference_Reconcile (is_demo_env (is_demo ''vllm'' ''mig'' None) (\<lambda>x. x) NotFound NotFound) operator_factory
      (NewCacheManager :: PrefixCache CacheManager) gm_mig =
     (Ok (requeue_after requeueAfter), calls @ [CallStatusUpdate ((is_demo ''vllm'' ''mig'' None)\<lparr>is_Status := st\<rparr>)], m') \<and>
     ist_Phase st = InferenceServicePhasePending"
proof -
  let ?svc = "is_demo ''vllm'' ''mig'' None"
  let ?e = "is_demo_env ?svc (\<lambda>x. x) NotFound NotFound"
  have g: "ie_get ?e = Found ?svc" "ie_gpu ?e = gm_demo_env" "ie_status ?e = None" by (simp_all add: is_demo_env_def)
  have due: "due operator_factory ?svc" by code_simp
  have f: "Factory_Get operator_factory (iss_Backend (is_Spec ?svc)) = Some VLLMBackend"
    by (simp add: operator_factory_get backend_type_defs is_demo_def)
  obtain res m' where a: "Manager_Allocate (ie_gpu ?e) gm_mig (allocation_request ?svc) = (Ok res, m')"
    using is_demo_granted [of "''vllm''"] g(2) by auto
  let ?svc' = "granted ?svc res"
  have "VLLM_Validate ?svc = Ok ()" by code_simp
  then have "b_Validate VLLMBackend ?svc' = Ok ()" using operator_validate_spec [OF f, of ?svc' ?svc] by (simp add: VLLMBackend_def)
  then have r: "b_GenerateDeployment VLLMBackend (ie_args ?e) ?svc' = Ok (vllm_deployment (ie_args ?e) ?svc')"
    by (simp add: VLLMBackend_def VLLM_GenerateDeployment_def)
  obtain s where s: "b_GenerateService VLLMBackend ?svc' = Ok s" using vllm.generate_service by blast
  let ?d = "deployment_object ?svc' (vllm_deployment (ie_args ?e) ?svc')"
  obtain calls where d: "reconcileDeployment ?e ?svc' VLLMBackend = (Ok ?d, calls)"
    using r by (simp add: reconcileDeployment_def is_demo_env_def Let_def)
  obtain calls' where v: "reconcileService ?e ?svc' VLLMBackend = (Ok (), calls')"
    using s by (simp add: reconcileService_def is_demo_env_def Let_def)
  from inference_reports [OF g(1) due f a d v g(3), of "NewCacheManager :: PrefixCache CacheManager"] obtain ev st where st:
      "Inference_Reconcile ?e operator_factory (NewCacheManager :: PrefixCache CacheManager) gm_mig =
        (Ok (requeue_after requeueAfter), ev # calls @ calls' @ [CallStatusUpdate (?svc\<lparr>is_Status := st\<rparr>)], m')"
      "ist_Phase st = InferenceServicePhasePending \<longleftrightarrow> dp_AvailableReplicas ?d \<le> 0 \<and> dp_UnavailableReplicas ?d \<le> 0" by blast
  have "ist_Phase st = InferenceServicePhasePending" using st(2) by (simp add: deployment_object_def)
  with st(1) show ?thesis by (intro exI [of _ st] exI [of _ "ev # calls @ calls'"] exI [of _ m']) simp
qed

text \<open>
  An unchanged service can be rolled out again and again: the extra arguments of the vLLM backend
  are rendered in the order of a \<open>range\<close> loop, so with two of them a reconciliation that happens to
  visit them the other way round finds the stored deployment different from the one it renders, and
  updates it. All that is used of the comparison is that it tells different arguments apart.
\<close>

theorem inference_flaps:
  assumes "iss_BackendConfig (is_Spec svc) = Some bc" and "gm_ok (bc_ExtraArgs bc)" and "2 \<le> length (bc_ExtraArgs bc)"
    and "VLLM_Validate svc = Ok ()" and "args_compared (ie_same_deployment e)"
    and "ie_dep_owner e = None" and "ie_dep_get e = Found found" and "ie_args e = rev"
    and "dp_Spec found = dp_Spec (deployment_object svc (vllm_deployment (\<lambda>x. x) svc))"
  shows "\<exists>found' calls. snd (reconcileDeployment e svc VLLMBackend) = CallUpdateOwned (ISDeployment found') # calls \<and>
    map ct_Args (do_Containers (dp_Spec found')) \<noteq> map ct_Args (do_Containers (dp_Spec found))"
proof -
  let ?d = "deployment_object svc (vllm_deployment rev svc)"
  have g: "b_GenerateDeployment VLLMBackend (ie_args e) svc = Ok (vllm_deployment rev svc)"
    using assms(4,8) by (simp add: VLLMBackend_def VLLM_GenerateDeployment_def)
  have ne: "map ct_Args (do_Containers (dp_Spec ?d)) \<noteq> map ct_Args (do_Containers (dp_Spec found))"
    using vllm_args_order [OF assms(1-3)] assms(9) by (simp add: deployment_object_def vllm_deployment_def)
  then have "\<not> ie_same_deployment e (dp_Spec found) (dp_Spec ?d)" using assms(5) unfolding args_compared_def by metis
  then show ?thesis using g assms(6,7) ne by (simp add: reconcileDeployment_def Let_def split: option.split)
qed

theorem inference_flaps_witness:
  "\<exists>found' calls. snd (reconcileDeployment (is_demo_env (is_demo ''vllm'' ''mig'' (Some bc_demo)) rev
       (Found (deployment_object (is_demo ''vllm'' ''mig'' (Some bc_demo)) (vllm_deployment (\<lambda>x. x) (is_demo ''vllm'' ''mig'' (Some bc_demo))))) NotFound)
     (is_demo ''vllm'' ''mig'' (Some bc_demo)) VLLMBackend) = CallUpdateOwned (ISDeployment found') # calls"
proof -
  let ?svc = "is_demo ''vllm'' ''mig'' (Some bc_demo)"
  let ?f = "deployment_object ?svc (vllm_deployment (\<lambda>x. x) ?svc)"
  let ?e = "is_demo_env ?svc rev (Found ?f) NotFound"
  have b: "iss_BackendConfig (is_Spec ?svc) = Some bc_demo" by (simp add: is_demo_def)
  have x: "gm_ok (bc_ExtraArgs bc_demo)" "2 \<le> length (bc_ExtraArgs bc_demo)" by (simp_all add: bc_demo_def)
  have v: "VLLM_Validate ?svc = Ok ()" by code_simp
  have e: "args_compared (ie_same_deployment ?e)" "ie_dep_owner ?e = None" "ie_dep_get ?e = Found ?f" "ie_args ?e = rev"
    by (simp_all add: is_demo_env_def args_compared_def)
  from inference_flaps [OF b x v e refl] show ?thesis by metis
qed

text \<open>
  C32. Deleting a service: the reconciliation reports the phase Terminating, drops the finalizer, and
  no GPU of the manager is left allocated to the service exclusively. What the MIG, MPS and time-slice
  managers gave it they keep as it was: after the deletion the service still holds all of it.
\<close>

theorem inference_deletion:
  assumes "ie_get e = Found svc" and "om_DeletionTimestamp (is_Meta svc) = Some t" and "ie_update e = None" and "gpu_ok m"
  shows "\<exists>svc1 svc2 ev m'. Inference_Reconcile e f cm m = (Ok done_result, [CallStatusUpdate svc1, ev, CallUpdate svc2], m') \<and>
    ist_Phase (is_Status svc1) = InferenceServicePhaseTerminating \<and> \<not> ContainsFinalizer (is_Meta svc2) inferenceServiceFinalizer \<and>
    list_all (\<lambda>(k, p). list_all (\<lambda>a. \<not> (al_ServiceRef a = is_Name svc \<and> al_Namespace a = is_Namespace svc)) (gi_Allocations (mg_heap m' ! p))) (mg_gpus m') \<and>
    mg_mig m' = mg_mig m \<and> mg_mps m' = mg_mps m \<and> mg_ts m' = mg_ts m"
proof -
  let ?m = "Manager_Release m (is_Name svc) (is_Namespace svc)"
  have "\<not> (al_ServiceRef a = is_Name svc \<and> al_Namespace a = is_Namespace svc)"
    if "(k, p) \<in> set (mg_gpus m)" "a \<in> set (gi_Allocations (mg_heap ?m ! p))" for k p a
  proof -
    have "p < length (mg_heap m)" using assms(4) that(1) by (auto simp: gpu_ok_def dest: ix_ok_ptr)
    moreover have "p \<in> set (gm_vals (mg_gpus m))" using that(1) by force
    ultimately have "mg_heap ?m ! p = drop_allocations (is_Name svc) (is_Namespace svc) (mg_heap m ! p)"
      by (simp add: Manager_Release_def nth_heap_upd drop_allocations_def)
    then show ?thesis using that(2) by (simp add: drop_allocations_def)
  qed
  then have free: "list_all (\<lambda>(k, p). list_all (\<lambda>a. \<not> (al_ServiceRef a = is_Name svc \<and> al_Namespace a = is_Namespace svc)) (gi_Allocations (mg_heap ?m ! p))) (mg_gpus ?m)"
    by (fastforce simp: list_all_iff Manager_Release_def)
  have "mg_mig ?m = mg_mig m" "mg_mps ?m = mg_mps m" "mg_ts ?m = mg_ts m" by (simp_all add: Manager_Release_def)
  then show ?thesis using assms(1-3) free
    by (simp add: Inference_Reconcile_def Inference_handleDeletion_def or_error_def Let_def ContainsFinalizer_def RemoveFinalizer_def)
qed

theorem inference_deletion_witness:
  "\<exists>m' r calls. Inference_Reconcile (is_demo_env ((is_demo ''vllm'' ''mig'' None)\<lparr>is_Meta := (is_Meta (is_demo ''vllm'' ''mig'' None))\<lparr>om_DeletionTimestamp := Some 9\<rparr>\<rparr>)
      (\<lambda>x. x) NotFound NotFound) operator_factory (NewCacheManager :: PrefixCache CacheManager) gm_mig_used = (r, calls, m') \<and>
    mig_holds (mg_mig m') ''s'' ''ns'' = 1"
proof -
  let ?svc = "(is_demo ''vllm'' ''mig'' None)\<lparr>is_Meta := (is_Meta (is_demo ''vllm'' ''mig'' None))\<lparr>om_DeletionTimestamp := Some 9\<rparr>\<rparr>"
  have g: "ie_get (is_demo_env ?svc (\<lambda>x. x) NotFound NotFound) = Found ?svc" "ie_update (is_demo_env ?svc (\<lambda>x. x) NotFound NotFound) = None"
    by (simp_all add: is_demo_env_def)
  have t: "om_DeletionTimestamp (is_Meta ?svc) = Some 9" by simp
  have ok: "gpu_ok gm_mig_used" unfolding gm_mig_used_def
    using Manager_Allocate_ok [OF gpu_reachable_ok [OF gm_mig_reachable] gm_demo_env_ok] by simp
  have "mig_holds (mg_mig gm_mig_used) ''s'' ''ns'' = 1" by code_simp
  with inference_deletion [OF g(1) t g(2) ok, of operator_factory "NewCacheManager :: PrefixCache CacheManager"] show ?thesis by metis
qed

end
