(* ===== verification/TokenCacheController.thy ===== *)
theory TokenCacheController
  imports Resources CacheManager
begin

text \<open>
  The TokenCache reconciler, \<open>internal/controller/tokencache_controller.go\<close>, on top of the cache
  manager. One reconciliation reads its environment \<open>tc_env\<close> (what the API answers, the clock, the
  tiers and their constructors), and yields the result, the calls it made and the new manager.
\<close>

section \<open>Kubernetes objects\<close>

record PersistentVolumeClaim =
  pvc_Name :: string
  pvc_Namespace :: string
  pvc_Labels :: "(string, string) gomap"
  pvc_AccessModes :: "string list"
  pvc_Requests :: ResourceList
  pvc_StorageClassName :: "string option"

record StatefulSet =
  sts_Name :: string
  sts_Namespace :: string
  sts_Labels :: "(string, string) gomap"
  sts_ServiceName :: string
  sts_Replicas :: int
  sts_MatchLabels :: "(string, string) gomap"
  sts_TemplateLabels :: "(string, string) gomap"
  sts_Containers :: "Container list"
  sts_VolumeClaimTemplates :: "PersistentVolumeClaim list"

record KubeService =
  ks_Name :: string
  ks_Namespace :: string
  ks_Labels :: "(string, string) gomap"
  ks_ClusterIP :: string
  ks_Selector :: "(string, string) gomap"
  ks_Ports :: "ServicePort list"

datatype tc_object = TCStatefulSet StatefulSet | TCService KubeService | TCClaim PersistentVolumeClaim

type_synonym tc_calls = "(TokenCache, tc_object) kube_call list"

text \<open>What the API answers about an object the reconciler wants to own: whether it can be owned, whether it exists, whether it can be created.\<close>

record owned_answers =
  oa_owner :: "string option"
  oa_get :: "unit api_get"
  oa_create :: "string option"

record ('e, 's) tc_env =
  tce_get :: "TokenCache api_get"
  tce_update :: "string option"
  tce_status :: "string option"
  tce_sts :: owned_answers
  tce_svc :: owned_answers
  tce_pvc :: owned_answers
  tce_now :: timestamp
  tce_mk :: "'s tier_makers"
  tce_ops :: "('e, 's) CacheTier"
  tce_tiers :: "nat \<Rightarrow> 'e"

section \<open>Rendering\<close>

definition tokenCacheFinalizer :: string where
  "tokenCacheFinalizer = ''inference.ai/tokencache-finalizer''"

definition tc_labels :: "string \<Rightarrow> TokenCache \<Rightarrow> (string, string) gomap" where
  "tc_labels component tc = [(''app.kubernetes.io/name'', tc_Name tc), (''app.kubernetes.io/component'', component),
     (''app.kubernetes.io/managed-by'', ''inference-operator'')]"

definition redis_selector :: "TokenCache \<Rightarrow> (string, string) gomap" where
  "redis_selector tc = [(''app.kubernetes.io/name'', tc_Name tc), (''app.kubernetes.io/component'', ''redis'')]"

definition tcp_probe :: "int \<Rightarrow> int \<Rightarrow> int \<Rightarrow> Probe" where
  "tcp_probe port delay period = \<lparr>pr_Handler = TCPSocket port, pr_InitialDelaySeconds = delay, pr_PeriodSeconds = period,
     pr_TimeoutSeconds = 0, pr_FailureThreshold = 0\<rparr>"

definition redis_statefulset :: "TokenCache \<Rightarrow> CacheTierSpec \<Rightarrow> StatefulSet" where
  "redis_statefulset tc tier =
    (let replicas = (case cts_RedisConfig tier of Some rc \<Rightarrow> if rcc_Replicas rc > 0 then rcc_Replicas rc else 1 | None \<Rightarrow> 1);
         persistent = (case cts_RedisConfig tier of Some rc \<Rightarrow> rcc_PersistenceEnabled rc | None \<Rightarrow> False);
         redis_size = NewQuantity (cts_Size tier)
     in \<lparr>sts_Name = tc_Name tc @ ''-redis'', sts_Namespace = om_Namespace (tc_Meta tc), sts_Labels = tc_labels ''redis'' tc,
         sts_ServiceName = tc_Name tc @ ''-redis'', sts_Replicas = replicas, sts_MatchLabels = redis_selector tc,
         sts_TemplateLabels = redis_selector tc,
         sts_Containers = [\<lparr>ct_Name = ''redis'', ct_Image = ''redis:7-alpine'', ct_Command = [],
           ct_Args = (if persistent then [''--appendonly'', ''yes'', ''--save'', ''60'', ''1''] else []), ct_Env = [],
           ct_Ports = [\<lparr>cp_Name = ''redis'', cp_ContainerPort = 6379, cp_Protocol = ProtocolTCP\<rparr>],
           ct_Resources = \<lparr>rr_Limits = [(ResourceCPU, MustParse ''500m''), (ResourceMemory, redis_size)],
             rr_Requests = [(ResourceCPU, MustParse ''100m''), (ResourceMemory, MustParse ''256Mi'')]\<rparr>,
           ct_VolumeMounts = (if persistent then [\<lparr>vm_Name = ''data'', vm_MountPath = ''/data''\<rparr>] else []),
           ct_ReadinessProbe = Some (tcp_probe 6379 5 10), ct_LivenessProbe = Some (tcp_probe 6379 15 20), ct_StartupProbe = None\<rparr>],
         sts_VolumeClaimTemplates = (if persistent then [\<lparr>pvc_Name = ''data'', pvc_Namespace = '''', pvc_Labels = [],
           pvc_AccessModes = [''ReadWriteOnce''], pvc_Requests = [(''storage'', redis_size)], pvc_StorageClassName = None\<rparr>] else [])\<rparr>)"

definition redis_service :: "TokenCache \<Rightarrow> KubeService" where
  "redis_service tc = \<lparr>ks_Name = tc_Name tc @ ''-redis'', ks_Namespace = om_Namespace (tc_Meta tc), ks_Labels = tc_labels ''redis'' tc,
     ks_ClusterIP = ''None'', ks_Selector = redis_selector tc,
     ks_Ports = [\<lparr>sp_Name = ''redis'', sp_Port = 6379, sp_TargetPort = 6379, sp_Protocol = ProtocolTCP\<rparr>]\<rparr>"

definition local_claim :: "TokenCache \<Rightarrow> CacheTierSpec \<Rightarrow> PersistentVolumeClaim" where
  "local_claim tc tier = \<lparr>pvc_Name = tc_Name tc @ ''-local-cache'', pvc_Namespace = om_Namespace (tc_Meta tc),
     pvc_Labels = tc_labels ''local-cache'' tc, pvc_AccessModes = [''ReadWriteOnce''],
     pvc_Requests = [(''storage'', NewQuantity (cts_Size tier))],
     pvc_StorageClassName = (case cts_LocalConfig tier of
        Some lc \<Rightarrow> if lcc_StorageClass lc \<noteq> '''' then Some (lcc_StorageClass lc) else None | None \<Rightarrow> None)\<rparr>"

section \<open>Reconciliation\<close>

fun validate_tiers :: "string list \<Rightarrow> CacheTierSpec list \<Rightarrow> (string, unit) outcome" where
  "validate_tiers tierNames [] = Ok ()"
| "validate_tiers tierNames (tier # tiers) =
    (if cts_Name tier = '''' then Err ''tier name is required''
     else if cts_Name tier \<in> set tierNames then Err (''duplicate tier name: '' @ cts_Name tier)
     else if cts_Size tier = 0 then Err (''tier size must be specified for tier: '' @ cts_Name tier)
     else validate_tiers (cts_Name tier # tierNames) tiers)"

definition TokenCache_validateSpec :: "TokenCache \<Rightarrow> (string, unit) outcome" where
  "TokenCache_validateSpec tc =
    (if tcs_Tiers (tc_Spec tc) = [] then Err ''at least one cache tier is required''
     else validate_tiers [] (tcs_Tiers (tc_Spec tc)))"

text \<open>Create an object unless it is there; the error, and the call.\<close>

definition create_owned :: "owned_answers \<Rightarrow> tc_object \<Rightarrow> string option \<times> tc_calls" where
  "create_owned a obj =
    (case oa_owner a of
       Some err \<Rightarrow> (Some err, [])
     | None \<Rightarrow> (case oa_get a of
         NotFound \<Rightarrow> (oa_create a, [CallCreate obj])
       | GetError err \<Rightarrow> (Some err, [])
       | Found _ \<Rightarrow> (None, [])))"

definition createRedisService :: "('e, 's) tc_env \<Rightarrow> TokenCache \<Rightarrow> string option \<times> tc_calls" where
  "createRedisService e tc = create_owned (tce_svc e) (TCService (redis_service tc))"

definition reconcileRedis :: "('e, 's) tc_env \<Rightarrow> TokenCache \<Rightarrow> string option \<times> tc_calls" where
  "reconcileRedis e tc =
    (case find (\<lambda>t. cts_Type t = CacheTierTypeRedis) (tcs_Tiers (tc_Spec tc)) of
       None \<Rightarrow> (None, [])
     | Some tier \<Rightarrow>
         if (case cts_RedisConfig tier of Some rc \<Rightarrow> rcc_ExternalEndpoint rc \<noteq> '''' | None \<Rightarrow> False) then (None, [])
         else let sts = redis_statefulset tc tier in
           (case create_owned (tce_sts e) (TCStatefulSet sts) of
              (Some err, calls) \<Rightarrow> (Some err, calls)
            | (None, []) \<Rightarrow> (None, [])
            | (None, calls) \<Rightarrow>
                (case createRedisService e tc of
                   (Some err, calls') \<Rightarrow> (Some err, calls @ calls')
                 | (None, calls') \<Rightarrow> (None, calls @ calls' @
                     [CallEvent event_normal ''RedisCreated'' (''Created Redis cluster '' @ sts_Name sts)]))))"

definition reconcileLocalStorage :: "('e, 's) tc_env \<Rightarrow> TokenCache \<Rightarrow> string option \<times> tc_calls" where
  "reconcileLocalStorage e tc =
    (case find (\<lambda>t. cts_Type t = CacheTierTypeLocal) (tcs_Tiers (tc_Spec tc)) of
       None \<Rightarrow> (None, [])
     | Some tier \<Rightarrow>
         if (case cts_LocalConfig tier of Some lc \<Rightarrow> lcc_UseRamDisk lc | None \<Rightarrow> False) then (None, [])
         else create_owned (tce_pvc e) (TCClaim (local_claim tc tier)))"

definition TokenCache_updateConditions :: "timestamp \<Rightarrow> TokenCacheSpec \<Rightarrow> TokenCacheStatus \<Rightarrow> TokenCacheStatus" where
  "TokenCache_updateConditions now spec st =
    (let cond = (\<lambda>t s r msg. \<lparr>c_Type = t, c_Status = s, c_LastTransitionTime = now, c_Reason = r, c_Message = msg\<rparr>);
         st1 = (if list_all cst_Ready (tst_Tiers st) \<and> tst_Tiers st \<noteq> []
                then st\<lparr>tst_Phase := TokenCachePhaseReady, tst_Conditions := setCondition (tst_Conditions st)
                       (cond ''Ready'' True ''AllTiersReady'' ''All cache tiers are ready'')\<rparr>
                else st\<lparr>tst_Conditions := setCondition (tst_Conditions st)
                       (cond ''Ready'' False ''TiersNotReady'' ''Not all cache tiers are ready'')\<rparr>)
     in if (case tcs_Warmup spec of Some w \<Rightarrow> wu_Enabled w | None \<Rightarrow> False)
        then st1\<lparr>tst_Conditions := setCondition (tst_Conditions st1)
          (case tst_WarmupStatus st1 of
             Some ws \<Rightarrow> if \<not> ws_InProgress ws then cond ''WarmupComplete'' True ''WarmupComplete'' ''Cache warmup completed''
               else cond ''WarmupComplete'' False ''WarmupInProgress'' (''Cache warmup in progress: '' @ itoa (ws_Progress ws) @ ''%'')
           | None \<Rightarrow> cond ''WarmupComplete'' False ''WarmupInProgress'' (''Cache warmup in progress: '' @ itoa 0 @ ''%''))\<rparr>
        else st1)"

definition cache_status_of :: "('e, 's) tc_env \<Rightarrow> TokenCache \<Rightarrow> 's CacheManager \<Rightarrow> TokenCacheStatus" where
  "cache_status_of e tc m =
    (let st = tc_Status tc;
         st1 = (case GetStatus (tce_ops e) m (tc_Name tc) of
                  Ok s \<Rightarrow> st\<lparr>tst_Phase := tst_Phase s, tst_TotalSize := tst_TotalSize s, tst_UsedSize := tst_UsedSize s,
                    tst_TotalEntries := tst_TotalEntries s, tst_OverallHitRate := tst_OverallHitRate s, tst_Tiers := tst_Tiers s,
                    tst_WarmupStatus := tst_WarmupStatus s\<rparr>
                | _ \<Rightarrow> st\<lparr>tst_Phase := TokenCachePhaseInitializing\<rparr>)
     in TokenCache_updateConditions (tce_now e) (tc_Spec tc)
          (st1\<lparr>tst_ObservedGeneration := om_Generation (tc_Meta tc), tst_LastSyncTime := Some (tce_now e)\<rparr>))"

definition TokenCache_updateStatusWithError :: "('e, 's) tc_env \<Rightarrow> TokenCache \<Rightarrow> string \<Rightarrow> 's CacheManager
    \<Rightarrow> (string, Result) outcome \<times> tc_calls \<times> 's CacheManager" where
  "TokenCache_updateStatusWithError e tc err m =
    (let st = tc_Status tc;
         tc' = tc\<lparr>tc_Status := st\<lparr>tst_Phase := TokenCachePhaseFailed,
           tst_Conditions := setCondition (tst_Conditions st) (error_condition (tce_now e) err)\<rparr>\<rparr>
     in (Ok (requeue_after (30 * second)), [CallStatusUpdate tc', CallEvent event_warning ''ReconcileError'' err], m))"

definition TokenCache_handleDeletion :: "('e, 's) tc_env \<Rightarrow> TokenCache \<Rightarrow> 's CacheManager
    \<Rightarrow> (string, Result) outcome \<times> tc_calls \<times> 's CacheManager" where
  "TokenCache_handleDeletion e tc m =
    (case CleanupCache (tce_ops e) (tce_tiers e) m (tc_Name tc) of
       (Panic, m') \<Rightarrow> (Panic, [], m')
     | (Blocked, m') \<Rightarrow> (Blocked, [], m')
     | (_, m') \<Rightarrow>
         (or_error (tce_update e) done_result,
          [CallEvent event_normal ''Deleted'' ''TokenCache deleted'',
           CallUpdate (tc\<lparr>tc_Meta := RemoveFinalizer (tc_Meta tc) tokenCacheFinalizer\<rparr>)], m'))"

text \<open>The texts of the errors that \<open>ConfigureCache\<close> returns.\<close>

fun cache_error_text :: "cache_error \<Rightarrow> string" where
  "cache_error_text (UnsupportedTier t) = ''unsupported tier type: '' @ t"
| "cache_error_text (CreateTierFailed n err) = ''failed to create tier '' @ n @ '': '' @ cache_error_text err"
| "cache_error_text (TierFailure msg) = msg"
| "cache_error_text (CacheNotFound n) = ''cache not found: '' @ n"
| "cache_error_text (KeyNotFound k) = ''key not found: '' @ k"
| "cache_error_text NoDefaultCache = ''no default cache configured''"
| "cache_error_text (UnhealthyTier n t) = ''unhealthy tier in cache '' @ n @ '': '' @ t"
| "cache_error_text _ = ''''"

definition TokenCache_Reconcile :: "('e, 's) tc_env \<Rightarrow> 's CacheManager \<Rightarrow> (string, Result) outcome \<times> tc_calls \<times> 's CacheManager" where
  "TokenCache_Reconcile e m =
    (case tce_get e of
       NotFound \<Rightarrow> (Ok done_result, [], m)
     | GetError err \<Rightarrow> (Err err, [], m)
     | Found tc \<Rightarrow>
         if om_DeletionTimestamp (tc_Meta tc) \<noteq> None then TokenCache_handleDeletion e tc m
         else if \<not> ContainsFinalizer (tc_Meta tc) tokenCacheFinalizer
         then (or_error (tce_update e) requeue_now,
               [CallUpdate (tc\<lparr>tc_Meta := AddFinalizer (tc_Meta tc) tokenCacheFinalizer\<rparr>)], m)
         else case TokenCache_validateSpec tc of
           Ok _ \<Rightarrow>
             (case ConfigureCache (tce_mk e) m tc of
                (Ok _, m') \<Rightarrow>
                  (or_error (tce_status e) (requeue_after (30 * second)),
                   snd (reconcileRedis e tc) @ snd (reconcileLocalStorage e tc) @
                     [CallStatusUpdate (tc\<lparr>tc_Status := cache_status_of e tc m'\<rparr>)], m')
              | (Err err, m') \<Rightarrow> TokenCache_updateStatusWithError e tc (cache_error_text err) m'
              | (Panic, m') \<Rightarrow> (Panic, [], m')
              | (Blocked, m') \<Rightarrow> (Blocked, [], m'))
         | Err err \<Rightarrow> TokenCache_updateStatusWithError e tc err m
         | Panic \<Rightarrow> (Panic, [], m)
         | Blocked \<Rightarrow> (Blocked, [], m))"

section \<open>Lemmas\<close>

lemma validate_tiers_Ok:
  "validate_tiers seen tiers = Ok () \<longleftrightarrow>
    '''' \<notin> set (map cts_Name tiers) \<and> distinct (map cts_Name tiers) \<and> set (map cts_Name tiers) \<inter> set seen = {} \<and> 0 \<notin> set (map cts_Size tiers)"
  by (induction tiers arbitrary: seen) auto

lemma validate_tiers_returns: "validate_tiers seen tiers = Ok () \<or> is_err (validate_tiers seen tiers)"
  by (induction tiers arbitrary: seen) auto

text \<open>A loop over the tiers whose errors are only logged returns none.\<close>

lemma each_tier_not_err: "\<not> is_err (fst (each_tier f i ts))"
proof (induction ts arbitrary: i)
  case (Cons t ts)
  obtain r ts' where "each_tier f (Suc i) ts = (r, ts')" by fastforce
  moreover from this have "\<not> is_err r" using Cons.IH [of "Suc i"] by simp
  ultimately show ?case by (simp split: prod.split outcome.split)
qed simp

text \<open>What a reconciliation does once the manager has taken the configuration.\<close>

lemma TokenCache_Reconcile_configures:
  assumes "tce_get e = Found tc" and "om_DeletionTimestamp (tc_Meta tc) = None"
    and "ContainsFinalizer (tc_Meta tc) tokenCacheFinalizer" and "TokenCache_validateSpec tc = Ok ()"
    and "ConfigureCache (tce_mk e) m tc = (Ok (), m')"
  shows "TokenCache_Reconcile e m = (or_error (tce_status e) (requeue_after (30 * second)),
    snd (reconcileRedis e tc) @ snd (reconcileLocalStorage e tc) @ [CallStatusUpdate (tc\<lparr>tc_Status := cache_status_of e tc m'\<rparr>)], m')"
  using assms by (simp add: TokenCache_Reconcile_def)

lemma create_tiers_prefix:
  assumes "list_all (\<lambda>t. cts_Type t = CacheTierTypePrefix) specs" and "mk_prefix mk = NewPrefixCache"
  shows "create_tiers mk n specs = Ok (map (\<lambda>spec. NewPrefixCache n (cts_Name spec) (cts_Size spec)
    (case cts_TTL spec of Some d \<Rightarrow> d | None \<Rightarrow> 0) (cts_PrefixConfig spec)) specs)"
  using assms by (induction specs) (simp_all add: createTier_def)

lemma NewPrefixCache_empty: "pc_live e (NewPrefixCache cn tn sz ttl config) k = None"
  by (simp add: pc_live_def get_lookup_def NewPrefixCache_def)

lemma ConfigureCache_prefix:
  assumes "list_all (\<lambda>t. cts_Type t = CacheTierTypePrefix) (tcs_Tiers (tc_Spec tc))" and "mk_prefix mk = NewPrefixCache"
  shows "\<exists>m' cfg. ConfigureCache mk m tc = (Ok (), m') \<and> gm_get (cm_caches m') (tc_Name tc) = Some cfg \<and>
    (\<forall>t \<in> set (cc_Tiers cfg). pc_ok t \<and> (\<forall>e k. pc_live e t k = None))"
  by (auto simp: ConfigureCache_def Let_def create_tiers_prefix [OF assms] gm_get_set NewPrefixCache_ok NewPrefixCache_empty)



lemma TokenCache_updateConditions_ready:
  "map_option c_Status (cond_of (tst_Conditions (TokenCache_updateConditions now spec st)) ''Ready'') =
    Some (list_all cst_Ready (tst_Tiers st) \<and> tst_Tiers st \<noteq> [])"
  unfolding TokenCache_updateConditions_def Let_def
  by (cases "tcs_Warmup spec"; cases "tst_WarmupStatus st"; cases "list_all cst_Ready (tst_Tiers st)"; cases "tst_Tiers st = []")
    (simp_all add: cond_status_set cond_of_setCondition_other del: map_option_eq_Some)

lemma TokenCache_updateConditions_warmup:
  assumes "tcs_Warmup spec = Some w" and "wu_Enabled w" and "tst_WarmupStatus st = None"
  shows "map_option c_Status (cond_of (tst_Conditions (TokenCache_updateConditions now spec st)) ''WarmupComplete'') = Some False"
  unfolding TokenCache_updateConditions_def Let_def using assms by (simp add: cond_status_set del: map_option_eq_Some)

lemma TokenCache_updateConditions_other:
  assumes "t \<noteq> ''Ready''" and "t \<noteq> ''WarmupComplete''"
  shows "cond_of (tst_Conditions (TokenCache_updateConditions now spec st)) t = cond_of (tst_Conditions st) t"
  unfolding TokenCache_updateConditions_def Let_def using assms
  by (cases "tcs_Warmup spec"; cases "tst_WarmupStatus st") (simp_all add: cond_of_setCondition_other)

lemma TokenCache_updateConditions_phase:
  "tst_Phase (TokenCache_updateConditions now spec st) =
    (if list_all cst_Ready (tst_Tiers st) \<and> tst_Tiers st \<noteq> [] then TokenCachePhaseReady else tst_Phase st)"
  unfolding TokenCache_updateConditions_def Let_def by simp

lemma GetStatus_configured:
  assumes "gm_get (cm_caches m) n = Some cfg"
  shows "\<exists>s. GetStatus ops m n = Ok s \<and> tst_WarmupStatus s = None \<and> tst_Tiers s = map (tier_status ops) (cc_Tiers cfg) \<and>
    tst_Phase s = (if list_all (op_Healthy ops) (cc_Tiers cfg) then TokenCachePhaseReady else TokenCachePhaseDegraded)"
  using assms by (simp add: GetStatus_def Let_def)

lemma list_all_tier_ready: "list_all cst_Ready (map (tier_status ops) ts) = list_all (op_Healthy ops) ts"
  by (induction ts) (simp_all add: tier_status_def)

lemma create_tiers_length: "create_tiers mk n specs = Ok ts \<Longrightarrow> length ts = length specs"
  by (induction specs arbitrary: ts) (auto split: outcome.splits)

lemma ConfigureCache_registers:
  assumes "ConfigureCache mk m tc = (Ok (), m')"
  shows "\<exists>cfg. gm_get (cm_caches m') (tc_Name tc) = Some cfg \<and> length (cc_Tiers cfg) = length (tcs_Tiers (tc_Spec tc))"
  using assms create_tiers_length by (auto simp: ConfigureCache_def Let_def gm_get_set split: outcome.splits)

text \<open>Every status it writes has well-formed conditions.\<close>

lemma owned_calls_no_status:
  "CallStatusUpdate x \<notin> set (snd (reconcileRedis e tc))" "CallStatusUpdate x \<notin> set (snd (reconcileLocalStorage e tc))"
  by (auto simp: reconcileRedis_def reconcileLocalStorage_def createRedisService_def create_owned_def Let_def
      split: option.splits api_get.splits list.splits prod.splits if_splits)

lemma TokenCache_conditions:
  assumes "tce_get e = Found tc" and "conds_ok (tst_Conditions (tc_Status tc))"
    and "CallStatusUpdate tc' \<in> set (fst (snd (TokenCache_Reconcile e m)))"
  shows "conds_ok (tst_Conditions (tc_Status tc'))"
proof -
  have "conds_ok (tst_Conditions (TokenCache_updateConditions now spec st))" if "conds_ok (tst_Conditions st)" for now spec st
    unfolding TokenCache_updateConditions_def Let_def using that by (auto intro!: inv_intros)
  then have "conds_ok (tst_Conditions (cache_status_of e tc m'))" for m'
    using assms(2) by (simp add: cache_status_of_def Let_def split: outcome.split)
  then show ?thesis using assms owned_calls_no_status(1) [of tc' e tc] owned_calls_no_status(2) [of tc' e tc]
    by (auto simp: TokenCache_Reconcile_def TokenCache_handleDeletion_def TokenCache_updateStatusWithError_def Let_def
        intro: inv_intros split: if_splits outcome.splits prod.splits)
qed

section \<open>TokenCaches as stored resources\<close>

definition tc_zero :: TokenCacheStatus where
  "tc_zero = \<lparr>tst_Phase = TokenCachePhaseUnset, tst_TotalSize = 0, tst_UsedSize = 0, tst_TotalEntries = 0,
     tst_OverallHitRate = Fin 0, tst_Tiers = [], tst_WarmupStatus = None, tst_Conditions = [], tst_LastSyncTime = None,
     tst_ObservedGeneration = 0\<rparr>"

definition tc_kind :: "(TokenCache, string \<times> string, TokenCacheSpec, TokenCacheStatus) kind" where
  "tc_kind = \<lparr>kd_key = (\<lambda>c. (om_Namespace (tc_Meta c), tc_Name c)), kd_meta = tc_Meta, kd_spec = tc_Spec, kd_status = tc_Status,
     kd_conditions = tst_Conditions, kd_zero = tc_zero, kd_finalizer = tokenCacheFinalizer\<rparr>"

definition tc_registered :: "'s CacheManager \<Rightarrow> string set" where
  "tc_registered m = {n. gm_has (cm_caches m) n}"

lemma tc_registered_configure:
  "tc_registered (snd (ConfigureCache mk m tc)) \<subseteq> insert (tc_Name tc) (tc_registered m)"
  by (auto simp: tc_registered_def ConfigureCache_def Let_def gm_has_def gm_get_set split: outcome.splits if_splits)

lemma tc_registered_put: "gm_has (cm_caches m) n \<Longrightarrow> tc_registered (put_tiers n cfg ts m) = tc_registered m"
  by (auto simp: tc_registered_def put_tiers_def gm_has_def gm_get_set)

lemma tc_registered_cleanup:
  assumes "CleanupCache ops e m n = (r, m')"
  shows "tc_registered m' \<subseteq> tc_registered m" and "r = Ok () \<or> is_err r \<Longrightarrow> n \<notin> tc_registered m'"
proof -
  have "tc_registered m' \<subseteq> tc_registered m \<and> (r = Ok () \<or> is_err r \<longrightarrow> n \<notin> tc_registered m')"
  proof (cases "gm_get (cm_caches m) n")
    case None
    then show ?thesis using assms by (auto simp: CleanupCache_def tc_registered_def gm_has_def)
  next
    case (Some cfg)
    obtain q ts where q: "each_tier (\<lambda>i t. op_Clear ops (e i) t) 0 (cc_Tiers cfg) = (q, ts)" by fastforce
    have "\<not> is_err q" using each_tier_not_err [of "\<lambda>i t. op_Clear ops (e i) t" 0 "cc_Tiers cfg"] q by simp
    moreover have "tc_registered (put_tiers n cfg ts m) = tc_registered m" using Some by (intro tc_registered_put) (simp add: gm_has_def)
    ultimately show ?thesis using assms Some q
      by (cases q) (auto simp: CleanupCache_def tc_registered_def gm_has_def gm_get_del split: if_splits)
  qed
  then show "tc_registered m' \<subseteq> tc_registered m" "r = Ok () \<or> is_err r \<Longrightarrow> n \<notin> tc_registered m'" by blast+
qed

lemma owned_calls_no_update:
  "CallUpdate x \<notin> set (snd (reconcileRedis e tc))" "CallUpdate x \<notin> set (snd (reconcileLocalStorage e tc))"
  by (auto simp: reconcileRedis_def reconcileLocalStorage_def createRedisService_def create_owned_def Let_def
      split: option.splits api_get.splits list.splits prod.splits if_splits)

lemma TokenCache_Reconcile_manager:
  assumes "tce_get e = Found v" and "TokenCache_Reconcile e m = (r, calls, m')"
  shows "m' = m \<or> ContainsFinalizer (tc_Meta v) tokenCacheFinalizer \<and> om_DeletionTimestamp (tc_Meta v) = None \<and>
      m' = snd (ConfigureCache (tce_mk e) m v) \<or>
    om_DeletionTimestamp (tc_Meta v) \<noteq> None \<and> m' = snd (CleanupCache (tce_ops e) (tce_tiers e) m (tc_Name v))"
  using assms by (auto simp: TokenCache_Reconcile_def TokenCache_handleDeletion_def TokenCache_updateStatusWithError_def Let_def
      split: if_splits outcome.splits prod.splits)

lemma TokenCache_Reconcile_update:
  assumes "tce_get e = Found v" and "TokenCache_Reconcile e m = (r, calls, m')" and "CallUpdate u \<in> set calls"
  shows "tc_Spec u = tc_Spec v \<and> (om_DeletionTimestamp (tc_Meta v) = None \<and> tc_Meta u = AddFinalizer (tc_Meta v) tokenCacheFinalizer \<or>
    om_DeletionTimestamp (tc_Meta v) \<noteq> None \<and> tc_Meta u = RemoveFinalizer (tc_Meta v) tokenCacheFinalizer \<and>
      tc_Name v \<notin> tc_registered m')"
proof (cases "om_DeletionTimestamp (tc_Meta v)")
  case None
  then show ?thesis using assms owned_calls_no_update(1) [of u e v] owned_calls_no_update(2) [of u e v]
    by (auto simp: TokenCache_Reconcile_def TokenCache_updateStatusWithError_def Let_def split: if_splits outcome.splits prod.splits)
next
  case (Some t)
  obtain q m1 where q: "CleanupCache (tce_ops e) (tce_tiers e) m (tc_Name v) = (q, m1)" by fastforce
  then show ?thesis using assms Some tc_registered_cleanup(2) [OF q]
    by (cases q) (auto simp: TokenCache_Reconcile_def TokenCache_handleDeletion_def)
qed

interpretation tc: reconciler tc_kind tce_get TokenCache_Reconcile tc_registered
proof
  fix e :: "('a, 'b) tc_env" and m v r calls m' u
  show "snd (TokenCache_Reconcile e m) = ([], m)" if "\<forall>v. tce_get e \<noteq> Found v"
    using that by (cases "tce_get e") (simp_all add: TokenCache_Reconcile_def)
  assume f: "tce_get e = Found v" "TokenCache_Reconcile e m = (r, calls, m')"
  show "kd_spec tc_kind u = kd_spec tc_kind v \<and>
      (kd_meta tc_kind u = AddFinalizer (kd_meta tc_kind v) (kd_finalizer tc_kind) \<and> \<not> deleting tc_kind v \<or>
       kd_meta tc_kind u = RemoveFinalizer (kd_meta tc_kind v) (kd_finalizer tc_kind) \<and> deleting tc_kind v \<and>
       om_Name (kd_meta tc_kind v) \<notin> tc_registered m')" if "CallUpdate u \<in> set calls"
    using TokenCache_Reconcile_update [OF f that] by (auto simp: tc_kind_def deleting_def)
  show "tc_registered m' \<subseteq> tc_registered m \<union> {n. n = om_Name (kd_meta tc_kind v) \<and> has_finalizer tc_kind v}"
    using TokenCache_Reconcile_manager [OF f] tc_registered_configure [of "tce_mk e" m v]
      tc_registered_cleanup(1) [OF prod.collapse [symmetric], of "tce_ops e" "tce_tiers e" m "tc_Name v"]
    by (auto simp: tc_kind_def has_finalizer_def subset_iff)
  show "conds_ok (kd_conditions tc_kind (kd_status tc_kind u))"
    if "CallStatusUpdate u \<in> set calls" "conds_ok (kd_conditions tc_kind (kd_status tc_kind v))"
    using TokenCache_conditions [OF f(1), of u m] that f(2) by (simp add: tc_kind_def)
qed

section \<open>Examples\<close>

definition tc_demo_tier :: "string \<Rightarrow> CacheTierType \<Rightarrow> CacheTierSpec" where
  "tc_demo_tier n t = \<lparr>cts_Name = n, cts_Type = t, cts_Size = 100, cts_TTL = Some 60, cts_Priority = 1,
     cts_RedisConfig = None, cts_LocalConfig = None, cts_PrefixConfig = None\<rparr>"

definition tc_demo :: "CacheTierSpec list \<Rightarrow> TokenCache" where
  "tc_demo tiers = \<lparr>tc_Meta = \<lparr>om_Name = ''c'', om_Namespace = ''ns'', om_Generation = 1, om_DeletionTimestamp = None,
       om_Finalizers = [tokenCacheFinalizer]\<rparr>,
     tc_Spec = \<lparr>tcs_Tiers = tiers, tcs_EvictionPolicy = ''lru'',
       tcs_Warmup = Some \<lparr>wu_Enabled = True, wu_CommonPrefixes = [''p''], wu_WarmupSchedule = '''', wu_SourceConfigMapRef = None\<rparr>,
       tcs_CoherencePolicy = ''write-through'', tcs_MetricsEnabled = True, tcs_MetricsPort = 9090\<rparr>,
     tc_Status = \<lparr>tst_Phase = TokenCachePhaseInitializing, tst_TotalSize = 0, tst_UsedSize = 0, tst_TotalEntries = 0,
       tst_OverallHitRate = Fin 0, tst_Tiers = [], tst_WarmupStatus = None, tst_Conditions = [], tst_LastSyncTime = None,
       tst_ObservedGeneration = 0\<rparr>\<rparr>"

definition tc_demo_mk :: "PrefixCache tier_makers" where
  "tc_demo_mk = \<lparr>mk_prefix = NewPrefixCache, mk_local = (\<lambda>c n sz ttl _. NewPrefixCache c n sz ttl None),
     mk_redis = (\<lambda>c n sz ttl _. Err (TierFailure ''no redis''))\<rparr>"

definition tc_demo_env :: "TokenCache \<Rightarrow> unit api_get \<Rightarrow> string option \<Rightarrow> (pc_env, PrefixCache) tc_env" where
  "tc_demo_env tc sts svc_create = \<lparr>tce_get = Found tc, tce_update = None, tce_status = None,
     tce_sts = \<lparr>oa_owner = None, oa_get = sts, oa_create = None\<rparr>,
     tce_svc = \<lparr>oa_owner = None, oa_get = NotFound, oa_create = svc_create\<rparr>,
     tce_pvc = \<lparr>oa_owner = None, oa_get = NotFound, oa_create = None\<rparr>,
     tce_now = 5, tce_mk = tc_demo_mk, tce_ops = prefix_tier, tce_tiers = (\<lambda>_. pc_at 2)\<rparr>"

section \<open>Properties\<close>

text \<open>
  The validation of a cache accepts exactly the specifications with at least one tier, where
  every tier has a name, no two have the same, and no size is zero.
\<close>

theorem tokencache_validate:
  "TokenCache_validateSpec tc = Ok () \<longleftrightarrow>
    tcs_Tiers (tc_Spec tc) \<noteq> [] \<and> '''' \<notin> set (map cts_Name (tcs_Tiers (tc_Spec tc))) \<and>
    distinct (map cts_Name (tcs_Tiers (tc_Spec tc))) \<and> 0 \<notin> set (map cts_Size (tcs_Tiers (tc_Spec tc)))"
  by (simp add: TokenCache_validateSpec_def validate_tiers_Ok)

text \<open>
  C34. What a reconciliation of a valid cache reports, once the manager has taken the configuration:
  the last call is a status update in which Ready is true, and the phase Ready, exactly when every
  tier is healthy, and the phase is Degraded otherwise; the condition that the warmup is complete
  is never true, however long the warmup has been over; an error condition of an earlier
  reconciliation stays as it was.
\<close>

theorem tokencache_reconcile_reports:
  assumes "tce_get e = Found tc" and "om_DeletionTimestamp (tc_Meta tc) = None"
    and "ContainsFinalizer (tc_Meta tc) tokenCacheFinalizer" and "TokenCache_validateSpec tc = Ok ()"
    and "ConfigureCache (tce_mk e) m tc = (Ok (), m')" and "tce_status e = None"
  shows "\<exists>calls st cfg. TokenCache_Reconcile e m =
      (Ok (requeue_after (30 * second)), calls @ [CallStatusUpdate (tc\<lparr>tc_Status := st\<rparr>)], m') \<and>
    gm_get (cm_caches m') (tc_Name tc) = Some cfg \<and>
    map_option c_Status (cond_of (tst_Conditions st) ''Ready'') = Some (list_all (op_Healthy (tce_ops e)) (cc_Tiers cfg)) \<and>
    tst_Phase st = (if list_all (op_Healthy (tce_ops e)) (cc_Tiers cfg) then TokenCachePhaseReady else TokenCachePhaseDegraded) \<and>
    (if case tcs_Warmup (tc_Spec tc) of Some w \<Rightarrow> wu_Enabled w | None \<Rightarrow> False
     then map_option c_Status (cond_of (tst_Conditions st) ''WarmupComplete'') = Some False else True) \<and>
    cond_of (tst_Conditions st) ''Error'' = cond_of (tst_Conditions (tc_Status tc)) ''Error''"
proof -
  obtain cfg where cfg: "gm_get (cm_caches m') (tc_Name tc) = Some cfg" "length (cc_Tiers cfg) = length (tcs_Tiers (tc_Spec tc))"
    using ConfigureCache_registers [OF assms(5)] by blast
  obtain s where s: "GetStatus (tce_ops e) m' (tc_Name tc) = Ok s" "tst_WarmupStatus s = None"
    "tst_Tiers s = map (tier_status (tce_ops e)) (cc_Tiers cfg)"
    "tst_Phase s = (if list_all (op_Healthy (tce_ops e)) (cc_Tiers cfg) then TokenCachePhaseReady else TokenCachePhaseDegraded)"
    using GetStatus_configured [OF cfg(1)] by blast
  have ne: "cc_Tiers cfg \<noteq> []" using cfg(2) assms(4) by (auto simp: TokenCache_validateSpec_def split: if_splits)
  let ?st = "cache_status_of e tc m'"
  have "map_option c_Status (cond_of (tst_Conditions ?st) ''Ready'') = Some (list_all (op_Healthy (tce_ops e)) (cc_Tiers cfg))"
    using s ne by (simp add: cache_status_of_def TokenCache_updateConditions_ready list_all_tier_ready del: map_option_eq_Some)
  moreover have "tst_Phase ?st = (if list_all (op_Healthy (tce_ops e)) (cc_Tiers cfg) then TokenCachePhaseReady else TokenCachePhaseDegraded)"
    using s ne by (simp add: cache_status_of_def TokenCache_updateConditions_phase list_all_tier_ready)
  moreover have "map_option c_Status (cond_of (tst_Conditions ?st) ''WarmupComplete'') = Some False"
    if "tcs_Warmup (tc_Spec tc) = Some w" "wu_Enabled w" for w
    using s that by (simp add: cache_status_of_def TokenCache_updateConditions_warmup [OF that] del: map_option_eq_Some)
  moreover have "cond_of (tst_Conditions ?st) ''Error'' = cond_of (tst_Conditions (tc_Status tc)) ''Error''"
    using s by (simp add: cache_status_of_def TokenCache_updateConditions_other)
  ultimately show ?thesis using TokenCache_Reconcile_configures [OF assms(1-5)] assms(6) cfg(1)
    by (intro exI [of _ "snd (reconcileRedis e tc) @ snd (reconcileLocalStorage e tc)"] exI [of _ ?st] exI [of _ cfg])
      (auto simp: or_error_def split: option.split)
qed

text \<open>
  C35. Every reconciliation empties the cache: it builds new tiers and installs them in place of
  those that serve requests, so that after the periodic reconciliation of an unchanged cache of
  prefix tiers no key is found any more, whatever the cache held.
\<close>

theorem tokencache_reconcile_forgets:
  assumes "tce_get e = Found tc" and "om_DeletionTimestamp (tc_Meta tc) = None"
    and "ContainsFinalizer (tc_Meta tc) tokenCacheFinalizer" and "TokenCache_validateSpec tc = Ok ()"
    and "list_all (\<lambda>t. cts_Type t = CacheTierTypePrefix) (tcs_Tiers (tc_Spec tc))" and "mk_prefix (tce_mk e) = NewPrefixCache"
  shows "fst (Cache_Get prefix_tier e' (snd (snd (TokenCache_Reconcile e m))) (tc_Name tc) k) = Err (KeyNotFound k)"
proof -
  obtain m' cfg where m': "ConfigureCache (tce_mk e) m tc = (Ok (), m')" "gm_get (cm_caches m') (tc_Name tc) = Some cfg"
    "\<forall>t \<in> set (cc_Tiers cfg). pc_ok t \<and> (\<forall>e k. pc_live e t k = None)" using ConfigureCache_prefix [OF assms(5,6)] by blast
  obtain ts where "get_tiers prefix_tier e' 0 (cc_Tiers cfg) k = (Ok None, ts)"
    using pm.get_absent_all [of "cc_Tiers cfg" e' 0 k] m'(3) by auto
  then show ?thesis using Cache_Get_miss [OF m'(2)] TokenCache_Reconcile_configures [OF assms(1-4) m'(1)] by simp
qed

theorem tokencache_reconcile_forgets_witness:
  "is_ok (fst (Cache_Get prefix_tier (\<lambda>_. pc_at 3) (cm_demo ''write-through'') ''c'' ''k'')) \<and>
   fst (Cache_Get prefix_tier (\<lambda>_. pc_at 3) (snd (snd (TokenCache_Reconcile
     (tc_demo_env (tc_demo [tc_demo_tier ''t0'' CacheTierTypePrefix]) NotFound None) (cm_demo ''write-through'')))) ''c'' ''k'') = Err (KeyNotFound ''k'')"
proof -
  let ?tc = "tc_demo [tc_demo_tier ''t0'' CacheTierTypePrefix]"
  let ?e = "tc_demo_env ?tc NotFound None"
  have g: "tce_get ?e = Found ?tc" "mk_prefix (tce_mk ?e) = NewPrefixCache" by (simp_all add: tc_demo_env_def tc_demo_mk_def)
  have v: "om_DeletionTimestamp (tc_Meta ?tc) = None" "ContainsFinalizer (tc_Meta ?tc) tokenCacheFinalizer"
    "TokenCache_validateSpec ?tc = Ok ()" "list_all (\<lambda>t. cts_Type t = CacheTierTypePrefix) (tcs_Tiers (tc_Spec ?tc))" by code_simp+
  have "fst (Cache_Get prefix_tier (\<lambda>_. pc_at 3) (snd (snd (TokenCache_Reconcile ?e (cm_demo ''write-through'')))) (tc_Name ?tc) ''k'') =
    Err (KeyNotFound ''k'')" by (rule tokencache_reconcile_forgets [OF g(1) v g(2)])
  moreover have "tc_Name ?tc = ''c''" by (simp add: tc_demo_def)
  moreover have "is_ok (fst (Cache_Get prefix_tier (\<lambda>_. pc_at 3) (cm_demo ''write-through'') ''c'' ''k''))" by code_simp
  ultimately show ?thesis by simp
qed

theorem tokencache_reconcile_reports_witness:
  "\<exists>calls st m'. TokenCache_Reconcile (tc_demo_env (tc_demo [tc_demo_tier ''t0'' CacheTierTypePrefix]) NotFound None) NewCacheManager =
      (Ok (requeue_after (30 * second)), calls @ [CallStatusUpdate ((tc_demo [tc_demo_tier ''t0'' CacheTierTypePrefix])\<lparr>tc_Status := st\<rparr>)], m') \<and>
    map_option c_Status (cond_of (tst_Conditions st) ''WarmupComplete'') = Some False"
proof -
  let ?tc = "tc_demo [tc_demo_tier ''t0'' CacheTierTypePrefix]"
  let ?e = "tc_demo_env ?tc NotFound None"
  have g: "tce_get ?e = Found ?tc" "tce_status ?e = None" "mk_prefix (tce_mk ?e) = NewPrefixCache"
    by (simp_all add: tc_demo_env_def tc_demo_mk_def)
  have v: "om_DeletionTimestamp (tc_Meta ?tc) = None" "ContainsFinalizer (tc_Meta ?tc) tokenCacheFinalizer"
    "TokenCache_validateSpec ?tc = Ok ()" "list_all (\<lambda>t. cts_Type t = CacheTierTypePrefix) (tcs_Tiers (tc_Spec ?tc))" by code_simp+
  obtain m' where m': "ConfigureCache (tce_mk ?e) NewCacheManager ?tc = (Ok (), m')"
    using ConfigureCache_prefix [OF v(4) g(3), of NewCacheManager] by blast
  have w: "case tcs_Warmup (tc_Spec ?tc) of Some w \<Rightarrow> wu_Enabled w | None \<Rightarrow> False" by (simp add: tc_demo_def)
  from tokencache_reconcile_reports [OF g(1) v(1-3) m' g(2)] show ?thesis unfolding if_P [OF w] by blast
qed

text \<open>A tier whose Redis the operator runs itself, and what its configuration asks for.\<close>

definition own_redis :: "CacheTierSpec \<Rightarrow> bool" where
  "own_redis tier = (case cts_RedisConfig tier of Some rc \<Rightarrow> rcc_ExternalEndpoint rc = [] | None \<Rightarrow> True)"

definition wants_persistence :: "CacheTierSpec \<Rightarrow> bool" where
  "wants_persistence tier = (case cts_RedisConfig tier of Some rc \<Rightarrow> rcc_PersistenceEnabled rc | None \<Rightarrow> False)"

text \<open>That a StatefulSet and a service belong together, and that its pods have what they mount.\<close>

definition redis_fits :: "TokenCache \<Rightarrow> CacheTierSpec \<Rightarrow> StatefulSet \<Rightarrow> KubeService \<Rightarrow> bool" where
  "redis_fits tc tier sts svc \<longleftrightarrow> sts_Namespace sts = om_Namespace (tc_Meta tc) \<and> ks_Namespace svc = om_Namespace (tc_Meta tc) \<and>
     sts_ServiceName sts = ks_Name svc \<and> ks_ClusterIP svc = ''None'' \<and>
     sts_MatchLabels sts = sts_TemplateLabels sts \<and> ks_Selector svc = sts_TemplateLabels sts \<and>
     1 \<le> sts_Replicas sts \<and> (\<forall>rc. cts_RedisConfig tier = Some rc \<and> 0 < rcc_Replicas rc \<longrightarrow> sts_Replicas sts = rcc_Replicas rc) \<and>
     (sts_VolumeClaimTemplates sts \<noteq> [] \<longleftrightarrow> wants_persistence tier) \<and>
     list_all (\<lambda>c. map vm_Name (ct_VolumeMounts c) = map pvc_Name (sts_VolumeClaimTemplates sts) \<and>
       list_all (\<lambda>p. list_ex (\<lambda>q. cp_ContainerPort q = sp_TargetPort p \<and> cp_Protocol q = sp_Protocol p) (ct_Ports c)) (ks_Ports svc))
       (sts_Containers sts)"

lemma redis_objects_fit: "redis_fits tc tier (redis_statefulset tc tier) (redis_service tc)"
  by (auto simp: redis_fits_def redis_statefulset_def redis_service_def wants_persistence_def Let_def split: option.split)

fun redis_call :: "(TokenCache, tc_object) kube_call \<Rightarrow> bool" where
  "redis_call (CallCreate (TCStatefulSet sts)) = True"
| "redis_call (CallCreate (TCService svc)) = True"
| "redis_call (CallUpdateOwned obj) = True"
| "redis_call _ = False"

lemma reconcileRedis_existing: "oa_get (tce_sts e) = Found x \<Longrightarrow> snd (reconcileRedis e tc) = []"
  by (simp add: reconcileRedis_def create_owned_def Let_def split: option.split)

lemma reconcileRedis_creates:
  assumes "find (\<lambda>t. cts_Type t = CacheTierTypeRedis) (tcs_Tiers (tc_Spec tc)) = Some tier" and "own_redis tier"
    and "oa_owner (tce_sts e) = None" and "oa_get (tce_sts e) = NotFound" and "oa_create (tce_sts e) = None"
    and "oa_owner (tce_svc e) = None" and "oa_get (tce_svc e) = NotFound"
  shows "\<exists>evs. snd (reconcileRedis e tc) =
    CallCreate (TCStatefulSet (redis_statefulset tc tier)) # CallCreate (TCService (redis_service tc)) # evs \<and> list_all (\<lambda>c. \<not> redis_call c) evs"
  using assms by (cases "cts_RedisConfig tier"; cases "oa_create (tce_svc e)")
    (simp_all add: reconcileRedis_def createRedisService_def create_owned_def own_redis_def Let_def)

lemma local_storage_no_redis: "list_all (\<lambda>c. \<not> redis_call c) (snd (reconcileLocalStorage e tc))"
  by (simp add: reconcileLocalStorage_def create_owned_def split: option.split api_get.split)

lemma TokenCache_no_redis_calls:
  assumes "oa_get (tce_sts e) = Found x"
  shows "list_all (\<lambda>c. \<not> redis_call c) (fst (snd (TokenCache_Reconcile e m)))"
  using local_storage_no_redis [of e]
  by (simp add: TokenCache_Reconcile_def TokenCache_handleDeletion_def TokenCache_updateStatusWithError_def Let_def
      reconcileRedis_existing [OF assms] split: api_get.split outcome.split prod.split)

text \<open>
  C36. The Redis of a cache with a Redis tier that names no external endpoint, whatever else its
  configuration says. A reconciliation that finds no StatefulSet creates one, and right after it its
  headless service, and the two belong together: the service carries the name the StatefulSet is governed
  by, both select exactly the labels of its pods, the pods open the ports of the service, there are as
  many as configured and at least one, and they mount exactly the volumes that are claimed, one where
  persistence is asked for and none otherwise. A failed creation of the service does not show in the
  result. And it only creates: as long as the StatefulSet exists, no reconciliation whatever creates or
  updates one or its service, so that the failed service is never made up for and a changed
  specification is never applied.
\<close>

theorem tokencache_redis:
  assumes "tce_get e = Found tc" and "om_DeletionTimestamp (tc_Meta tc) = None"
    and "ContainsFinalizer (tc_Meta tc) tokenCacheFinalizer" and "TokenCache_validateSpec tc = Ok ()"
    and "ConfigureCache (tce_mk e) m tc = (Ok (), m')"
    and "find (\<lambda>t. cts_Type t = CacheTierTypeRedis) (tcs_Tiers (tc_Spec tc)) = Some tier" and "own_redis tier"
    and "oa_owner (tce_sts e) = None" and "oa_get (tce_sts e) = NotFound" and "oa_create (tce_sts e) = None"
    and "oa_owner (tce_svc e) = None" and "oa_get (tce_svc e) = NotFound"
    and "oa_get (tce_sts e') = Found ()"
  shows "(\<exists>sts svc rest. TokenCache_Reconcile e m = (or_error (tce_status e) (requeue_after (30 * second)),
        CallCreate (TCStatefulSet sts) # CallCreate (TCService svc) # rest, m') \<and> redis_fits tc tier sts svc \<and>
      list_all (\<lambda>c. \<not> redis_call c) rest) \<and>
    list_all (\<lambda>c. \<not> redis_call c) (fst (snd (TokenCache_Reconcile e' m'')))"
  using TokenCache_Reconcile_configures [OF assms(1-5)] reconcileRedis_creates [OF assms(6-12)] local_storage_no_redis [of e tc]
    redis_objects_fit [of tc tier] TokenCache_no_redis_calls [OF assms(13), of m''] by force

definition tc_demo_redis :: CacheTierSpec where
  "tc_demo_redis = (tc_demo_tier ''r'' CacheTierTypeRedis)\<lparr>cts_RedisConfig := Some \<lparr>rcc_Replicas = 3, rcc_Mode = ''cluster'',
     rcc_ExternalEndpoint = [], rcc_PasswordSecretRef = None, rcc_MaxConnections = 0, rcc_ConnectionTimeout = None,
     rcc_PersistenceEnabled = True\<rparr>\<rparr>"

definition tc_demo_redis_env :: "TokenCache \<Rightarrow> unit api_get \<Rightarrow> string option \<Rightarrow> (pc_env, PrefixCache) tc_env" where
  "tc_demo_redis_env tc sts svc_create = (tc_demo_env tc sts svc_create)\<lparr>tce_mk :=
     tc_demo_mk\<lparr>mk_redis := (\<lambda>c n sz ttl _. Ok (NewPrefixCache c n sz ttl None))\<rparr>\<rparr>"

theorem tokencache_redis_witness:
  "\<exists>sts svc rest m'. TokenCache_Reconcile (tc_demo_redis_env (tc_demo [tc_demo_redis]) NotFound (Some ''quota'')) NewCacheManager =
      (Ok (requeue_after (30 * second)), CallCreate (TCStatefulSet sts) # CallCreate (TCService svc) # rest, m') \<and>
    sts_Replicas sts = 3 \<and> sts_VolumeClaimTemplates sts \<noteq> [] \<and>
    list_all (\<lambda>c. \<not> redis_call c) (fst (snd (TokenCache_Reconcile (tc_demo_redis_env (tc_demo [tc_demo_redis]) (Found ()) None) m')))"
proof -
  let ?tc = "tc_demo [tc_demo_redis]"
  let ?e = "tc_demo_redis_env ?tc NotFound (Some ''quota'')" and ?e' = "tc_demo_redis_env ?tc (Found ()) None"
  have e: "tce_get ?e = Found ?tc" "oa_owner (tce_sts ?e) = None" "oa_get (tce_sts ?e) = NotFound" "oa_create (tce_sts ?e) = None"
    "oa_owner (tce_svc ?e) = None" "oa_get (tce_svc ?e) = NotFound" "oa_get (tce_sts ?e') = Found ()" "tce_status ?e = None"
    by (simp_all add: tc_demo_redis_env_def tc_demo_env_def)
  have v: "om_DeletionTimestamp (tc_Meta ?tc) = None" "ContainsFinalizer (tc_Meta ?tc) tokenCacheFinalizer"
    "TokenCache_validateSpec ?tc = Ok ()" "own_redis tc_demo_redis" "wants_persistence tc_demo_redis" by code_simp+
  have t: "find (\<lambda>t. cts_Type t = CacheTierTypeRedis) (tcs_Tiers (tc_Spec ?tc)) = Some tc_demo_redis"
    by (simp add: tc_demo_def tc_demo_redis_def tc_demo_tier_def)
  have "is_ok (fst (ConfigureCache (tce_mk ?e) NewCacheManager ?tc))" by code_simp
  then obtain m' where m: "ConfigureCache (tce_mk ?e) NewCacheManager ?tc = (Ok (), m')" by (metis is_ok_iff prod.collapse old.unit.exhaust)
  from tokencache_redis [OF e(1) v(1-3) m t v(4) e(2-7), of m'] obtain sts svc rest where r:
      "TokenCache_Reconcile ?e NewCacheManager = (or_error (tce_status ?e) (requeue_after (30 * second)),
        CallCreate (TCStatefulSet sts) # CallCreate (TCService svc) # rest, m')" "redis_fits ?tc tc_demo_redis sts svc"
      "list_all (\<lambda>c. \<not> redis_call c) (fst (snd (TokenCache_Reconcile ?e' m')))" by blast
  have "sts_Replicas sts = 3 \<and> sts_VolumeClaimTemplates sts \<noteq> []"
    using r(2) v(5) by (simp add: redis_fits_def tc_demo_redis_def)
  then show ?thesis using r(1,3) e(8) by (auto simp: or_error_def)
qed

end
