(* ===== verification/Operator.thy ===== *)
theory Operator
  imports InferenceServiceController TokenCacheController
begin

text \<open>
  The operator as a whole, \<open>cmd/operator/main.go\<close>: how it is started, and its three reconcilers at
  work on shared managers and on the resources that the API server keeps, in any order, among
  whatever users do to the resources, background work and restarts. A reconciliation is one step:
  controller-runtime runs one at a time for each kind, the managers are behind their locks, and
  the API server orders the writes. In the reachable states of this theory users neither take the
  operator's finalizer off a resource nor write its status (\<open>user_write\<close>).
\<close>

section \<open>Start-up\<close>

text \<open>
  What the calls into controller-runtime return: an error, or none. \<open>se_signals i\<close> is the \<open>i\<close>-th
  call of \<open>ctrl.SetupSignalHandler\<close>, which may panic. Flags are left out; they only reach the options.
\<close>

record start_env =
  se_newManager :: "string option"
  se_signals :: "nat \<Rightarrow> (string, unit) outcome"
  se_inference :: "string option"
  se_gpupool :: "string option"
  se_tokencache :: "string option"
  se_healthz :: "string option"
  se_readyz :: "string option"
  se_run :: "string option"

record 's Managers =
  op_gpu :: Manager
  op_cache :: "'s CacheManager"
  op_factory :: BackendFactory

text \<open>\<open>os.Exit(1)\<close> with the message that was logged, unless there is no error.\<close>

definition or_exit :: "string option \<Rightarrow> string \<Rightarrow> (string, 'a) outcome \<Rightarrow> (string, 'a) outcome" where
  "or_exit err msg rest = (case err of Some _ \<Rightarrow> Err msg | None \<Rightarrow> rest)"

definition with_signals :: "start_env \<Rightarrow> nat \<Rightarrow> (string, 'a) outcome \<Rightarrow> (string, 'a) outcome" where
  "with_signals e i rest = (case se_signals e i of Ok _ \<Rightarrow> rest | Err m \<Rightarrow> Err m | Panic \<Rightarrow> Panic | Blocked \<Rightarrow> Blocked)"

definition operator_managers :: "'s Managers" where
  "operator_managers = \<lparr>op_gpu = Manager_Start NewManager, op_cache = Cache_Start NewCacheManager, op_factory = operator_factory\<rparr>"

text \<open>
  \<open>main\<close>, up to the managers that \<open>mgr.Start\<close> runs the reconcilers with. Starting a manager fails in
  no case.
\<close>

definition operator_main :: "start_env \<Rightarrow> (string, 's Managers) outcome" where
  "operator_main e =
     or_exit (se_newManager e) ''unable to start manager'' (with_signals e 0
       (let gpuManager = Manager_Start NewManager in with_signals e 1
         (let cacheManager = Cache_Start NewCacheManager; backendFactory = operator_factory in
          or_exit (se_inference e) ''unable to create controller''
            (or_exit (se_gpupool e) ''unable to create controller''
              (or_exit (se_tokencache e) ''unable to create controller''
                (or_exit (se_healthz e) ''unable to set up health check''
                  (or_exit (se_readyz e) ''unable to set up ready check''
                    (with_signals e 2
                      (or_exit (se_run e) ''problem running manager''
                        (Ok \<lparr>op_gpu = gpuManager, op_cache = cacheManager, op_factory = backendFactory\<rparr>))))))))))"

lemma operator_main_Ok: "operator_main e = Ok s \<Longrightarrow> s = operator_managers"
  by (auto simp: operator_main_def operator_managers_def or_exit_def with_signals_def Let_def split: option.splits outcome.splits)

text \<open>
  \<open>SetupSignalHandler\<close> registers its handler once: it closes a channel of the package, and a second
  call panics.
\<close>

definition signals_once :: "start_env \<Rightarrow> bool" where
  "signals_once e \<longleftrightarrow> se_signals e 0 = Ok () \<and> (\<forall>i > 0. se_signals e i = Panic)"

section \<open>The state and its steps\<close>

record 's Operator =
  sys_managers :: "'s Managers"
  sys_pools :: "string \<Rightarrow> GPUPool option"
  sys_caches :: "string \<times> string \<Rightarrow> TokenCache option"
  sys_services :: "string \<times> string \<Rightarrow> InferenceService option"

abbreviation sys_gpu :: "'s Operator \<Rightarrow> Manager" where
  "sys_gpu s \<equiv> op_gpu (sys_managers s)"

abbreviation sys_cache :: "'s Operator \<Rightarrow> 's CacheManager" where
  "sys_cache s \<equiv> op_cache (sys_managers s)"

definition set_gpu :: "Manager \<Rightarrow> 's Operator \<Rightarrow> 's Operator" where
  "set_gpu m s = s\<lparr>sys_managers := (sys_managers s)\<lparr>op_gpu := m\<rparr>\<rparr>"

definition set_cache :: "'s CacheManager \<Rightarrow> 's Operator \<Rightarrow> 's Operator" where
  "set_cache m s = s\<lparr>sys_managers := (sys_managers s)\<lparr>op_cache := m\<rparr>\<rparr>"

text \<open>One reconciliation of each kind, of the object filed under a key.\<close>

definition pool_step :: "gp_env \<Rightarrow> string \<Rightarrow> 's Operator \<Rightarrow> gp_calls \<Rightarrow> 's Operator \<Rightarrow> bool" where
  "pool_step e n s calls s' \<longleftrightarrow> read_ok (sys_pools s n) (gpe_get e) \<and> cleanup_env_ok (gpe_cleanup e) \<and>
     (\<exists>r m x. GPUPool_Reconcile e (sys_gpu s) = (r, calls, m) \<and>
       api_write gp_kind (gpe_update e) (gpe_status e) calls (sys_pools s n) x \<and>
       s' = (set_gpu m s)\<lparr>sys_pools := (sys_pools s)(n := x)\<rparr>)"

definition cache_step :: "('e, 's) tc_env \<Rightarrow> string \<times> string \<Rightarrow> 's Operator \<Rightarrow> tc_calls \<Rightarrow> 's Operator \<Rightarrow> bool" where
  "cache_step e k s calls s' \<longleftrightarrow> read_ok (sys_caches s k) (tce_get e) \<and>
     (\<exists>r m x. TokenCache_Reconcile e (sys_cache s) = (r, calls, m) \<and>
       api_write tc_kind (tce_update e) (tce_status e) calls (sys_caches s k) x \<and>
       s' = (set_cache m s)\<lparr>sys_caches := (sys_caches s)(k := x)\<rparr>)"

definition service_step :: "is_env \<Rightarrow> string \<times> string \<Rightarrow> 's Operator \<Rightarrow> is_calls \<Rightarrow> 's Operator \<Rightarrow> bool" where
  "service_step e k s calls s' \<longleftrightarrow> read_ok (sys_services s k) (ie_get e) \<and> gpu_env_ok (ie_gpu e) \<and>
     (\<exists>r m x. Inference_Reconcile e (op_factory (sys_managers s)) (sys_cache s) (sys_gpu s) = (r, calls, m) \<and>
       api_write is_kind (ie_update e) (ie_status e) calls (sys_services s k) x \<and>
       s' = (set_gpu m s)\<lparr>sys_services := (sys_services s)(k := x)\<rparr>)"

text \<open>
  \<open>ops\<close> and \<open>mk\<close> are the calls and the constructors of the cache tiers. \<open>tiers\<close> stands for whatever the
  tiers of a cache do in the background; \<open>restart\<close> for the end of the process and a new start over
  the same resources. The steps are those of an operator that got through its start-up.
\<close>

inductive operator_step :: "('e, 's) CacheTier \<Rightarrow> 's tier_makers \<Rightarrow> 's Operator \<Rightarrow> 's Operator \<Rightarrow> bool"
  for ops :: "('e, 's) CacheTier" and mk :: "'s tier_makers" where
  user_pool: "user_write gp_kind n (sys_pools s n) x \<Longrightarrow> operator_step ops mk s (s\<lparr>sys_pools := (sys_pools s)(n := x)\<rparr>)"
| user_cache: "user_write tc_kind k (sys_caches s k) y \<Longrightarrow> operator_step ops mk s (s\<lparr>sys_caches := (sys_caches s)(k := y)\<rparr>)"
| user_service: "user_write is_kind k (sys_services s k) z \<Longrightarrow> operator_step ops mk s (s\<lparr>sys_services := (sys_services s)(k := z)\<rparr>)"
| reconcile_pool: "pool_step pe n s pcalls s' \<Longrightarrow> operator_step ops mk s s'"
| reconcile_cache: "tce_ops ce = ops \<Longrightarrow> tce_mk ce = mk \<Longrightarrow> cache_step ce k s ccalls s' \<Longrightarrow> operator_step ops mk s s'"
| reconcile_service: "service_step se k s scalls s' \<Longrightarrow> operator_step ops mk s s'"
| scheduler: "operator_step ops mk s (set_gpu ((sys_gpu s)\<lparr>mg_ts := runScheduler es (mg_ts (sys_gpu s))\<rparr>) s)"
| task: "cm_tasks (sys_cache s) = ts @ t # ts' \<Longrightarrow>
    operator_step ops mk s (set_cache (snd (run_task ops ev t ((sys_cache s)\<lparr>cm_tasks := ts @ ts'\<rparr>))) s)"
| tiers: "gm_get (cm_caches (sys_cache s)) n = Some cfg \<Longrightarrow> operator_step ops mk s (set_cache (put_tiers n cfg ts (sys_cache s)) s)"
| restart: "operator_step ops mk s (s\<lparr>sys_managers := operator_managers\<rparr>)"

inductive operator_reachable :: "('e, 's) CacheTier \<Rightarrow> 's tier_makers \<Rightarrow> 's Operator \<Rightarrow> bool"
  for ops :: "('e, 's) CacheTier" and mk :: "'s tier_makers" where
  start: "operator_reachable ops mk
    \<lparr>sys_managers = operator_managers, sys_pools = (\<lambda>_. None), sys_caches = (\<lambda>_. None), sys_services = (\<lambda>_. None)\<rparr>"
| step: "operator_reachable ops mk s \<Longrightarrow> operator_step ops mk s s' \<Longrightarrow> operator_reachable ops mk s'"

section \<open>The invariant\<close>

definition operator_ok :: "'s Operator \<Rightarrow> bool" where
  "operator_ok s \<longleftrightarrow> gpu_reachable (sys_gpu s) \<and> op_factory (sys_managers s) = operator_factory \<and>
     store_ok gp_kind (sys_pools s) \<and> registered_ok gp_kind (gp_registered (sys_gpu s)) (sys_pools s) \<and>
     (\<forall>n pool. sys_pools s n = Some pool \<longrightarrow> gst_AllocatedGPUs (gp_Status pool) = 0) \<and>
     store_ok tc_kind (sys_caches s) \<and> registered_ok tc_kind (tc_registered (sys_cache s)) (sys_caches s) \<and>
     store_ok is_kind (sys_services s)"

lemma operator_okD:
  assumes "operator_ok s"
  shows "gpu_reachable (sys_gpu s)" "op_factory (sys_managers s) = operator_factory" "store_ok gp_kind (sys_pools s)"
    "registered_ok gp_kind (gp_registered (sys_gpu s)) (sys_pools s)"
    "sys_pools s n = Some pool \<Longrightarrow> gst_AllocatedGPUs (gp_Status pool) = 0"
    "store_ok tc_kind (sys_caches s)" "registered_ok tc_kind (tc_registered (sys_cache s)) (sys_caches s)"
    "store_ok is_kind (sys_services s)"
  using assms by (simp_all add: operator_ok_def)

lemma set_managers_simps [simp]:
  "sys_gpu (set_gpu m s) = m" "sys_cache (set_gpu m s) = sys_cache s" "op_factory (sys_managers (set_gpu m s)) = op_factory (sys_managers s)"
  "sys_gpu (set_cache c s) = sys_gpu s" "sys_cache (set_cache c s) = c" "op_factory (sys_managers (set_cache c s)) = op_factory (sys_managers s)"
  "sys_pools (set_gpu m s) = sys_pools s" "sys_caches (set_gpu m s) = sys_caches s" "sys_services (set_gpu m s) = sys_services s"
  "sys_pools (set_cache c s) = sys_pools s" "sys_caches (set_cache c s) = sys_caches s" "sys_services (set_cache c s) = sys_services s"
  by (simp_all add: set_gpu_def set_cache_def)

lemma zero_conds [simp]:
  "conds_ok (kd_conditions gp_kind (kd_zero gp_kind))" "conds_ok (kd_conditions tc_kind (kd_zero tc_kind))"
  "conds_ok (kd_conditions is_kind (kd_zero is_kind))"
  by (simp_all add: gp_kind_def gp_zero_def tc_kind_def tc_zero_def is_kind_def is_zero_def conds_ok_def)

lemma started_managers:
  "gpu_reachable (op_gpu operator_managers)" "gp_registered (op_gpu operator_managers) = {}"
  "tc_registered (op_cache operator_managers) = {}" "op_factory operator_managers = operator_factory"
  using gpu_reachable.step [OF gpu_reachable.new gpu_step.start]
  by (simp_all add: operator_managers_def gp_registered_def tc_registered_def Manager_Start_def NewManager_def Cache_Start_def NewCacheManager_def gm_has_def)

text \<open>The number of allocated GPUs that a pool reports stays zero.\<close>

lemma pool_allocated:
  assumes "read_ok v (gpe_get e)" and "GPUPool_Reconcile e m = (r, calls, m')"
    and "api_write gp_kind (gpe_update e) (gpe_status e) calls v x" and "x = Some pool"
    and "\<And>p. v = Some p \<Longrightarrow> gst_AllocatedGPUs (gp_Status p) = 0"
  shows "gst_AllocatedGPUs (gp_Status pool) = 0"
proof -
  obtain p where p: "v = Some p" "gp_Status pool = gp_Status p \<or> (\<exists>u. CallStatusUpdate u \<in> set calls \<and> gp_Status pool = gp_Status u)"
    using assms(3,4) by (auto simp: api_write_def gp_kind_def split: option.splits)
  show ?thesis
  proof (cases "gpe_get e")
    case (Found q)
    then have "q = p" using assms(1) p(1) by simp
    then show ?thesis using p assms(5) [OF p(1)] GPUPool_Reconcile_allocated [OF Found assms(2)] by auto
  qed (use gp.no_object [of e m] assms(1,2,5) p in auto)
qed

text \<open>A service only allocates and releases: the registered pools stay.\<close>

lemma Manager_Allocate_pools: "mg_pools (snd (Manager_Allocate e m req)) = mg_pools m"
proof -
  have "mg_pools (snd (dispatch e m req pool)) = mg_pools m" for pool
    by (simp add: dispatch_def allocateExclusive_def Let_def split_beta)
  then have "dispatch e m req pool = (r, m') \<Longrightarrow> mg_pools m' = mg_pools m" for pool r m' by (metis snd_conv)
  then show ?thesis by (auto simp: Manager_Allocate_def split: option.split prod.split outcome.split)
qed

lemma Inference_Reconcile_pools:
  assumes "Inference_Reconcile e f cm m = (r, calls, m')"
  shows "gp_registered m' = gp_registered m"
proof (cases "ie_get e")
  case (Found v)
  then show ?thesis using Inference_Reconcile_manager_cases [OF Found assms]
    by (auto simp: gp_registered_def Manager_Release_def Manager_Allocate_pools)
qed (use isr.no_object [of e f cm m] assms in auto)

text \<open>Background work on the caches leaves the set of configured caches as it is.\<close>

lemma tc_registered_tasks: "tc_registered (m\<lparr>cm_tasks := ts\<rparr>) = tc_registered m"
  by (simp add: tc_registered_def)

lemma tc_registered_task: "tc_registered (snd (run_task ops ev t (m\<lparr>cm_tasks := ts\<rparr>))) = tc_registered m"
proof (cases t)
  case (Promote cid current key en)
  have "gm_has (cm_caches m) n" if "find (\<lambda>(n, cfg). cc_Id cfg = cid) (cm_caches m) = Some (n, cfg)" for n cfg
    using find_Some_in [OF that] by (force simp: gm_has_def map_of_eq_None_iff)
  then show ?thesis using Promote by (auto simp: tc_registered_put tc_registered_tasks split: option.split prod.split)
next
  case (Warmup n prefixes)
  then show ?thesis
    by (auto simp: warmupCache_def tc_registered_put tc_registered_tasks gm_has_def split: option.split prod.split)
qed

lemma pool_step_ok:
  assumes "pool_step e n s calls s'" and "operator_ok s"
  shows "operator_ok s'"
proof -
  note d = operator_okD [OF assms(2)]
  from assms(1) obtain r m x where p: "read_ok (sys_pools s n) (gpe_get e)" "cleanup_env_ok (gpe_cleanup e)"
    "GPUPool_Reconcile e (sys_gpu s) = (r, calls, m)" "api_write gp_kind (gpe_update e) (gpe_status e) calls (sys_pools s n) x"
    "s' = (set_gpu m s)\<lparr>sys_pools := (sys_pools s)(n := x)\<rparr>" by (auto simp: pool_step_def)
  have "gst_AllocatedGPUs (gp_Status pool) = 0" if "x = Some pool" for pool
    by (rule pool_allocated [OF p(1,3,4) that d(5)])
  then show ?thesis using gp.reconcile_store_ok [OF d(3) p(1,3,4)] gp.reconcile_registered_ok [OF d(4) p(1,3,4)]
      GPUPool_Reconcile_reachable [OF d(1) p(2,3)] d p(5) by (auto simp: operator_ok_def)
qed

lemma cache_step_ok:
  assumes "cache_step e k s calls s'" and "operator_ok s"
  shows "operator_ok s'"
proof -
  note d = operator_okD [OF assms(2)]
  from assms(1) obtain r m x where p: "read_ok (sys_caches s k) (tce_get e)" "TokenCache_Reconcile e (sys_cache s) = (r, calls, m)"
    "api_write tc_kind (tce_update e) (tce_status e) calls (sys_caches s k) x"
    "s' = (set_cache m s)\<lparr>sys_caches := (sys_caches s)(k := x)\<rparr>" by (auto simp: cache_step_def)
  then show ?thesis using tc.reconcile_store_ok [OF d(6) p(1-3)] tc.reconcile_registered_ok [OF d(7) p(1-3)] d
    by (auto simp: operator_ok_def)
qed

lemma service_step_ok:
  assumes "service_step e k s calls s'" and "operator_ok s"
  shows "operator_ok s'"
proof -
  note d = operator_okD [OF assms(2)]
  from assms(1) obtain r m x where p: "read_ok (sys_services s k) (ie_get e)" "gpu_env_ok (ie_gpu e)"
    "Inference_Reconcile e (op_factory (sys_managers s)) (sys_cache s) (sys_gpu s) = (r, calls, m)"
    "api_write is_kind (ie_update e) (ie_status e) calls (sys_services s k) x"
    "s' = (set_gpu m s)\<lparr>sys_services := (sys_services s)(k := x)\<rparr>" by (auto simp: service_step_def)
  have "gp_registered m = gp_registered (sys_gpu s)" by (rule Inference_Reconcile_pools [OF p(3)])
  then show ?thesis using isr.reconcile_store_ok [OF d(8) p(1,3,4)] Inference_Reconcile_reachable [OF d(1) p(2,3)] d p(5)
    by (auto simp: operator_ok_def)
qed

lemma operator_step_ok: "operator_step ops mk s s' \<Longrightarrow> operator_ok s \<Longrightarrow> operator_ok s'"
proof (induction rule: operator_step.induct)
  case (user_pool n s x)
  note d = operator_okD [OF user_pool(2)]
  have "gst_AllocatedGPUs (gp_Status pool) = 0" if "x = Some pool" for pool
    using user_pool(1) that d(5) [of n] by (auto simp: user_write_def gp_kind_def gp_zero_def split: option.splits)
  then show ?case using user_write_ok [OF d(3,4) user_pool(1)] d by (auto simp: operator_ok_def)
next
  case (user_cache k s y)
  note d = operator_okD [OF user_cache(2)]
  show ?case using user_write_ok [OF d(6,7) user_cache(1)] d by (auto simp: operator_ok_def)
next
  case (user_service k s z)
  note d = operator_okD [OF user_service(2)]
  show ?case using user_write_ok(1) [OF d(8) store_ok_empty(2) user_service(1)] d by (auto simp: operator_ok_def)
next
  case (scheduler s es)
  note d = operator_okD [OF scheduler]
  show ?case using d gpu_reachable.step [OF d(1) gpu_step.schedule [of _ es]] by (auto simp: operator_ok_def gp_registered_def)
next
  case (task s ts t ts' ev)
  then show ?case by (simp add: operator_ok_def tc_registered_task)
next
  case (tiers s n cfg ts)
  then show ?case by (simp add: operator_ok_def tc_registered_put gm_has_def)
next
  case (restart s)
  then show ?case by (simp add: operator_ok_def started_managers)
qed (blast intro: pool_step_ok cache_step_ok service_step_ok)+

lemma operator_reachable_ok: "operator_reachable ops mk s \<Longrightarrow> operator_ok s"
proof (induction rule: operator_reachable.induct)
  case start
  show ?case by (simp add: operator_ok_def started_managers)
next
  case (step s s')
  then show ?case by (blast intro: operator_step_ok)
qed

section \<open>One pool, one service\<close>

lemma pool_stepE:
  assumes "pool_step e n s calls s'"
  obtains r m x where "read_ok (sys_pools s n) (gpe_get e)" "cleanup_env_ok (gpe_cleanup e)"
    "GPUPool_Reconcile e (sys_gpu s) = (r, calls, m)" "api_write gp_kind (gpe_update e) (gpe_status e) calls (sys_pools s n) x"
    "s' = (set_gpu m s)\<lparr>sys_pools := (sys_pools s)(n := x)\<rparr>"
  using assms by (auto simp: pool_step_def)

text \<open>An accepted reconciliation of a pool that has no finalizer yet adds it and does nothing else.\<close>

lemma pool_step_adopts:
  assumes "pool_step e n s calls s'" and "gpe_get e = Found pool" and "om_DeletionTimestamp (gp_Meta pool) = None"
    and "\<not> ContainsFinalizer (gp_Meta pool) gpuPoolFinalizer" and "gpe_update e = None"
  shows "\<exists>pool'. sys_pools s' n = Some pool' \<and> gp_Spec pool' = gp_Spec pool \<and>
    gp_Meta pool' = AddFinalizer (gp_Meta pool) gpuPoolFinalizer"
  using assms(1)
proof (rule pool_stepE)
  fix r m x
  assume p: "read_ok (sys_pools s n) (gpe_get e)" "GPUPool_Reconcile e (sys_gpu s) = (r, calls, m)"
    "api_write gp_kind (gpe_update e) (gpe_status e) calls (sys_pools s n) x" "s' = (set_gpu m s)\<lparr>sys_pools := (sys_pools s)(n := x)\<rparr>"
  have "calls = [CallUpdate (pool\<lparr>gp_Meta := AddFinalizer (gp_Meta pool) gpuPoolFinalizer\<rparr>)]"
    using p(2) assms(2-4) by (simp add: GPUPool_Reconcile_def)
  then show ?thesis using p(1,3,4) assms(2,3,5)
    by (cases x) (auto simp: api_write_def gp_kind_def finalized_def deleting_def AddFinalizer_def split: if_splits)
qed

text \<open>An accepted reconciliation of a valid pool with the finalizer registers it and reports the phase Ready or Failed.\<close>

lemma RegisterPool_returns: "fst (RegisterPool scan m pool) = Ok () \<or> (\<exists>err. fst (RegisterPool scan m pool) = Err err)"
  by (auto simp: RegisterPool_def Let_def MIG_ConfigurePool_def MPS_ConfigurePool_def TS_ConfigurePool_def wrap_configure_def
      split: option.split)

lemma pool_step_registers:
  assumes "pool_step e n s calls s'" and "gpe_get e = Found pool" and "om_DeletionTimestamp (gp_Meta pool) = None"
    and "ContainsFinalizer (gp_Meta pool) gpuPoolFinalizer" and "GPUPool_validateSpec pool = Ok ()" and "gpe_status e = None"
  shows "\<exists>pool'. sys_pools s' n = Some pool' \<and> gp_Spec pool' = gp_Spec pool \<and> gp_Meta pool' = gp_Meta pool \<and>
    gm_has (mg_pools (sys_gpu s')) (gp_Name pool) \<and> gst_Phase (gp_Status pool') \<in> {GPUPoolPhaseReady, GPUPoolPhaseFailed}"
  using assms(1)
proof (rule pool_stepE)
  fix r m x
  assume p: "read_ok (sys_pools s n) (gpe_get e)" "GPUPool_Reconcile e (sys_gpu s) = (r, calls, m)"
    "api_write gp_kind (gpe_update e) (gpe_status e) calls (sys_pools s n) x" "s' = (set_gpu m s)\<lparr>sys_pools := (sys_pools s)(n := x)\<rparr>"
  obtain q m1 where q: "RegisterPool (gpe_scan e) (sys_gpu s) pool = (q, m1)" "q = Ok () \<or> (\<exists>err. q = Err err)"
    using RegisterPool_returns [of "gpe_scan e" "sys_gpu s" pool] by (metis prod.collapse)
  note reg = RegisterPool_registers [OF q(1)]
  have "m = m1 \<and> (\<exists>u. (calls = [CallStatusUpdate u] \<or> (\<exists>a b c. calls = [CallStatusUpdate u, CallEvent a b c])) \<and>
      gst_Phase (gp_Status u) \<in> {GPUPoolPhaseReady, GPUPoolPhaseFailed})"
    using p(2) assms(2-5) q pool_status_registered(1) [OF reg, of e]
    by (auto simp: GPUPool_Reconcile_def GPUPool_updateStatus_def GPUPool_updateStatusWithError_def Let_def)
  then obtain u where "m = m1" "\<forall>v. CallUpdate v \<notin> set calls" "CallStatusUpdate u \<in> set calls"
      "gst_Phase (gp_Status u) \<in> {GPUPoolPhaseReady, GPUPoolPhaseFailed}" by auto
  then show ?thesis using p(1,3,4) assms(2,6) reg
    by (cases x) (auto simp: api_write_def gp_kind_def gm_has_def)
qed

text \<open>Only a service whose GPUs were granted gets a deployment.\<close>

lemma deployment_needs_grant:
  assumes "ie_get e = Found svc" and "Inference_Reconcile e f cm m = (r, calls, m')"
    and "CallCreate (ISDeployment d) \<in> set calls \<or> CallUpdateOwned (ISDeployment d) \<in> set calls"
  shows "due f svc" and "is_ok (fst (Manager_Allocate (ie_gpu e) m (allocation_request svc)))"
proof -
  have "due f svc \<and> is_ok (fst (reconcileGPUAllocation e svc m))" using assms
    by (auto simp: Inference_Reconcile_def Inference_handleDeletion_def Inference_updateStatusWithError_def with_manager_def due_def
        reconcileGPUAllocation_def Let_def split: if_splits outcome.splits option.splits prod.splits)
  then show "due f svc" "is_ok (fst (Manager_Allocate (ie_gpu e) m (allocation_request svc)))"
    by (auto simp: reconcileGPUAllocation_def Let_def split: prod.splits outcome.splits)
qed

section \<open>Examples\<close>

definition op_pool :: GPUPool where
  "op_pool = gp_demo_pool\<lparr>gp_Meta := (gp_Meta gp_demo_pool)\<lparr>om_Finalizers := []\<rparr>, gp_Status := gp_zero\<rparr>"

definition op_pool1 :: GPUPool where
  "op_pool1 = op_pool\<lparr>gp_Meta := AddFinalizer (gp_Meta op_pool) gpuPoolFinalizer\<rparr>"

definition op_register :: Manager where
  "op_register = snd (RegisterPool (\<lambda>s x. x) (Manager_Start NewManager) op_pool1)"

definition op_pool2 :: GPUPool where
  "op_pool2 = op_pool1\<lparr>gp_Status := pool_status (gp_demo_env op_pool1) op_pool1 op_register\<rparr>"

definition op_pool3 :: GPUPool where
  "op_pool3 = op_pool2\<lparr>gp_Meta := (gp_Meta op_pool2)\<lparr>om_DeletionTimestamp := Some 9\<rparr>\<rparr>"

definition op_demo :: "Manager \<Rightarrow> GPUPool option \<Rightarrow> PrefixCache Operator" where
  "op_demo m x = \<lparr>sys_managers = operator_managers\<lparr>op_gpu := m\<rparr>, sys_pools = (\<lambda>_. None)(''p'' := x),
     sys_caches = (\<lambda>_. None), sys_services = (\<lambda>_. None)\<rparr>"

lemma op_demo_gpu: "sys_gpu (op_demo m x) = m" "sys_pools (op_demo m x) n = (if n = ''p'' then x else None)"
  by (simp_all add: op_demo_def)

lemma op_demo_user:
  assumes "user_write gp_kind ''p'' x y"
  shows "operator_step ops mk (op_demo m x) (op_demo m y)"
  using operator_step.user_pool [of "''p''" "op_demo m x" y ops mk] assms by (simp add: op_demo_def)

lemma op_demo_pool_step:
  assumes "GPUPool_Reconcile (gp_demo_env p) m = (r, calls, m')" and "api_write gp_kind None None calls (Some p) x"
  shows "pool_step (gp_demo_env p) ''p'' (op_demo m (Some p)) calls (op_demo m' x)"
  unfolding pool_step_def using assms
  by (auto simp: op_demo_def set_gpu_def gp_demo_env_def cleanup_env_ok_def range_ok_def)

lemma op_names [simp]: "gp_Name op_pool = ''p''" "gp_Name op_pool1 = ''p''" "gp_Name op_pool2 = ''p''" "gp_Name op_pool3 = ''p''"
  by code_simp+

lemma op_step1: "pool_step (gp_demo_env op_pool) ''p'' (op_demo (Manager_Start NewManager) (Some op_pool))
    [CallUpdate op_pool1] (op_demo (Manager_Start NewManager) (Some op_pool1))"
proof (rule op_demo_pool_step)
  have "om_DeletionTimestamp (gp_Meta op_pool) = None" "\<not> ContainsFinalizer (gp_Meta op_pool) gpuPoolFinalizer" by code_simp+
  then show "GPUPool_Reconcile (gp_demo_env op_pool) (Manager_Start NewManager) = (Ok requeue_now, [CallUpdate op_pool1], Manager_Start NewManager)"
    by (simp add: GPUPool_Reconcile_def gp_demo_env_def or_error_def op_pool1_def)
  show "api_write gp_kind None None [CallUpdate op_pool1] (Some op_pool) (Some op_pool1)"
    by (auto simp: api_write_def gp_kind_def finalized_def deleting_def op_pool1_def AddFinalizer_def)
qed

lemma op_step2: "pool_step (gp_demo_env op_pool1) ''p'' (op_demo (Manager_Start NewManager) (Some op_pool1))
    [CallStatusUpdate op_pool2] (op_demo op_register (Some op_pool2))"
proof (rule op_demo_pool_step)
  have a: "gpe_get (gp_demo_env op_pool1) = Found op_pool1" "om_DeletionTimestamp (gp_Meta op_pool1) = None"
    "ContainsFinalizer (gp_Meta op_pool1) gpuPoolFinalizer" "GPUPool_validateSpec op_pool1 = Ok ()" by code_simp+
  have r: "RegisterPool (gpe_scan (gp_demo_env op_pool1)) (Manager_Start NewManager) op_pool1 = (Ok (), op_register)" by code_simp
  show "GPUPool_Reconcile (gp_demo_env op_pool1) (Manager_Start NewManager) =
      (Ok (requeue_after (30 * second)), [CallStatusUpdate op_pool2], op_register)"
    using Reconcile_registers [OF a r] by (simp add: or_error_def op_pool2_def gp_demo_env_def)
  show "api_write gp_kind None None [CallStatusUpdate op_pool2] (Some op_pool1) (Some op_pool2)"
    by (auto simp: api_write_def gp_kind_def op_pool2_def)
qed

lemma op_demo_start: "operator_reachable ops mk (op_demo (Manager_Start NewManager) None)"
  using operator_reachable.start [of ops mk] by (simp add: op_demo_def operator_managers_def fun_upd_idem)

lemma op_demo_created: "operator_reachable ops mk (op_demo (Manager_Start NewManager) (Some op_pool))"
proof (rule operator_reachable.step [OF op_demo_start op_demo_user])
  have "gp_Status op_pool = gp_zero" "om_DeletionTimestamp (gp_Meta op_pool) = None"
    by (simp_all add: op_pool_def gp_demo_pool_def)
  then show "user_write gp_kind ''p'' None (Some op_pool)"
    by (simp add: user_write_def gp_kind_def deleting_def)
qed

lemma op_demo_registered: "operator_reachable ops mk (op_demo op_register (Some op_pool2))"
  by (intro operator_reachable.step [OF operator_reachable.step [OF op_demo_created operator_step.reconcile_pool [OF op_step1]]
        operator_step.reconcile_pool [OF op_step2]])

lemma op_demo_deleting: "operator_reachable ops mk (op_demo op_register (Some op_pool3))"
proof (rule operator_reachable.step [OF op_demo_registered op_demo_user])
  show "user_write gp_kind ''p'' (Some op_pool2) (Some op_pool3)"
    by (simp add: user_write_def gp_kind_def deleting_def has_finalizer_def ContainsFinalizer_def op_pool3_def)
qed

section \<open>Properties\<close>

text \<open>
  C6. The invariant of the whole operator, as long as users neither take the operator's finalizer off a
  resource nor write its status (\<open>user_write\<close>). Whatever else they do to the resources, in whatever order
  the three reconcilers run and whatever the API answers them, through background work and restarts:
  the GPU manager keeps its own invariant; every pool that it has registered is a stored GPUPool
  with the operator's finalizer, and every cache that the cache manager has configured is one of
  a stored TokenCache of that name with the finalizer, so that neither goes away unnoticed; and
  every stored status has at most one condition of each type.
\<close>

theorem operator_invariant:
  assumes "operator_reachable ops mk s"
  shows "gpu_ok (sys_gpu s) \<and>
    (\<forall>n. gm_has (mg_pools (sys_gpu s)) n \<longrightarrow>
      (\<exists>pool. sys_pools s n = Some pool \<and> ContainsFinalizer (gp_Meta pool) gpuPoolFinalizer)) \<and>
    (\<forall>n. gm_has (cm_caches (sys_cache s)) n \<longrightarrow>
      (\<exists>ns tc. sys_caches s (ns, n) = Some tc \<and> ContainsFinalizer (tc_Meta tc) tokenCacheFinalizer)) \<and>
    (\<forall>n pool. sys_pools s n = Some pool \<longrightarrow> conds_ok (gst_Conditions (gp_Status pool))) \<and>
    (\<forall>k tc. sys_caches s k = Some tc \<longrightarrow> conds_ok (tst_Conditions (tc_Status tc))) \<and>
    (\<forall>k svc. sys_services s k = Some svc \<longrightarrow> conds_ok (ist_Conditions (is_Status svc)))"
proof -
  note d = operator_okD [OF operator_reachable_ok [OF assms]]
  have 1: "gpu_ok (sys_gpu s)" by (rule gpu_reachable_ok [OF d(1)])
  have 2: "\<exists>pool. sys_pools s n = Some pool \<and> ContainsFinalizer (gp_Meta pool) gpuPoolFinalizer"
    if reg: "gm_has (mg_pools (sys_gpu s)) n" for n
  proof -
    obtain k v where v: "sys_pools s k = Some v" "om_Name (kd_meta gp_kind v) = n" "has_finalizer gp_kind v"
      using registered_okD [OF d(4), of n] reg by (auto simp: gp_registered_def)
    moreover have "k = n" using store_okD [OF d(3) v(1)] v(2) by (simp add: gp_kind_def)
    ultimately show ?thesis by (auto simp: has_finalizer_def gp_kind_def)
  qed
  have 3: "\<exists>ns tc. sys_caches s (ns, n) = Some tc \<and> ContainsFinalizer (tc_Meta tc) tokenCacheFinalizer"
    if reg: "gm_has (cm_caches (sys_cache s)) n" for n
  proof -
    obtain k v where v: "sys_caches s k = Some v" "om_Name (kd_meta tc_kind v) = n" "has_finalizer tc_kind v"
      using registered_okD [OF d(7), of n] reg by (auto simp: tc_registered_def)
    moreover have "k = (om_Namespace (tc_Meta v), n)" using store_okD [OF d(6) v(1)] v(2) by (simp add: tc_kind_def)
    ultimately show ?thesis by (auto simp: has_finalizer_def tc_kind_def)
  qed
  have 4: "conds_ok (gst_Conditions (gp_Status pool))" if "sys_pools s n = Some pool" for n pool
    using store_okD [OF d(3) that] by (simp add: gp_kind_def)
  have 5: "conds_ok (tst_Conditions (tc_Status tc))" if "sys_caches s k = Some tc" for k tc
    using store_okD [OF d(6) that] by (simp add: tc_kind_def)
  have 6: "conds_ok (ist_Conditions (is_Status svc))" if "sys_services s k = Some svc" for k svc
    using store_okD [OF d(8) that] by (simp add: is_kind_def)
  show ?thesis by (intro conjI allI impI) (fact 1, erule 2, erule 3, erule 4, erule 5, erule 6)
qed

theorem operator_invariant_witness:
  "gm_has (mg_pools op_register) ''p'' \<and> gpu_ok op_register \<and>
    (\<exists>pool. sys_pools (op_demo op_register (Some op_pool2)) ''p'' = Some pool \<and> ContainsFinalizer (gp_Meta pool) gpuPoolFinalizer \<and>
      conds_ok (gst_Conditions (gp_Status pool)))"
proof -
  have "gm_has (mg_pools op_register) ''p''" by code_simp
  then show ?thesis using operator_invariant [OF op_demo_registered [of prefix_tier tc_demo_mk]]
    by (auto simp: op_demo_gpu)
qed

text \<open>
  C12. Deletion gets done. In any state that the operator can reach, a pool that is marked for deletion
  and that only the operator's finalizer keeps is gone after the next reconciliation whose update
  the API accepts, and the manager no longer knows it. Nothing can hold it back: the number of
  allocated GPUs that the reconciler looks at is always zero.
\<close>

theorem operator_pool_deletion:
  assumes "operator_reachable ops mk s" and "sys_pools s n = Some pool" and "om_DeletionTimestamp (gp_Meta pool) \<noteq> None"
    and "om_Finalizers (gp_Meta pool) = [gpuPoolFinalizer]" and "pool_step e n s calls s'" and "gpe_get e = Found pool"
    and "gpe_update e = None"
  shows "sys_pools s' n = None \<and> \<not> gm_has (mg_pools (sys_gpu s')) n"
  using assms(5)
proof (rule pool_stepE)
  fix r m x
  assume p: "GPUPool_Reconcile e (sys_gpu s) = (r, calls, m)" "api_write gp_kind (gpe_update e) (gpe_status e) calls (sys_pools s n) x"
    "s' = (set_gpu m s)\<lparr>sys_pools := (sys_pools s)(n := x)\<rparr>"
  note d = operator_okD [OF operator_reachable_ok [OF assms(1)]]
  let ?u = "pool\<lparr>gp_Meta := RemoveFinalizer (gp_Meta pool) gpuPoolFinalizer\<rparr>"
  have u: "CallUpdate ?u \<in> set calls" "m = UnregisterPool (gpe_cleanup e) (sys_gpu s) (gp_Name pool)"
    using p(1) assms(3,6) d(5) [OF assms(2)] by (auto simp: GPUPool_Reconcile_def GPUPool_handleDeletion_def Let_def)
  have "gp_Name pool = n" using store_okD [OF d(3) assms(2)] by (simp add: gp_kind_def)
  then have "n \<notin> gp_registered m" using u(2) by (simp add: gp_registered_unregister)
  moreover have "x = None"
    using gp.deletion_done [OF assms(6) p(1) u(1)] p(2) assms(2-4,7) by (auto simp: gp_kind_def deleting_def)
  ultimately show ?thesis using p(3) by (simp add: gp_registered_def)
qed

theorem operator_pool_deletion_witness:
  "\<exists>calls m'. pool_step (gp_demo_env op_pool3) ''p'' (op_demo op_register (Some op_pool3)) calls (op_demo m' None) \<and>
    gm_has (mg_pools op_register) ''p'' \<and> \<not> gm_has (mg_pools m') ''p''"
proof -
  let ?e = "gp_demo_env op_pool3"
  have a: "om_DeletionTimestamp (gp_Meta op_pool3) = Some 9" "om_Finalizers (gp_Meta op_pool3) = [gpuPoolFinalizer]"
    "gst_AllocatedGPUs (gp_Status op_pool3) = 0" "gm_has (mg_pools op_register) ''p''" by code_simp+
  have g: "gpe_get ?e = Found op_pool3" "gpe_update ?e = None" by (simp_all add: gp_demo_env_def)
  let ?u = "op_pool3\<lparr>gp_Meta := RemoveFinalizer (gp_Meta op_pool3) gpuPoolFinalizer\<rparr>"
  let ?calls = "[CallEvent event_normal ''Deleted'' ''GPUPool deleted'', CallUpdate ?u]"
  let ?m = "UnregisterPool (gpe_cleanup ?e) op_register (gp_Name op_pool3)"
  have r: "GPUPool_Reconcile ?e op_register = (or_error None done_result, ?calls, ?m)"
    using a g by (simp add: GPUPool_Reconcile_def GPUPool_handleDeletion_def Let_def)
  have "api_write gp_kind None None ?calls (Some op_pool3) None"
    using a by (auto simp: api_write_def gp_kind_def finalized_def deleting_def RemoveFinalizer_def intro!: exI [of _ ?u])
  from op_demo_pool_step [OF r this]
  have s: "pool_step ?e ''p'' (op_demo op_register (Some op_pool3)) ?calls (op_demo ?m None)" .
  from operator_pool_deletion [OF op_demo_deleting [of prefix_tier tc_demo_mk] _ _ a(2) s g] a(1)
  have "\<not> gm_has (mg_pools ?m) ''p''" by (simp add: op_demo_gpu)
  then show ?thesis using s a(4) by blast
qed

text \<open>
  C11. Two reconciliations bring up a pool. In any reachable state a valid pool that is not being
  deleted has, after two reconciliations in a row whose calls the API accepts, the finalizer, is
  registered with the manager and reports the phase Ready or Failed; its specification is as the
  user wrote it.
\<close>

theorem operator_pool_comes_up:
  assumes "operator_reachable ops mk s" and "sys_pools s n = Some pool" and "om_DeletionTimestamp (gp_Meta pool) = None"
    and "GPUPool_validateSpec pool = Ok ()"
    and "pool_step e1 n s calls1 s1" and "gpe_get e1 = Found pool" and "gpe_update e1 = None" and "gpe_status e1 = None"
    and "pool_step e2 n s1 calls2 s2" and "gpe_get e2 = Found pool1" and "gpe_update e2 = None" and "gpe_status e2 = None"
  shows "\<exists>pool2. sys_pools s2 n = Some pool2 \<and> gp_Spec pool2 = gp_Spec pool \<and> ContainsFinalizer (gp_Meta pool2) gpuPoolFinalizer \<and>
    gm_has (mg_pools (sys_gpu s2)) n \<and> gst_Phase (gp_Status pool2) \<in> {GPUPoolPhaseReady, GPUPoolPhaseFailed}"
proof -
  have n: "gp_Name pool = n"
    using store_okD [OF operator_okD(3) [OF operator_reachable_ok [OF assms(1)]] assms(2)] by (simp add: gp_kind_def)
  have "\<exists>p. sys_pools s1 n = Some p \<and> gp_Spec p = gp_Spec pool \<and> gp_Meta p = AddFinalizer (gp_Meta pool) gpuPoolFinalizer"
  proof (cases "ContainsFinalizer (gp_Meta pool) gpuPoolFinalizer")
    case True
    then show ?thesis using pool_step_registers [OF assms(5,6,3) True assms(4,8)] by (auto simp: AddFinalizer_def ContainsFinalizer_def)
  next
    case False
    then show ?thesis using pool_step_adopts [OF assms(5,6,3) False assms(7)] by blast
  qed
  moreover have "sys_pools s1 n = Some pool1" using assms(9,10) by (auto simp: pool_step_def)
  ultimately have p: "gp_Spec pool1 = gp_Spec pool" "gp_Meta pool1 = AddFinalizer (gp_Meta pool) gpuPoolFinalizer" by auto
  have f: "om_DeletionTimestamp (gp_Meta pool1) = None" "ContainsFinalizer (gp_Meta pool1) gpuPoolFinalizer"
    "GPUPool_validateSpec pool1 = Ok ()" "gp_Name pool1 = n"
    using p assms(3,4) n by (auto simp: AddFinalizer_def ContainsFinalizer_def GPUPool_validateSpec_def)
  show ?thesis using pool_step_registers [OF assms(9,10) f(1,2,3) assms(12)] f(2,4) p(1) by auto
qed

theorem operator_pool_comes_up_witness:
  "\<exists>pool2. sys_pools (op_demo op_register (Some op_pool2)) ''p'' = Some pool2 \<and> ContainsFinalizer (gp_Meta pool2) gpuPoolFinalizer \<and>
    gm_has (mg_pools op_register) ''p'' \<and> gst_Phase (gp_Status pool2) \<in> {GPUPoolPhaseReady, GPUPoolPhaseFailed}"
proof -
  have a: "om_DeletionTimestamp (gp_Meta op_pool) = None" "GPUPool_validateSpec op_pool = Ok ()" by code_simp+
  have g: "gpe_get (gp_demo_env p) = Found p" "gpe_update (gp_demo_env p) = None" "gpe_status (gp_demo_env p) = None" for p
    by (simp_all add: gp_demo_env_def)
  show ?thesis using operator_pool_comes_up [OF op_demo_created [of prefix_tier tc_demo_mk] _ a op_step1 g op_step2 g]
    by (auto simp: op_demo_gpu)
qed

text \<open>
  C19. In any reachable state a service gets a deployment only if it asks for MIG. A service that asks for
  exclusive, MPS or time-sliced GPUs is refused by the GPU manager at every reconciliation, since
  nothing ever adds a GPU to a pool.
\<close>

theorem operator_deploys_only_mig:
  assumes "operator_reachable ops mk s" and "service_step e k s calls s'" and "ie_get e = Found svc"
    and "CallCreate (ISDeployment d) \<in> set calls \<or> CallUpdateOwned (ISDeployment d) \<in> set calls"
  shows "gs_Sharing (iss_GPU (is_Spec svc)) = GPUSharingModeMIG"
proof -
  from assms(2) obtain r m where r: "Inference_Reconcile e (op_factory (sys_managers s)) (sys_cache s) (sys_gpu s) = (r, calls, m)"
    and e: "gpu_env_ok (ie_gpu e)" by (auto simp: service_step_def)
  note g = deployment_needs_grant [OF assms(3) r assms(4)]
  have "0 < gs_Count (iss_GPU (is_Spec svc))" using g(1) by (auto simp: due_def Inference_validateSpec_def split: if_splits)
  moreover have "no_gpus (sys_gpu s)" by (rule gpu_reachable_no_gpus [OF operator_okD(1) [OF operator_reachable_ok [OF assms(1)]]])
  ultimately show ?thesis using no_gpus_allocate(2) [OF _ e _ g(2)] by (simp add: allocation_request_def Let_def)
qed

definition op_svc :: InferenceService where
  "op_svc = (is_demo ''vllm'' ''mig'' (Some bc_demo))\<lparr>is_Status := is_zero\<rparr>"

definition op_svc_env :: is_env where
  "op_svc_env = (is_demo_env op_svc (\<lambda>x. x) NotFound NotFound)\<lparr>ie_update := Some ''conflict'', ie_status := Some ''conflict''\<rparr>"

definition op_svc_demo :: "Manager \<Rightarrow> PrefixCache Operator" where
  "op_svc_demo m = (op_demo m (Some op_pool2))\<lparr>sys_services := (\<lambda>_. None)((''ns'', ''s'') := Some op_svc)\<rparr>"

lemma op_svc_grant: "\<exists>svc c m. reconcileGPUAllocation op_svc_env op_svc op_register = (Ok svc, c, m) \<and> is_Spec svc = is_Spec op_svc \<and>
    is_Meta svc = is_Meta op_svc"
proof -
  have "case fst (Manager_Allocate (ie_gpu op_svc_env) op_register (allocation_request op_svc)) of Ok r \<Rightarrow> res_Success r | _ \<Rightarrow> False"
    by code_simp
  then show ?thesis by (auto simp: reconcileGPUAllocation_def Let_def split: prod.splits outcome.splits)
qed

lemma op_svc_creates: "\<exists>d. CallCreate (ISDeployment d) \<in> set (fst (snd (Inference_Reconcile op_svc_env operator_factory cm op_register)))"
proof -
  obtain svc c m where g: "reconcileGPUAllocation op_svc_env op_svc op_register = (Ok svc, c, m)" "is_Spec svc = is_Spec op_svc"
    using op_svc_grant by blast
  have v: "Inference_validateSpec op_svc = Ok ()" "VLLM_Validate op_svc = Ok ()" "iss_Backend (is_Spec op_svc) = BackendTypeVLLM"
    "om_DeletionTimestamp (is_Meta op_svc) = None" "ContainsFinalizer (is_Meta op_svc) inferenceServiceFinalizer"
    "iss_Cache (is_Spec op_svc) = None" by code_simp+
  then have "b_Validate VLLMBackend svc = Ok ()" using g(2) by (simp add: VLLMBackend_def VLLM_Validate_def)
  then obtain d where d: "b_GenerateDeployment VLLMBackend (ie_args op_svc_env) svc = Ok d" using vllm.validate_generate by blast
  have e: "ie_get op_svc_env = Found op_svc" "ie_dep_owner op_svc_env = None" "ie_dep_get op_svc_env = NotFound" "ie_dep_create op_svc_env = None"
    by (simp_all add: op_svc_env_def is_demo_env_def)
  have "CallCreate (ISDeployment (deployment_object svc d)) \<in> set (snd (reconcile_objects op_svc_env svc VLLMBackend))"
    using e d by (simp add: reconcile_objects_def reconcileDeployment_def Let_def split: prod.split outcome.split)
  then have o: "CallCreate (ISDeployment (deployment_object svc d)) \<in> set (c @ snd (reconcile_objects op_svc_env svc VLLMBackend))" by simp
  have "Factory_Get operator_factory (iss_Backend (is_Spec op_svc)) = Some VLLMBackend" "b_Validate VLLMBackend op_svc = Ok ()"
    using v by (simp_all add: operator_factory_get VLLMBackend_def)
  then have "fst (snd (Inference_Reconcile op_svc_env operator_factory cm op_register)) = c @ snd (reconcile_objects op_svc_env svc VLLMBackend)"
    using e(1) v g by (simp add: Inference_Reconcile_def reconcileCacheConfiguration_def split: prod.split)
  then show ?thesis using o by auto
qed

lemma op_svc_demo_reachable: "operator_reachable ops mk (op_svc_demo op_register)"
proof (rule operator_reachable.step [OF op_demo_registered])
  have "is_Name op_svc = ''s''" "is_Namespace op_svc = ''ns''" "om_DeletionTimestamp (is_Meta op_svc) = None" by code_simp+
  then have "user_write is_kind (''ns'', ''s'') None (Some op_svc)"
    by (simp add: user_write_def is_kind_def deleting_def op_svc_def)
  then show "operator_step ops mk (op_demo op_register (Some op_pool2)) (op_svc_demo op_register)"
    using operator_step.user_service [of "(''ns'', ''s'')" "op_demo op_register (Some op_pool2)" "Some op_svc" ops mk]
    by (simp add: op_svc_demo_def op_demo_def)
qed

theorem operator_deploys_only_mig_witness:
  "\<exists>calls m d. service_step op_svc_env (''ns'', ''s'') (op_svc_demo op_register) calls (op_svc_demo m) \<and>
    CallCreate (ISDeployment d) \<in> set calls \<and> gs_Sharing (iss_GPU (is_Spec op_svc)) = GPUSharingModeMIG"
proof -
  let ?r = "Inference_Reconcile op_svc_env operator_factory (Cache_Start NewCacheManager :: PrefixCache CacheManager) op_register"
  obtain r calls m where r: "?r = (r, calls, m)" by (metis prod_cases3)
  obtain d where d: "CallCreate (ISDeployment d) \<in> set calls" using op_svc_creates [of "Cache_Start NewCacheManager :: PrefixCache CacheManager"] r by auto
  have g: "ie_get op_svc_env = Found op_svc" "ie_update op_svc_env = Some ''conflict''" "ie_status op_svc_env = Some ''conflict''"
    "gpu_env_ok (ie_gpu op_svc_env)"
    by (simp_all add: op_svc_env_def is_demo_env_def gm_demo_env_ok)
  have "api_write is_kind (Some ''conflict'') (Some ''conflict'') calls (Some op_svc) (Some op_svc)" by (simp add: api_write_def)
  then have s: "service_step op_svc_env (''ns'', ''s'') (op_svc_demo op_register) calls (op_svc_demo m)"
    unfolding service_step_def using r g
    by (auto simp: op_svc_demo_def op_demo_def operator_managers_def set_gpu_def)
  from operator_deploys_only_mig [OF op_svc_demo_reachable [of prefix_tier tc_demo_mk] s g(1)] d s show ?thesis by blast
qed

text \<open>
  The start-up panics. \<open>main\<close> asks three times for a signal handler, for the GPU manager, for the cache
  manager and for the controllers, and the second time panics: unless it fails before, the process
  ends when the GPU manager has been started and the cache manager has not.
\<close>

theorem operator_start_panics:
  assumes "signals_once e"
  shows "operator_main e = (if se_newManager e = None then Panic else Err ''unable to start manager'')"
  using assms by (auto simp: operator_main_def or_exit_def with_signals_def signals_once_def)

definition start_demo :: start_env where
  "start_demo = \<lparr>se_newManager = None, se_signals = (\<lambda>i. if i = 0 then Ok () else Panic), se_inference = None, se_gpupool = None,
     se_tokencache = None, se_healthz = None, se_readyz = None, se_run = None\<rparr>"

theorem operator_start_panics_witness: "(operator_main start_demo :: (string, PrefixCache Managers) outcome) = Panic"
proof -
  have "signals_once start_demo" "se_newManager start_demo = None" by (simp_all add: signals_once_def start_demo_def)
  from operator_start_panics [OF this(1)] this(2) show ?thesis by simp
qed

text \<open>
  The cache manager keeps its caches by name only. When the TokenCache of one namespace is deleted,
  the cache of the same name in another namespace, which is stored as before and not being deleted,
  is gone from the manager as well: reading from it reports that there is no such cache.
\<close>

theorem operator_cache_names_collide:
  assumes "cache_step e (ns, n) s calls s'" and "tce_get e = Found tc" and "tc_Name tc = n"
    and "om_DeletionTimestamp (tc_Meta tc) \<noteq> None" and "CallUpdate u \<in> set calls"
    and "ns' \<noteq> ns" and "sys_caches s (ns', n) = Some other"
  shows "sys_caches s' (ns', n) = Some other \<and> fst (Cache_Get ops ev (sys_cache s') n key) = Err (CacheNotFound n)"
proof -
  from assms(1) obtain r m x where p: "TokenCache_Reconcile e (sys_cache s) = (r, calls, m)"
    "s' = (set_cache m s)\<lparr>sys_caches := (sys_caches s)((ns, n) := x)\<rparr>" by (auto simp: cache_step_def)
  have "n \<notin> tc_registered m" using TokenCache_Reconcile_update [OF assms(2) p(1) assms(5)] assms(3,4) by auto
  then have "gm_get (cm_caches m) n = None" by (simp add: tc_registered_def gm_has_def)
  then show ?thesis using p(2) assms(6,7) by (simp add: Cache_Get_def)
qed

definition op_tc :: "string \<Rightarrow> timestamp option \<Rightarrow> TokenCache" where
  "op_tc ns t = (tc_demo [tc_demo_tier ''a'' CacheTierTypePrefix])\<lparr>tc_Meta := \<lparr>om_Name = ''c'', om_Namespace = ns, om_Generation = 1,
     om_DeletionTimestamp = t, om_Finalizers = [tokenCacheFinalizer]\<rparr>\<rparr>"

definition op_tc_demo :: "PrefixCache CacheManager \<Rightarrow> TokenCache option \<Rightarrow> PrefixCache Operator" where
  "op_tc_demo m x = (set_cache m (op_demo (Manager_Start NewManager) None))\<lparr>sys_caches :=
     (\<lambda>_. None)((''b'', ''c'') := Some (op_tc ''b'' None), (''a'', ''c'') := x)\<rparr>"

definition op_tc_manager :: "PrefixCache CacheManager" where
  "op_tc_manager = snd (ConfigureCache tc_demo_mk NewCacheManager (op_tc ''b'' None))"

theorem operator_cache_names_collide_witness:
  "\<exists>calls m. cache_step (tc_demo_env (op_tc ''a'' (Some 9)) NotFound None) (''a'', ''c'')
      (op_tc_demo op_tc_manager (Some (op_tc ''a'' (Some 9)))) calls (op_tc_demo m None) \<and>
    gm_has (cm_caches op_tc_manager) ''c'' \<and> fst (Cache_Get prefix_tier (\<lambda>_. pc_at 2) m ''c'' ''k'') = Err (CacheNotFound ''c'')"
proof -
  let ?tc = "op_tc ''a'' (Some 9)"
  let ?e = "tc_demo_env ?tc NotFound None"
  let ?u = "?tc\<lparr>tc_Meta := RemoveFinalizer (tc_Meta ?tc) tokenCacheFinalizer\<rparr>"
  let ?calls = "[CallEvent event_normal ''Deleted'' ''TokenCache deleted'', CallUpdate ?u]"
  have h: "gm_has (cm_caches op_tc_manager) ''c''" by code_simp
  have "fst (CleanupCache prefix_tier (\<lambda>_. pc_at 2) op_tc_manager ''c'') = Ok ()" by code_simp
  then obtain m where c: "CleanupCache prefix_tier (\<lambda>_. pc_at 2) op_tc_manager ''c'' = (Ok (), m)" by (metis prod.collapse)
  have t: "tce_get ?e = Found ?tc" "tc_Name ?tc = ''c''" "om_DeletionTimestamp (tc_Meta ?tc) = Some 9"
    by (simp_all add: tc_demo_env_def op_tc_def)
  have r: "TokenCache_Reconcile ?e op_tc_manager = (Ok done_result, ?calls, m)"
    using t c by (simp add: TokenCache_Reconcile_def TokenCache_handleDeletion_def tc_demo_env_def or_error_def)
  have a: "api_write tc_kind None None ?calls (Some ?tc) None"
    by (auto simp: api_write_def tc_kind_def finalized_def deleting_def RemoveFinalizer_def op_tc_def intro!: exI [of _ ?u])
  have s: "cache_step ?e (''a'', ''c'') (op_tc_demo op_tc_manager (Some ?tc)) ?calls (op_tc_demo m None)"
    unfolding cache_step_def using r a t(1)
    by (auto simp: op_tc_demo_def op_demo_def set_cache_def tc_demo_env_def)
  have "sys_caches (op_tc_demo op_tc_manager (Some ?tc)) (''b'', ''c'') = Some (op_tc ''b'' None)" by (simp add: op_tc_demo_def)
  from operator_cache_names_collide [OF s t(1,2) _ _ _ this, of ?u prefix_tier "\<lambda>_. pc_at 2" "''k''"] t(3)
  have "fst (Cache_Get prefix_tier (\<lambda>_. pc_at 2) m ''c'' ''k'') = Err (CacheNotFound ''c'')"
    by (simp add: op_tc_demo_def)
  then show ?thesis using s h by blast
qed

text \<open>
  A pool never comes to rest. Every accepted reconciliation of a valid registered pool writes the
  current time into its status, so that the stored object changes, and with it the resource that
  the reconciler watches.
\<close>

lemma operator_pool_never_rests:
  assumes "pool_step e n s calls s'" and "gpe_get e = Found pool" and "om_DeletionTimestamp (gp_Meta pool) = None"
    and "ContainsFinalizer (gp_Meta pool) gpuPoolFinalizer" and "GPUPool_validateSpec pool = Ok ()"
    and "is_ok (fst (RegisterPool (gpe_scan e) (sys_gpu s) pool))" and "gpe_status e = None"
    and "gst_LastSyncTime (gp_Status pool) \<noteq> Some (gpe_now e)"
  shows "sys_pools s' n \<noteq> sys_pools s n"
  using assms(1)
proof (rule pool_stepE)
  fix r m x
  assume p: "read_ok (sys_pools s n) (gpe_get e)" "GPUPool_Reconcile e (sys_gpu s) = (r, calls, m)"
    "api_write gp_kind (gpe_update e) (gpe_status e) calls (sys_pools s n) x" "s' = (set_gpu m s)\<lparr>sys_pools := (sys_pools s)(n := x)\<rparr>"
  obtain m1 where q: "RegisterPool (gpe_scan e) (sys_gpu s) pool = (Ok (), m1)"
    using assms(6) by (cases "RegisterPool (gpe_scan e) (sys_gpu s) pool") (auto elim: is_ok.elims)
  have "calls = [CallStatusUpdate (pool\<lparr>gp_Status := pool_status e pool m1\<rparr>)]"
    using Reconcile_registers [OF assms(2-5) q] p(2) by simp
  moreover have "gst_LastSyncTime (pool_status e pool m1) = Some (gpe_now e)"
    by (simp add: pool_status_def GPUPool_updateConditions_def Let_def split: option.split outcome.split)
  ultimately show ?thesis using p(1,3,4) assms(2,7,8)
    by (cases x) (auto simp: api_write_def gp_kind_def)
qed

text \<open>
  The deletion of a service and of a cache goes through at the first reconciliation whose update is
  accepted, for a cache only if clearing its tiers neither panics nor blocks.
\<close>

lemma operator_service_deletion:
  assumes "service_step e k s calls s'" and "ie_get e = Found svc" and "om_DeletionTimestamp (is_Meta svc) \<noteq> None"
    and "om_Finalizers (is_Meta svc) = [inferenceServiceFinalizer]" and "ie_update e = None"
  shows "sys_services s' k = None"
proof -
  from assms(1,2) obtain r m x where p: "sys_services s k = Some svc"
    "Inference_Reconcile e (op_factory (sys_managers s)) (sys_cache s) (sys_gpu s) = (r, calls, m)"
    "api_write is_kind (ie_update e) (ie_status e) calls (Some svc) x"
    "s' = (set_gpu m s)\<lparr>sys_services := (sys_services s)(k := x)\<rparr>" by (auto simp: service_step_def)
  obtain u where "CallUpdate u \<in> set calls"
    using p(2) assms(2,3) by (auto simp: Inference_Reconcile_def Inference_handleDeletion_def Let_def)
  from isr.deletion_done [OF assms(2) p(2) this] p(3) assms(3-5) have "x = None" by (auto simp: is_kind_def deleting_def)
  then show ?thesis using p(4) by simp
qed

lemma operator_cache_deletion:
  assumes "cache_step e k s calls s'" and "tce_get e = Found tc" and "om_DeletionTimestamp (tc_Meta tc) \<noteq> None"
    and "om_Finalizers (tc_Meta tc) = [tokenCacheFinalizer]" and "tce_update e = None"
    and "is_ok (fst (CleanupCache (tce_ops e) (tce_tiers e) (sys_cache s) (tc_Name tc)))"
  shows "sys_caches s' k = None" and "\<not> gm_has (cm_caches (sys_cache s')) (tc_Name tc)"
proof -
  from assms(1,2) obtain r m x where p: "sys_caches s k = Some tc" "TokenCache_Reconcile e (sys_cache s) = (r, calls, m)"
    "api_write tc_kind (tce_update e) (tce_status e) calls (Some tc) x"
    "s' = (set_cache m s)\<lparr>sys_caches := (sys_caches s)(k := x)\<rparr>" by (auto simp: cache_step_def)
  obtain q m1 where q: "CleanupCache (tce_ops e) (tce_tiers e) (sys_cache s) (tc_Name tc) = (q, m1)" "is_ok q"
    using assms(6) by (metis prod.collapse)
  obtain u where u: "CallUpdate u \<in> set calls"
    using p(2) assms(2,3) q by (cases q) (auto simp: TokenCache_Reconcile_def TokenCache_handleDeletion_def)
  from tc.deletion_done [OF assms(2) p(2) u] p(3) assms(3-5) have "x = None" by (auto simp: tc_kind_def deleting_def)
  then show "sys_caches s' k = None" using p(4) by simp
  show "\<not> gm_has (cm_caches (sys_cache s')) (tc_Name tc)"
    using TokenCache_Reconcile_update [OF assms(2) p(2) u] assms(3) p(4) by (auto simp: tc_registered_def)
qed

end
