(* ===== verification/Scheme.thy ===== *)
theory Scheme
  imports Operator
begin

text \<open>
  The types that the operator makes known to its client (\<open>groupversion_info.go\<close>, the \<open>init\<close> functions of
  \<open>api/v1alpha1\<close>, the scheme of \<open>main.go\<close>) and the kinds that its three controllers ask the manager to
  watch (\<open>SetupWithManager\<close>). A scheme is the set of kinds it knows, with group and version; a client
  or a watch of a kind that the scheme does not know fails. What client-go brings is an argument.
\<close>

section \<open>Lists of resources\<close>

record GPUPoolList = gpl_Items :: "GPUPool list"
record InferenceServiceList = isl_Items :: "InferenceService list"
record TokenCacheList = tcl_Items :: "TokenCache list"

section \<open>Registration\<close>

type_synonym group_version = "string \<times> string"
type_synonym group_kind = "group_version \<times> string"

definition GroupVersion :: group_version where
  "GroupVersion = (''inference.ai'', ''v1alpha1'')"

definition gpupool_init :: "string list \<Rightarrow> string list" where
  "gpupool_init types = types @ [''GPUPool'', ''GPUPoolList'']"

definition inferenceservice_init :: "string list \<Rightarrow> string list" where
  "inferenceservice_init types = types @ [''InferenceService'', ''InferenceServiceList'']"

definition tokencache_init :: "string list \<Rightarrow> string list" where
  "tokencache_init types = types @ [''TokenCache'', ''TokenCacheList'']"

text \<open>The \<open>init\<close> functions run in the order of their files.\<close>

definition SchemeBuilder :: "string list" where
  "SchemeBuilder = tokencache_init (inferenceservice_init (gpupool_init []))"

definition AddToScheme :: "group_kind set \<Rightarrow> group_kind set" where
  "AddToScheme scheme = scheme \<union> (\<lambda>k. (GroupVersion, k)) ` set SchemeBuilder"

definition operator_scheme :: "group_kind set \<Rightarrow> group_kind set" where
  "operator_scheme clientgo = AddToScheme clientgo"

section \<open>Watches\<close>

definition apps_v1 :: group_version where "apps_v1 = (''apps'', ''v1'')"
definition core_v1 :: group_version where "core_v1 = ('''', ''v1'')"

text \<open>The kind a controller is for, and the kinds it owns objects of.\<close>

definition Inference_SetupWithManager :: "group_kind \<times> group_kind list" where
  "Inference_SetupWithManager = ((GroupVersion, ''InferenceService''), [(apps_v1, ''Deployment''), (core_v1, ''Service'')])"

definition GPUPool_SetupWithManager :: "group_kind \<times> group_kind list" where
  "GPUPool_SetupWithManager = ((GroupVersion, ''GPUPool''), [])"

definition TokenCache_SetupWithManager :: "group_kind \<times> group_kind list" where
  "TokenCache_SetupWithManager = ((GroupVersion, ''TokenCache''),
     [(apps_v1, ''StatefulSet''), (core_v1, ''Service''), (core_v1, ''PersistentVolumeClaim'')])"

text \<open>The kind of an object that a reconciliation creates or updates beside its own resource.\<close>

fun is_object_kind :: "is_object \<Rightarrow> group_kind" where
  "is_object_kind (ISDeployment d) = (apps_v1, ''Deployment'')"
| "is_object_kind (ISService s) = (core_v1, ''Service'')"

fun tc_object_kind :: "tc_object \<Rightarrow> group_kind" where
  "tc_object_kind (TCStatefulSet s) = (apps_v1, ''StatefulSet'')"
| "tc_object_kind (TCService s) = (core_v1, ''Service'')"
| "tc_object_kind (TCClaim c) = (core_v1, ''PersistentVolumeClaim'')"

text \<open>
  Whatever object a reconciler creates or updates, its controller watches that kind, so that a
  change of the object reaches the reconciler; and the scheme knows every kind that is watched if
  client-go knows the four kinds of its own.
\<close>

lemma watches_complete:
  assumes "{(apps_v1, ''Deployment''), (apps_v1, ''StatefulSet''), (core_v1, ''Service''), (core_v1, ''PersistentVolumeClaim'')} \<subseteq> clientgo"
  shows "is_object_kind x \<in> set (snd Inference_SetupWithManager)" and "tc_object_kind y \<in> set (snd TokenCache_SetupWithManager)"
    and "\<forall>(own, owned) \<in> {Inference_SetupWithManager, GPUPool_SetupWithManager, TokenCache_SetupWithManager}.
      set (own # owned) \<subseteq> operator_scheme clientgo"
proof -
  show "is_object_kind x \<in> set (snd Inference_SetupWithManager)" by (cases x) (simp_all add: Inference_SetupWithManager_def)
  show "tc_object_kind y \<in> set (snd TokenCache_SetupWithManager)" by (cases y) (simp_all add: TokenCache_SetupWithManager_def)
  show "\<forall>(own, owned) \<in> {Inference_SetupWithManager, GPUPool_SetupWithManager, TokenCache_SetupWithManager}.
      set (own # owned) \<subseteq> operator_scheme clientgo"
    using assms by (auto simp: Inference_SetupWithManager_def GPUPool_SetupWithManager_def TokenCache_SetupWithManager_def
        operator_scheme_def AddToScheme_def SchemeBuilder_def tokencache_init_def inferenceservice_init_def gpupool_init_def)
qed

end
