(* ===== verification/CacheTasks.thy ===== *)
theory CacheTasks
  imports CacheManager
begin

text \<open>
  What the goroutines of the cache manager do when they get to run: the warmup that a configuration
  starts, and the promotion that a hit in a lower tier starts under write-through. Between the call
  that starts a goroutine and its run, other calls may have changed the cache; the last property
  is about such an interleaving.
\<close>

section \<open>Warmup\<close>

text \<open>A key that the GPU has: reading it completes.\<close>

lemma resident_get:
  assumes "pc_ok c" and "gm_get (pc_gpuBlocks c) k = Some p"
  shows "\<exists>r c'. Prefix_Get e c k = (Ok r, c')"
proof -
  have "\<not> pb_InSwap (pc_heap c ! p)" "p < length (pc_heap c)"
    using blocks_okD(6) [OF pc_ok_blocks [OF assms(1)] gm_get_mem [OF assms(2)]] by simp_all
  moreover have "get_lookup c k = Some p" using assms(2) by (simp add: get_lookup_def)
  ultimately show ?thesis by (simp add: Prefix_Get_def get_touch_def get_pin_def upd_block_def Let_def)
qed

lemma drop_key_resident:
  assumes "k' \<noteq> k"
  shows "gm_get (pc_gpuBlocks (drop_key k c)) k' = gm_get (pc_gpuBlocks c) k'"
  using assms by (auto simp: drop_key_def removeBlock_def Let_def gm_get_del split: option.split)

lemma set_resident: "gm_has (pc_gpuBlocks (snd (Prefix_Set e c k v ttl))) k' \<longleftrightarrow> k' = k \<or> gm_has (pc_gpuBlocks c) k'"
  by (cases "k' = k") (auto simp: Prefix_Set_def Let_def gm_has_def gm_get_set drop_key_resident)

definition warm :: "pc_env \<Rightarrow> PrefixCache \<Rightarrow> string \<Rightarrow> bool" where
  "warm e t pfx \<longleftrightarrow> gm_has (pc_gpuBlocks t) (''prefix:'' @ pfx) \<and> pc_live e t (''prefix:'' @ pfx) = Some (string_bytes pfx)"

lemma warm_set:
  assumes "pc_ok t" and "pc_alive e t (24 * hour) e'" and "p = q \<or> warm e' t p"
  shows "warm e' (snd (Prefix_Set e t (''prefix:'' @ q) (string_bytes q) (24 * hour))) p"
proof -
  obtain t' where t': "Prefix_Set e t (''prefix:'' @ q) (string_bytes q) (24 * hour) = (Ok (), t')" using prefix.set_total [OF assms(1)] by blast
  show ?thesis using assms(3) prefix.set_live [OF assms(1) t' assms(2)] t' set_resident [of e t "''prefix:'' @ q" "string_bytes q" "24 * hour" "''prefix:'' @ p"]
    by (auto simp: warm_def)
qed

text \<open>A warmup completes and leaves every one of its prefixes, and those that were there, in the first tier.\<close>

lemma warm_prefixes_head:
  assumes "\<forall>t \<in> set ts. pc_ok t" and "ts \<noteq> []" and "\<forall>i < length ps. pe_now e' \<le> pe_now (e (j + i) 0) + 24 * hour"
  shows "\<exists>ts'. warm_prefixes prefix_tier e j ps ts = (Ok (), ts') \<and> (\<forall>t \<in> set ts'. pc_ok t) \<and> ts' \<noteq> [] \<and>
    (\<forall>p. p \<in> set ps \<or> warm e' (hd ts) p \<longrightarrow> warm e' (hd ts') p)"
  using assms
proof (induction ps arbitrary: j ts)
  case (Cons q ps)
  let ?f = "\<lambda>i t. op_Set prefix_tier (e j i) t (''prefix:'' @ q) (string_bytes q) (24 * hour)"
  have total: "\<exists>t'. ?f i t = (Ok (), t') \<and> pc_ok t' \<and> t' = snd (?f i t)" if "pc_ok t" for i t
    using prefix.set_total [OF that] prefix.inv_set [OF that] by (simp add: prefix_tier_def) (metis snd_conv)
  from pm.each_tier_total [of ?f "\<lambda>i t t'. t' = snd (?f i t)" ts 0, OF total Cons.prems(1)]
  obtain us where us: "each_tier ?f 0 ts = (Ok (), us)" "length us = length ts"
    "\<forall>i < length ts. pc_ok (us ! i) \<and> us ! i = snd (?f i (ts ! i))" by auto
  have ok: "\<forall>t \<in> set us. pc_ok t" using us(2,3) by (metis in_set_conv_nth)
  have ne: "us \<noteq> []" using us(2) Cons.prems(2) by auto
  have hd: "hd us = snd (Prefix_Set (e j 0) (hd ts) (''prefix:'' @ q) (string_bytes q) (24 * hour))" "pc_ok (hd ts)"
    using us(3) [rule_format, of 0] Cons.prems(1,2) ne by (auto simp: hd_conv_nth prefix_tier_def)
  have "pc_alive (e j 0) (hd ts) (24 * hour) e'" using Cons.prems(3) [rule_format, of 0] by (simp add: pc_alive_def hour_def)
  note step = warm_set [OF hd(2) this, of _ q, folded hd(1)]
  have "\<forall>i < length ps. pe_now e' \<le> pe_now (e (Suc j + i) 0) + 24 * hour" using Cons.prems(3) by auto
  from Cons.IH [OF ok ne this] obtain ts' where
    ts': "warm_prefixes prefix_tier e (Suc j) ps us = (Ok (), ts')" "\<forall>t \<in> set ts'. pc_ok t" "ts' \<noteq> []"
      "\<forall>p. p \<in> set ps \<or> warm e' (hd us) p \<longrightarrow> warm e' (hd ts') p" by blast
  show ?case using us(1) ts' step by auto
qed auto

section \<open>Promotion\<close>

context tier_client
begin

text \<open>A promotion writes the entry into every tier before the current one, so that the next read finds it in the first.\<close>

lemma promote_visible:
  assumes "\<forall>t \<in> set (t # rest). inv t" and "op_Name ops t \<noteq> current" and "alive (e 0) t (ce_TTL en) (e' 0)"
  shows "\<exists>ts' en' ts''. promoteToPreviousTiers ops e current k en (t # rest) = (Ok (), ts') \<and>
    get_tiers ops e' 0 ts' k = (Ok (Some (0, en')), ts'') \<and> ce_Value en' = ce_Value en"
proof -
  let ?f = "\<lambda>i t. op_Set ops (e i) t k (ce_Value en) (ce_TTL en)"
  obtain t' en' t'' where t': "?f 0 t = (Ok (), t')" "op_Get ops (e' 0) t' k = (Ok (Some en'), t'')" "ce_Value en' = ce_Value en"
    using set_get [of t "e 0" "ce_TTL en" "e' 0" k "ce_Value en"] assms by auto
  have "\<forall>u \<in> set (takeWhile (\<lambda>t. op_Name ops t \<noteq> current) rest). inv u" using assms(1) by (auto dest: set_takeWhileD)
  moreover have "\<exists>u'. ?f i u = (Ok (), u') \<and> inv u' \<and> True" if "inv u" for i u
    using set_total [OF that, of "e i" k] inv_set [OF that] by (metis snd_conv)
  ultimately obtain us where "each_tier ?f 1 (takeWhile (\<lambda>t. op_Name ops t \<noteq> current) rest) = (Ok (), us)"
    using each_tier_total [of ?f "\<lambda>_ _ _. True" "takeWhile (\<lambda>t. op_Name ops t \<noteq> current) rest" 1] by blast
  then have "\<exists>us. promoteToPreviousTiers ops e current k en (t # rest) = (Ok (), t' # us)"
    using t'(1) assms(2) by (simp add: promoteToPreviousTiers_def)
  then show ?thesis using t'(2,3) by fastforce
qed

end

text \<open>The configuration that a promotion was started with, found again by its identity.\<close>

definition ids_ok :: "'s CacheManager \<Rightarrow> bool" where
  "ids_ok m \<longleftrightarrow> gm_ok (cm_caches m) \<and>
     (\<forall>n n' c c'. gm_get (cm_caches m) n = Some c \<longrightarrow> gm_get (cm_caches m) n' = Some c' \<longrightarrow> cc_Id c = cc_Id c' \<longrightarrow> n = n')"

lemma ids_ok_find:
  assumes "ids_ok m" and "gm_get (cm_caches m) n = Some cfg"
  shows "find (\<lambda>(n, c). cc_Id c = cc_Id cfg) (cm_caches m) = Some (n, cfg)"
proof -
  have "find (\<lambda>(n, c). cc_Id c = cc_Id cfg) (cm_caches m) \<noteq> None"
    using gm_get_mem [OF assms(2)] by (auto simp: find_None_all)
  then obtain n' c' where f: "find (\<lambda>(n, c). cc_Id c = cc_Id cfg) (cm_caches m) = Some (n', c')" by auto
  then have "(n', c') \<in> set (cm_caches m)" "cc_Id c' = cc_Id cfg" using find_Some_in [OF f] by auto
  moreover from this have "gm_get (cm_caches m) n' = Some c'" using assms(1) by (simp add: ids_ok_def)
  ultimately show ?thesis using f assms unfolding ids_ok_def by (metis option.inject)
qed

lemma ids_ok_put: "ids_ok m \<Longrightarrow> gm_get (cm_caches m) n = Some cfg \<Longrightarrow> ids_ok (put_tiers n cfg ts m)"
  by (auto simp: ids_ok_def put_tiers_def gm_get_set distinct_update split: if_splits)

lemma ids_ok_new [simp]: "ids_ok NewCacheManager"
  by (simp add: ids_ok_def NewCacheManager_def)

section \<open>Reads and deletes in between\<close>

text \<open>What no operation of a prefix tier changes.\<close>

lemma prefix_fixed:
  "pc_tierName (snd (Prefix_Get e c k)) = pc_tierName c" "pc_defaultTTL (snd (Prefix_Get e c k)) = pc_defaultTTL c"
  "pc_tierName (snd (Prefix_Delete e c k)) = pc_tierName c" "pc_defaultTTL (snd (Prefix_Delete e c k)) = pc_defaultTTL c"
  by (auto simp: Prefix_Get_def Prefix_Delete_def drop_key_def removeBlock_def get_miss_def get_expired_def get_touch_def get_pin_def
      get_unpin_def upd_block_def moveToGPU_def move_to_gpu_def Let_def split: option.split prod.split outcome.split)

lemma prefix_entry_ttl: "Prefix_Get e c k = (Ok (Some en), c') \<Longrightarrow> ce_TTL en = 0"
  by (auto simp: Prefix_Get_def block_entry_def split: option.splits if_splits prod.splits outcome.splits)

lemma get_tiers_hit:
  "get_tiers prefix_tier e j ts k = (Ok (Some (i, en)), ts') \<Longrightarrow> j \<le> i \<and> i < j + length ts \<and> ce_TTL en = 0"
proof (induction ts arbitrary: j ts')
  case (Cons t ts)
  obtain q t' where q: "Prefix_Get (e j) t k = (q, t')" by fastforce
  obtain r us where r: "get_tiers prefix_tier e (Suc j) ts k = (r, us)" by fastforce
  show ?case using Cons.prems Cons.IH [of "Suc j" us] q r prefix_entry_ttl [of "e j" t k en t']
    by (auto simp: prefix_tier_def split: outcome.splits option.splits)
qed simp

lemma get_tiers_ok:
  "get_tiers prefix_tier e j ts k = (Ok r, ts') \<Longrightarrow> \<forall>t \<in> set ts. pc_ok t \<Longrightarrow> \<forall>t \<in> set ts'. pc_ok t"
proof (induction ts arbitrary: j ts')
  case (Cons t ts)
  obtain q t' where q: "Prefix_Get (e j) t k = (q, t')" by fastforce
  obtain r' us where r: "get_tiers prefix_tier e (Suc j) ts k = (r', us)" by fastforce
  have "pc_ok t'" if "q = Ok x" for x using prefix.inv_get [of t "e j" k x t'] q that Cons.prems(2) by simp
  moreover have "q \<noteq> Err x" for x using prefix.get_never_fails [of "e j" t k x] q by simp
  ultimately show ?case using Cons.prems Cons.IH [of "Suc j" us] q r
    by (auto simp: prefix_tier_def split: outcome.splits option.splits)
qed simp

text \<open>A hit beyond the first tier leaves the first tier with its name and its default time to live.\<close>

lemma get_tiers_first:
  assumes "get_tiers prefix_tier e 0 (t # rest) k = (Ok (Some (i, en)), ts)" and "pc_ok t" and "pc_live (e 0) t k = None"
  shows "0 < i" and "\<exists>t' rest'. ts = t' # rest' \<and> pc_tierName t' = pc_tierName t \<and> pc_defaultTTL t' = pc_defaultTTL t"
proof -
  obtain t' where t': "Prefix_Get (e 0) t k = (Ok None, t')" using prefix.get_absent [OF assms(2,3)] by blast
  obtain r us where r: "get_tiers prefix_tier e (Suc 0) rest k = (r, us)" by fastforce
  have "r = Ok (Some (i, en))" "ts = t' # us" using assms(1) t' r by (simp_all add: prefix_tier_def)
  then show "0 < i" "\<exists>t' rest'. ts = t' # rest' \<and> pc_tierName t' = pc_tierName t \<and> pc_defaultTTL t' = pc_defaultTTL t"
    using get_tiers_hit [of e "Suc 0" rest k i en us] r prefix_fixed(1,2) [of "e 0" t k] t' by auto
qed

lemma delete_tiers:
  assumes "\<forall>t \<in> set (t # rest). pc_ok t"
  shows "\<exists>t' rest'. each_tier (\<lambda>i t. op_Delete prefix_tier (d i) t k) 0 (t # rest) = (Ok (), t' # rest') \<and>
    (\<forall>t \<in> set (t' # rest'). pc_ok t) \<and> pc_tierName t' = pc_tierName t \<and> pc_defaultTTL t' = pc_defaultTTL t"
proof -
  let ?f = "\<lambda>i t. op_Delete prefix_tier (d i) t k"
  have total: "\<exists>t'. ?f i t = (Ok (), t') \<and> pc_ok t' \<and> t' = snd (?f i t)" if "pc_ok t" for i t
    using prefix.del_total [OF that] prefix.inv_del [OF that] by (simp add: prefix_tier_def) (metis snd_conv)
  from pm.each_tier_total [of ?f "\<lambda>i t t'. t' = snd (?f i t)" "t # rest" 0, OF total assms]
  obtain us where us: "each_tier ?f 0 (t # rest) = (Ok (), us)" "length us = length (t # rest)"
    "\<forall>i < length (t # rest). pc_ok (us ! i) \<and> us ! i = snd (?f i ((t # rest) ! i))" by auto
  then obtain t' rest' where u: "us = t' # rest'" by (cases us) auto
  have "\<forall>t \<in> set us. pc_ok t" using us(2,3) by (metis in_set_conv_nth)
  moreover have "t' = snd (Prefix_Delete (d 0) t k)" using us(3) [rule_format, of 0] u by (simp add: prefix_tier_def)
  ultimately show ?thesis using us(1) u prefix_fixed(3,4) [of "d 0" t k] by auto
qed

text \<open>A hit keeps the tiers of its cache well formed, and a deleted key is not found.\<close>

lemma get_keeps:
  assumes "cm_ok m" and "gm_get (cm_caches m) n = Some cfg" and "Cache_Get prefix_tier e m n k = (Ok en, m1)"
  shows "\<exists>cfg1. gm_get (cm_caches m1) n = Some cfg1 \<and> (\<forall>t \<in> set (cc_Tiers cfg1). pc_ok t)"
proof -
  obtain i ts where "get_tiers prefix_tier e 0 (cc_Tiers cfg) k = (Ok (Some (i, en)), ts)" "cm_caches m1 = cm_caches (put_tiers n cfg ts m)"
    using assms(2,3) by (auto simp: Cache_Get_def Let_def split: prod.splits outcome.splits option.splits)
  moreover from this have "\<forall>t \<in> set ts. pc_ok t" using get_tiers_ok assms(1,2) by (auto simp: cm_ok_def)
  ultimately show ?thesis by (simp add: put_tiers_get)
qed

lemma get_deleted:
  assumes "\<exists>cfg. gm_get (cm_caches m) n = Some cfg \<and> (\<forall>t \<in> set (cc_Tiers cfg). pc_ok t)"
  shows "fst (Cache_Get prefix_tier e' (snd (Cache_Delete prefix_tier d m n k)) n k) = Err (KeyNotFound k)"
proof -
  from assms obtain cfg where cfg: "gm_get (cm_caches m) n = Some cfg" "\<forall>t \<in> set (cc_Tiers cfg). pc_ok t" by blast
  obtain ts ts2 where d: "each_tier (\<lambda>i t. op_Delete prefix_tier (d i) t k) 0 (cc_Tiers cfg) = (Ok (), ts)"
    "get_tiers prefix_tier e' 0 ts k = (Ok None, ts2)" using pm.read_after_delete [OF cfg(2)] by blast
  have "snd (Cache_Delete prefix_tier d m n k) = put_tiers n cfg ts m" using cfg(1) d(1) by (simp add: Cache_Delete_def)
  then show ?thesis using Cache_Get_miss [OF put_tiers_get] d(2) by simp
qed

text \<open>
  A \<open>Get\<close> under write-through that finds the key behind the first tier, and a \<open>Delete\<close> of the key: the
  promotion it started, and the tiers that this promotion will find.
\<close>

lemma get_then_delete:
  assumes "cm_ok m" and "ids_ok m" and "gm_get (cm_caches m) n = Some cfg" and "cc_CoherencePolicy cfg = ''write-through''"
    and "cc_Tiers cfg = t # rest" and "distinct (map pc_tierName (cc_Tiers cfg))" and "pc_live (e 0) t k = None"
    and "Cache_Get prefix_tier e m n k = (Ok en, m1)" and "Cache_Delete prefix_tier d m1 n k = (r2, m2)"
  obtains current cfg2 t2 rest2 where "cm_tasks m1 = cm_tasks m @ [Promote (cc_Id cfg) current k en]"
    and "find (\<lambda>(n, c). cc_Id c = cc_Id cfg) (cm_caches m2) = Some (n, cfg2)" and "cc_Tiers cfg2 = t2 # rest2"
    and "\<forall>u \<in> set (t2 # rest2). pc_ok u" and "pc_tierName t2 \<noteq> current" and "pc_defaultTTL t2 = pc_defaultTTL t" and "ce_TTL en = 0"
proof -
  have ok: "\<forall>u \<in> set (t # rest). pc_ok u" using assms(1,3,5) by (auto simp: cm_ok_def)
  then have okt: "pc_ok t" by simp
  obtain i ts where i: "get_tiers prefix_tier e 0 (t # rest) k = (Ok (Some (i, en)), ts)"
    using assms(3,5,8) by (auto simp: Cache_Get_def Let_def split: prod.splits outcome.splits option.splits)
  let ?cfg1 = "cfg\<lparr>cc_Tiers := ts\<rparr>" and ?current = "pc_tierName ((t # rest) ! i)"
  obtain t1 rest1 where t1: "ts = t1 # rest1" "pc_tierName t1 = pc_tierName t" "pc_defaultTTL t1 = pc_defaultTTL t" and i0: "0 < i"
    using get_tiers_first [OF i okt assms(7)] by blast
  have m1: "cm_caches m1 = cm_caches (put_tiers n cfg ts m)" "cm_tasks m1 = cm_tasks m @ [Promote (cc_Id cfg) ?current k en]"
    using assms(3,4,5,8) i by (auto simp: Cache_Get_def Let_def prefix_tier_def Prefix_Name_def)
  have c1: "gm_get (cm_caches m1) n = Some ?cfg1" by (simp add: m1(1) put_tiers_get)
  have ok1: "\<forall>u \<in> set (t1 # rest1). pc_ok u" using get_tiers_ok [OF i ok] t1(1) by simp
  obtain t2 rest2 where t2: "each_tier (\<lambda>i t. op_Delete prefix_tier (d i) t k) 0 ts = (Ok (), t2 # rest2)"
    "\<forall>u \<in> set (t2 # rest2). pc_ok u" "pc_tierName t2 = pc_tierName t" "pc_defaultTTL t2 = pc_defaultTTL t"
    using delete_tiers [OF ok1, of d k] t1 by auto
  let ?cfg2 = "?cfg1\<lparr>cc_Tiers := t2 # rest2\<rparr>"
  have m2: "m2 = put_tiers n ?cfg1 (t2 # rest2) m1" using assms(9) c1 t2(1) by (simp add: Cache_Delete_def)
  have c2: "gm_get (cm_caches m2) n = Some ?cfg2" unfolding m2 by (rule put_tiers_get)
  have "ids_ok m1" using ids_ok_put [OF assms(2,3), of ts] m1(1) by (simp add: ids_ok_def)
  then have "ids_ok m2" unfolding m2 by (rule ids_ok_put [OF _ c1])
  from ids_ok_find [OF this c2] have f: "find (\<lambda>(n, c). cc_Id c = cc_Id cfg) (cm_caches m2) = Some (n, ?cfg2)" by simp
  have "i < length (t # rest)" "ce_TTL en = 0" using get_tiers_hit [OF i] by auto
  then have "pc_tierName t2 \<noteq> ?current" "ce_TTL en = 0" using i0 assms(5,6) t2(3) by (cases i; auto dest: nth_mem)+
  then show ?thesis using that [of ?current ?cfg2 t2 rest2] m1(2) f t2(2,4) by simp
qed

section \<open>Examples\<close>

text \<open>A write-through cache of two tiers, of which only the second has the key.\<close>

definition ct_demo :: "PrefixCache CacheManager" where
  "ct_demo = NewCacheManager\<lparr>cm_caches := [(''c'', \<lparr>cc_Id = 0, cc_Name = ''c'',
     cc_Tiers = [NewPrefixCache ''c'' ''t0'' 100 60 None, snd (Prefix_Set (pc_at 1) (NewPrefixCache ''c'' ''t1'' 100 60 None) ''k'' [1] 0)],
     cc_EvictionPolicy = ''lru'', cc_CoherencePolicy = ''write-through'', cc_WarmupEnabled = False, cc_CommonPrefixes = []\<rparr>)]\<rparr>"

lemma ct_demo_ok: "cm_ok ct_demo" "ids_ok ct_demo"
  using Prefix_Set_ok [OF NewPrefixCache_ok] NewPrefixCache_ok by (auto simp: cm_ok_def ct_demo_def ids_ok_def split: if_splits)

section \<open>Properties\<close>

text \<open>
  C13. Warmup does what it is for: when the warmup of a cache of prefix tiers runs it completes, and the
  next thing done to the cache, if it is a \<open>Get\<close> of any of the common prefixes within a day, returns that
  prefix. (An eviction, or the next reconciliation of the cache, which empties its tiers, may come
  first.)
\<close>

theorem cache_warmup_serves:
  assumes "cm_ok m" and "gm_get (cm_caches m) n = Some cfg" and "cc_Tiers cfg \<noteq> []" and "p \<in> set prefixes"
    and "\<forall>i < length prefixes. pe_now (e' 0) \<le> pe_now (e i 0) + 24 * hour"
  shows "\<exists>m' en. run_task prefix_tier e (Warmup n prefixes) m = (Ok (), m') \<and>
    fst (Cache_Get prefix_tier e' m' n (''prefix:'' @ p)) = Ok en \<and> ce_Value en = string_bytes p"
proof -
  have ok: "\<forall>t \<in> set (cc_Tiers cfg). pc_ok t" using assms(1,2) by (auto simp: cm_ok_def)
  from warm_prefixes_head [OF ok assms(3), of prefixes "e' 0" e 0] assms(5) obtain t ts where
    ts: "warm_prefixes prefix_tier e 0 prefixes (cc_Tiers cfg) = (Ok (), t # ts)" "pc_ok t" "warm (e' 0) t p"
    using assms(4) by simp (metis list.exhaust_sel list.set_intros(1))
  then obtain b where b: "gm_get (pc_gpuBlocks t) (''prefix:'' @ p) = Some b" by (auto simp: warm_def gm_has_def)
  obtain r t' where r: "Prefix_Get (e' 0) t (''prefix:'' @ p) = (Ok r, t')" using resident_get [OF ts(2) b] by blast
  then have "map_option ce_Value r = Some (string_bytes p)" using prefix.get_live [OF ts(2) r] ts(3) by (simp add: warm_def)
  then obtain en where en: "r = Some en" "ce_Value en = string_bytes p" by auto
  have "get_tiers prefix_tier e' 0 (t # ts) (''prefix:'' @ p) = (Ok (Some (0, en)), t' # ts)"
    using r en by (simp add: prefix_tier_def)
  then have "fst (Cache_Get prefix_tier e' (put_tiers n cfg (t # ts) m) n (''prefix:'' @ p)) = Ok en"
    by (intro Cache_Get_hit [OF put_tiers_get]) simp
  moreover have "run_task prefix_tier e (Warmup n prefixes) m = (Ok (), put_tiers n cfg (t # ts) m)"
    using ts(1) assms(2) by (simp add: warmupCache_def)
  ultimately show ?thesis using en(2) by blast
qed

theorem cache_warmup_serves_witness:
  "\<exists>m' en. run_task prefix_tier (\<lambda>_ _. pc_at 2) (Warmup ''c'' [''a'', ''b'']) ct_demo = (Ok (), m') \<and>
    fst (Cache_Get prefix_tier (\<lambda>_. pc_at 9) m' ''c'' ''prefix:a'') = Ok en \<and> ce_Value en = [97]"
proof -
  obtain cfg where "gm_get (cm_caches ct_demo) ''c'' = Some cfg" "cc_Tiers cfg \<noteq> []" by (simp add: ct_demo_def)
  moreover have "\<forall>i < length [''a'', ''b'']. pe_now (pc_at 9) \<le> pe_now (pc_at 2) + 24 * hour" by (simp add: pc_at_def hour_def)
  moreover have "string_bytes ''a'' = [97]" by (simp add: string_bytes_def of_char_def)
  ultimately show ?thesis using cache_warmup_serves [OF ct_demo_ok(1), of "''c''" cfg "''a''" "[''a'', ''b'']" "\<lambda>_. pc_at 9" "\<lambda>_ _. pc_at 2"]
    by simp
qed

text \<open>
  C33. A promotion that is late brings a deleted key back. Under write-through a \<open>Get\<close> that finds the key in
  a lower tier starts a goroutine with the entry it found; when the key is deleted before that has
  run, a \<open>Get\<close> finds nothing, as it should, but once the goroutine has run the old value is back in
  the first tier, for that tier's whole default time to live.
\<close>

theorem cache_promotion_resurrects:
  assumes "cm_ok m" and "ids_ok m" and "gm_get (cm_caches m) n = Some cfg" and "cc_CoherencePolicy cfg = ''write-through''"
    and "cc_Tiers cfg = t # rest" and "distinct (map pc_tierName (cc_Tiers cfg))" and "pc_live (e 0) t k = None"
    and "Cache_Get prefix_tier e m n k = (Ok en, m1)" and "Cache_Delete prefix_tier d m1 n k = (r2, m2)"
    and "pe_now (e' 0) \<le> pe_now (g 0 0) + pc_defaultTTL t"
  shows "\<exists>task m3 en'. cm_tasks m1 = cm_tasks m @ [task] \<and> fst (Cache_Get prefix_tier e' m2 n k) = Err (KeyNotFound k) \<and>
    run_task prefix_tier g task m2 = (Ok (), m3) \<and> fst (Cache_Get prefix_tier e' m3 n k) = Ok en' \<and> ce_Value en' = ce_Value en"
proof -
  from get_then_delete [OF assms(1-9)] obtain current cfg2 t2 rest2 where
    g: "cm_tasks m1 = cm_tasks m @ [Promote (cc_Id cfg) current k en]"
      "find (\<lambda>(n, c). cc_Id c = cc_Id cfg) (cm_caches m2) = Some (n, cfg2)" "cc_Tiers cfg2 = t2 # rest2"
      "\<forall>u \<in> set (t2 # rest2). pc_ok u" "pc_tierName t2 \<noteq> current" "pc_defaultTTL t2 = pc_defaultTTL t" "ce_TTL en = 0" .
  have "op_Name prefix_tier t2 \<noteq> current" using g(5) by (simp add: prefix_tier_def Prefix_Name_def)
  moreover have "pc_alive (g 0 0) t2 (ce_TTL en) (e' 0)" using assms(10) g(6,7) by (simp add: pc_alive_def)
  ultimately obtain ts3 en' ts4 where
    p: "promoteToPreviousTiers prefix_tier (g 0) current k en (t2 # rest2) = (Ok (), ts3)"
      "get_tiers prefix_tier e' 0 ts3 k = (Ok (Some (0, en')), ts4)" "ce_Value en' = ce_Value en"
    using pm.promote_visible [OF g(4), of current "g 0" en e' k] by blast
  have "run_task prefix_tier g (Promote (cc_Id cfg) current k en) m2 = (Ok (), put_tiers n cfg2 ts3 m2)" using g(2,3) p(1) by simp
  moreover have "fst (Cache_Get prefix_tier e' (put_tiers n cfg2 ts3 m2) n k) = Ok en'"
    by (rule Cache_Get_hit [OF put_tiers_get]) (simp add: p(2))
  moreover have "fst (Cache_Get prefix_tier e' m2 n k) = Err (KeyNotFound k)"
    using get_deleted [OF get_keeps [OF assms(1,3,8)]] assms(9) by (metis snd_conv)
  ultimately show ?thesis using g(1) p(3) by blast
qed

theorem cache_promotion_resurrects_witness:
  "\<exists>en m1 m2 task m3 en'. Cache_Get prefix_tier (\<lambda>_. pc_at 2) ct_demo ''c'' ''k'' = (Ok en, m1) \<and>
    Cache_Delete prefix_tier (\<lambda>_. pc_at 3) m1 ''c'' ''k'' = (Ok (), m2) \<and> cm_tasks m1 = [task] \<and>
    fst (Cache_Get prefix_tier (\<lambda>_. pc_at 9) m2 ''c'' ''k'') = Err (KeyNotFound ''k'') \<and>
    run_task prefix_tier (\<lambda>_ _. pc_at 4) task m2 = (Ok (), m3) \<and>
    fst (Cache_Get prefix_tier (\<lambda>_. pc_at 9) m3 ''c'' ''k'') = Ok en' \<and> ce_Value en' = [1]"
proof -
  let ?t = "NewPrefixCache ''c'' ''t0'' 100 60 None"
  let ?g = "Cache_Get prefix_tier (\<lambda>_. pc_at 2) ct_demo ''c'' ''k''"
  obtain cfg where cfg: "gm_get (cm_caches ct_demo) ''c'' = Some cfg" "cc_CoherencePolicy cfg = ''write-through''"
    "cc_Tiers cfg = ?t # [snd (Prefix_Set (pc_at 1) (NewPrefixCache ''c'' ''t1'' 100 60 None) ''k'' [1] 0)]"
    by (simp add: ct_demo_def)
  have d: "distinct (map pc_tierName (cc_Tiers cfg))" unfolding cfg(3) by code_simp
  have l: "pc_live (pc_at 2) ?t ''k'' = None" by code_simp
  have "case fst ?g of Ok en \<Rightarrow> ce_Value en = [1] | _ \<Rightarrow> False" by code_simp
  then obtain en m1 where g: "?g = (Ok en, m1)" "ce_Value en = [1]" by (cases ?g) (auto split: outcome.splits)
  obtain r2 m2 where r2: "Cache_Delete prefix_tier (\<lambda>_. pc_at 3) m1 ''c'' ''k'' = (r2, m2)" by fastforce
  have "fst (Cache_Delete prefix_tier (\<lambda>_. pc_at 3) (snd ?g) ''c'' ''k'') = Ok ()" by code_simp
  then have "r2 = Ok ()" using g r2 by simp
  moreover have "cm_tasks ct_demo = []" by (simp add: ct_demo_def NewCacheManager_def)
  moreover have "pe_now (pc_at 9) \<le> pe_now (pc_at 4) + pc_defaultTTL ?t" by code_simp
  ultimately show ?thesis
    using cache_promotion_resurrects [OF ct_demo_ok cfg d l g(1) r2, of "\<lambda>_. pc_at 9" "\<lambda>_ _. pc_at 4"] g r2 by auto
qed

end
