(* ===== verification/FileSystem.thy ===== *)
theory FileSystem
  imports ApiTypes
begin

text \<open>
  What the local cache tier uses of Go's \<open>path/filepath\<close> and \<open>os\<close> packages. A path is kept in its
  cleaned form: whether it is rooted, and its components. The file system is the contents of the
  files and the list of the directories; symbolic links and permissions are not part of it. Any
  call can fail for reasons outside the program: an \<open>io_faults\<close> value says which calls do and what
  they leave behind.
\<close>

section \<open>Paths\<close>

type_synonym path = "bool \<times> string list"

fun split_slash :: "string \<Rightarrow> string list" where
  "split_slash [] = [[]]"
| "split_slash (c # s) =
    (if c = CHR ''/'' then [] # split_slash s
     else case split_slash s of x # xs \<Rightarrow> (c # x) # xs | [] \<Rightarrow> [[c]])"

text \<open>The loop of \<open>filepath.Clean\<close>; \<open>acc\<close> is the output so far, last component first.\<close>

fun clean_path :: "bool \<Rightarrow> string list \<Rightarrow> string list \<Rightarrow> string list" where
  "clean_path rooted acc [] = rev acc"
| "clean_path rooted acc (x # xs) =
    (if x = [] \<or> x = ''.'' then clean_path rooted acc xs
     else if x = ''..'' then
       (case acc of
          [] \<Rightarrow> clean_path rooted (if rooted then [] else [x]) xs
        | a # as \<Rightarrow> clean_path rooted (if a = ''..'' then x # acc else as) xs)
     else clean_path rooted (x # acc) xs)"

definition filepath_Join :: "string list \<Rightarrow> path" where
  "filepath_Join elems =
    (case dropWhile (\<lambda>x. x = []) elems of
       [] \<Rightarrow> (False, [])
     | e # es \<Rightarrow> (hd e = CHR ''/'', clean_path (hd e = CHR ''/'') [] (concat (map split_slash (e # es)))))"

text \<open>\<open>filepath.Join\<close> with a first element that is already clean.\<close>

definition path_join :: "path \<Rightarrow> string list \<Rightarrow> path" where
  "path_join p elems = (fst p, clean_path (fst p) (rev (snd p)) (concat (map split_slash elems)))"

definition filepath_Dir :: "path \<Rightarrow> path" where
  "filepath_Dir p = (fst p, butlast (snd p))"

definition path_prefix :: "path \<Rightarrow> path \<Rightarrow> bool" where
  "path_prefix p q \<longleftrightarrow> fst p = fst q \<and> take (length (snd p)) (snd q) = snd p"

lemma split_slash_plain: "CHR ''/'' \<notin> set s \<Longrightarrow> split_slash s = [s]"
  by (induction s) auto

lemma clean_path_plain:
  "\<forall>x \<in> set xs. x \<noteq> [] \<and> x \<noteq> ''.'' \<and> x \<noteq> ''..'' \<Longrightarrow> clean_path r acc xs = rev acc @ xs"
  by (induction xs arbitrary: acc) auto

section \<open>The file system\<close>

record filesystem =
  fs_files :: "(path, bytes) gomap"
  fs_dirs :: "path list"

datatype write_fault = NoFault | OpenFault | WriteFault bytes

record io_faults =
  io_mkdir :: bool
  io_write :: write_fault
  io_read :: bool
  io_remove :: "path \<Rightarrow> bool"
  io_removeAll :: "(path \<Rightarrow> bool) option"
  io_stat :: bool

definition no_faults :: io_faults where
  "no_faults = \<lparr>io_mkdir = False, io_write = NoFault, io_read = False, io_remove = (\<lambda>_. False),
     io_removeAll = None, io_stat = False\<rparr>"

definition is_dir :: "filesystem \<Rightarrow> path \<Rightarrow> bool" where
  "is_dir fs p \<longleftrightarrow> snd p = [] \<or> p \<in> set (fs_dirs fs)"

definition prefixes :: "path \<Rightarrow> path list" where
  "prefixes p = map (\<lambda>n. (fst p, take n (snd p))) [0 ..< Suc (length (snd p))]"

text \<open>\<open>MkdirAll\<close> makes every missing directory on the way, and fails where a file is in the way.\<close>

definition os_MkdirAll :: "io_faults \<Rightarrow> path \<Rightarrow> filesystem \<Rightarrow> filesystem option" where
  "os_MkdirAll io p fs =
    (if io_mkdir io \<or> list_ex (gm_has (fs_files fs)) (prefixes p) then None
     else Some (fs\<lparr>fs_dirs := fs_dirs fs @ filter (\<lambda>q. \<not> is_dir fs q) (prefixes p)\<rparr>))"

text \<open>
  \<open>WriteFile\<close> truncates the file when it opens it: where the write itself fails, part of the data
  is in the file and the old contents are gone.
\<close>

definition os_WriteFile :: "io_faults \<Rightarrow> path \<Rightarrow> bytes \<Rightarrow> filesystem \<Rightarrow> bool \<times> filesystem" where
  "os_WriteFile io p data fs =
    (if is_dir fs p \<or> \<not> is_dir fs (filepath_Dir p) then (False, fs)
     else case io_write io of
       NoFault \<Rightarrow> (True, fs\<lparr>fs_files := gm_set p data (fs_files fs)\<rparr>)
     | OpenFault \<Rightarrow> (False, fs)
     | WriteFault part \<Rightarrow> (False, fs\<lparr>fs_files := gm_set p part (fs_files fs)\<rparr>))"

definition os_ReadFile :: "io_faults \<Rightarrow> path \<Rightarrow> filesystem \<Rightarrow> bytes option" where
  "os_ReadFile io p fs = (if io_read io then None else gm_get (fs_files fs) p)"

text \<open>\<open>Remove\<close> takes a file or an empty directory away. The program ignores its result.\<close>

definition dir_empty :: "filesystem \<Rightarrow> path \<Rightarrow> bool" where
  "dir_empty fs p \<longleftrightarrow> list_all (\<lambda>(q, d). \<not> path_prefix p q) (fs_files fs) \<and>
     list_all (\<lambda>q. q = p \<or> \<not> path_prefix p q) (fs_dirs fs)"

definition os_Remove :: "io_faults \<Rightarrow> path \<Rightarrow> filesystem \<Rightarrow> filesystem" where
  "os_Remove io p fs =
    (if io_remove io p then fs
     else if gm_has (fs_files fs) p then fs\<lparr>fs_files := gm_del p (fs_files fs)\<rparr>
     else if dir_empty fs p then fs\<lparr>fs_dirs := removeAll p (fs_dirs fs)\<rparr>
     else fs)"

definition os_RemoveAll :: "io_faults \<Rightarrow> path \<Rightarrow> filesystem \<Rightarrow> bool \<times> filesystem" where
  "os_RemoveAll io p fs =
    (let keep = (case io_removeAll io of None \<Rightarrow> (\<lambda>q. False) | Some f \<Rightarrow> f) in
     (io_removeAll io = None,
      fs\<lparr>fs_files := filter (\<lambda>(q, d). \<not> path_prefix p q \<or> keep q) (fs_files fs),
         fs_dirs := filter (\<lambda>q. \<not> path_prefix p q \<or> keep q) (fs_dirs fs)\<rparr>))"

definition os_Stat :: "io_faults \<Rightarrow> path \<Rightarrow> filesystem \<Rightarrow> bool" where
  "os_Stat io p fs \<longleftrightarrow> \<not> io_stat io \<and> (is_dir fs p \<or> gm_has (fs_files fs) p)"

section \<open>What a call leaves of the files\<close>

lemma MkdirAll_files: "os_MkdirAll io p fs = Some fs' \<Longrightarrow> fs_files fs' = fs_files fs"
  by (auto simp: os_MkdirAll_def split: if_splits)

lemma MkdirAll_dir: "os_MkdirAll io p fs = Some fs' \<Longrightarrow> is_dir fs' p"
proof -
  assume a: "os_MkdirAll io p fs = Some fs'"
  have "p \<in> set (prefixes p)" by (force simp: prefixes_def)
  with a show ?thesis by (auto simp: os_MkdirAll_def is_dir_def split: if_splits)
qed

lemma WriteFile_other: "q \<noteq> p \<Longrightarrow> gm_get (fs_files (snd (os_WriteFile io p d fs))) q = gm_get (fs_files fs) q"
  by (auto simp: os_WriteFile_def gm_get_set split: write_fault.split)

lemma WriteFile_same: "fst (os_WriteFile io p d fs) \<Longrightarrow> gm_get (fs_files (snd (os_WriteFile io p d fs))) p = Some d"
  by (auto simp: os_WriteFile_def gm_get_set split: write_fault.splits if_splits)

lemma Remove_other: "q \<noteq> p \<Longrightarrow> gm_get (fs_files (os_Remove io p fs)) q = gm_get (fs_files fs) q"
  by (auto simp: os_Remove_def gm_get_del)

lemmas fs_other = MkdirAll_files WriteFile_other Remove_other

end
