(* ===== verification/LocalCache.thy ===== *)
theory LocalCache
  imports FileSystem CacheTypes
begin

text \<open>
  The local disk tier, \<open>internal/cache/local.go\<close>: an index in memory and one file per entry. The
  state of the tier includes the file system it writes to. \<open>Get\<close> and \<open>Set\<close> take the mutex several
  times; their definitions run the critical sections in sequence, and the reachable states of
  \<open>LocalCacheInv\<close> also have the sections as single steps, interleaved with other calls, and what
  happens when two deletions race. Compression and the encoding of the saved index are
  the standard and third-party packages the code calls; they are the fields of a \<open>codec\<close>. What a
  call reads from outside is an \<open>lc_env\<close>: the clock, the order of \<open>range\<close> loops, and I/O failures.
\<close>

section \<open>Data\<close>

record LocalCacheEntry =
  lce_Key :: string
  lce_Value :: bytes
  lce_CreatedAt :: timestamp
  lce_AccessedAt :: timestamp
  lce_ExpiresAt :: timestamp
  lce_Size :: int
  lce_Compressed :: bool

type_synonym local_index = "(string, LocalCacheEntry) gomap"
type_synonym local_ord = "local_index \<Rightarrow> local_index"

record LocalCache =
  lc_cacheName :: string
  lc_tierName :: string
  lc_maxSize :: quantity
  lc_defaultTTL :: duration
  lc_config :: "LocalCacheConfig option"
  lc_basePath :: path
  lc_index :: local_index
  lc_hits :: int
  lc_misses :: int
  lc_usedSize :: int
  lc_entries :: int
  lc_evictions :: int
  lc_compression :: bool
  lc_compressAlgo :: string
  lc_evictCh :: bool
  lc_stopCh_closed :: bool
  lc_fs :: filesystem

record codec =
  cd_zstd_enc :: "bytes \<Rightarrow> bytes option"
  cd_zstd_dec :: "bytes \<Rightarrow> bytes option"
  cd_gzip_enc :: "bytes \<Rightarrow> bytes option"
  cd_gzip_dec :: "bytes \<Rightarrow> bytes option"
  cd_gob_enc :: "local_index \<Rightarrow> bytes option"
  cd_gob_dec :: "bytes \<Rightarrow> local_index option"

record lc_env =
  le_now :: timestamp
  le_access :: timestamp
  le_io :: io_faults

section \<open>Files and compression\<close>

definition getFilePath :: "LocalCache \<Rightarrow> string \<Rightarrow> path" where
  "getFilePath c key =
    (let subdir = (if length key \<ge> 2 then take 2 key else ''00'') in path_join (lc_basePath c) [subdir, key])"

definition lc_compress :: "codec \<Rightarrow> LocalCache \<Rightarrow> bytes \<Rightarrow> bytes option" where
  "lc_compress cd c data =
    (if lc_compressAlgo c = ''zstd'' then cd_zstd_enc cd data
     else if lc_compressAlgo c = ''gzip'' then cd_gzip_enc cd data
     else cd_gzip_enc cd data)"

definition lc_decompress :: "codec \<Rightarrow> LocalCache \<Rightarrow> bytes \<Rightarrow> bytes option" where
  "lc_decompress cd c data =
    (if lc_compressAlgo c = ''zstd'' then cd_zstd_dec cd data
     else if lc_compressAlgo c = ''gzip'' then cd_gzip_dec cd data
     else cd_gzip_dec cd data)"

definition deleteEntry :: "io_faults \<Rightarrow> string \<Rightarrow> LocalCacheEntry \<Rightarrow> LocalCache \<Rightarrow> LocalCache" where
  "deleteEntry io key entry c =
     c\<lparr>lc_fs := os_Remove io (getFilePath c key) (lc_fs c),
       lc_usedSize := wrap64 (lc_usedSize c - lce_Size entry),
       lc_entries := wrap64 (lc_entries c - 1),
       lc_index := gm_del key (lc_index c)\<rparr>"

section \<open>Construction, saving and loading\<close>

text \<open>
  The loop over a loaded index; \<open>nows key\<close> is the clock when it visits the key. Expired entries
  leave the index, but their files stay.
\<close>

definition load_step :: "(string \<Rightarrow> timestamp) \<Rightarrow> string \<times> LocalCacheEntry \<Rightarrow> LocalCache \<Rightarrow> LocalCache" where
  "load_step nows = (\<lambda>(key, entry) c.
     if nows key > lce_ExpiresAt entry then c\<lparr>lc_index := gm_del key (lc_index c)\<rparr>
     else c\<lparr>lc_entries := wrap64 (lc_entries c + 1), lc_usedSize := wrap64 (lc_usedSize c + lce_Size entry)\<rparr>)"

definition load_index :: "(string \<Rightarrow> timestamp) \<Rightarrow> local_index \<Rightarrow> LocalCache \<Rightarrow> LocalCache" where
  "load_index nows loaded c = fold (load_step nows) loaded (c\<lparr>lc_index := loaded\<rparr>)"

definition initialize :: "codec \<Rightarrow> io_faults \<Rightarrow> (string \<Rightarrow> timestamp) \<Rightarrow> local_ord \<Rightarrow> LocalCache
    \<Rightarrow> (cache_error, unit) outcome \<times> LocalCache" where
  "initialize cd io nows ord c =
    (case os_MkdirAll io (lc_basePath c) (lc_fs c) of
       None \<Rightarrow> (Err (TierFailure ''failed to create cache directory''), c)
     | Some fs \<Rightarrow>
         let c1 = c\<lparr>lc_fs := fs\<rparr> in
         (case os_ReadFile io (path_join (lc_basePath c) [''index.gob'']) fs of
            None \<Rightarrow> (Ok (), c1)
          | Some data \<Rightarrow>
              (case cd_gob_dec cd data of
                 None \<Rightarrow> (Ok (), c1\<lparr>lc_index := []\<rparr>)
               | Some loaded \<Rightarrow> (Ok (), load_index nows (ord loaded) c1))))"

definition blank_cache :: "filesystem \<Rightarrow> string \<Rightarrow> string \<Rightarrow> quantity \<Rightarrow> duration \<Rightarrow> LocalCacheConfig option \<Rightarrow> LocalCache" where
  "blank_cache fs cacheName tierName maxSize ttl config =
    (let mount = (case config of None \<Rightarrow> ''/cache''
                  | Some cf \<Rightarrow> if lcc_MountPath cf \<noteq> '''' then lcc_MountPath cf else ''/cache'');
         algo = (case config of None \<Rightarrow> ''lz4''
                 | Some cf \<Rightarrow> if lcc_CompressionAlgorithm cf \<noteq> '''' then lcc_CompressionAlgorithm cf else ''lz4'')
     in \<lparr>lc_cacheName = cacheName, lc_tierName = tierName, lc_maxSize = maxSize,
        lc_defaultTTL = (if ttl = 0 then 24 * hour else ttl), lc_config = config,
        lc_basePath = filepath_Join [mount, cacheName, tierName], lc_index = [],
        lc_hits = 0, lc_misses = 0, lc_usedSize = 0, lc_entries = 0, lc_evictions = 0,
        lc_compression = (case config of None \<Rightarrow> False | Some cf \<Rightarrow> lcc_Compression cf), lc_compressAlgo = algo,
        lc_evictCh = False, lc_stopCh_closed = False, lc_fs = fs\<rparr>)"

definition NewLocalCache :: "codec \<Rightarrow> io_faults \<Rightarrow> (string \<Rightarrow> timestamp) \<Rightarrow> local_ord \<Rightarrow> filesystem
    \<Rightarrow> string \<Rightarrow> string \<Rightarrow> quantity \<Rightarrow> duration \<Rightarrow> LocalCacheConfig option \<Rightarrow> LocalCache" where
  "NewLocalCache cd io nows ord fs cacheName tierName maxSize ttl config =
     snd (initialize cd io nows ord (blank_cache fs cacheName tierName maxSize ttl config))"

definition SaveIndex :: "codec \<Rightarrow> io_faults \<Rightarrow> LocalCache \<Rightarrow> (cache_error, unit) outcome \<times> LocalCache" where
  "SaveIndex cd io c =
    (case cd_gob_enc cd (lc_index c) of
       None \<Rightarrow> (Err (TierFailure ''failed to encode index''), c)
     | Some data \<Rightarrow>
         (case os_WriteFile io (path_join (lc_basePath c) [''index.gob'']) data (lc_fs c) of
            (True, fs) \<Rightarrow> (Ok (), c\<lparr>lc_fs := fs\<rparr>)
          | (False, fs) \<Rightarrow> (Err (TierFailure ''failed to write index''), c\<lparr>lc_fs := fs\<rparr>)))"

text \<open>\<open>Stop\<close> ignores the error of \<open>SaveIndex\<close>; closing the channel again panics.\<close>

definition Local_Stop :: "codec \<Rightarrow> io_faults \<Rightarrow> LocalCache \<Rightarrow> (cache_error, unit) outcome \<times> LocalCache" where
  "Local_Stop cd io c =
    (if lc_stopCh_closed c then (Panic, c)
     else (Ok (), snd (SaveIndex cd io (c\<lparr>lc_stopCh_closed := True\<rparr>))))"

section \<open>Expiry and eviction\<close>

definition cleanupExpired :: "io_faults \<Rightarrow> local_ord \<Rightarrow> timestamp \<Rightarrow> LocalCache \<Rightarrow> LocalCache" where
  "cleanupExpired io ord now c =
     fold (\<lambda>(key, entry) c. if now > lce_ExpiresAt entry then deleteEntry io key entry c else c) (ord (lc_index c)) c"

text \<open>The inner loop of \<open>evict\<close>: the empty key doubles as the mark that nothing was seen yet.\<close>

definition find_oldest :: "local_index \<Rightarrow> string \<times> timestamp" where
  "find_oldest entries = fold (\<lambda>(key, entry) (oldestKey, oldestTime).
     if oldestKey = '''' \<or> lce_AccessedAt entry < oldestTime then (key, lce_AccessedAt entry)
     else (oldestKey, oldestTime)) entries ('''', 0)"

definition evict_round :: "io_faults \<Rightarrow> local_ord \<Rightarrow> LocalCache \<Rightarrow> LocalCache" where
  "evict_round io ord c =
    (let oldestKey = fst (find_oldest (ord (lc_index c))) in
     if oldestKey \<noteq> '''' then
       (case gm_get (lc_index c) oldestKey of
          Some entry \<Rightarrow> (let c' = deleteEntry io oldestKey entry c in c'\<lparr>lc_evictions := wrap64 (lc_evictions c' + 1)\<rparr>)
        | None \<Rightarrow> c)
     else c)"

definition evict_target :: "LocalCache \<Rightarrow> int" where
  "evict_target c = go_div (wrap64 (lc_maxSize c * 80)) 100"

text \<open>
  The outer loop, which need not end; round \<open>i\<close> ranges over the map in the order \<open>ords i\<close>. No
  result means that the loop runs for ever, with the lock held.
\<close>

partial_function (option) evict_rounds :: "io_faults \<Rightarrow> (nat \<Rightarrow> local_ord) \<Rightarrow> nat \<Rightarrow> LocalCache \<Rightarrow> LocalCache option" where
  "evict_rounds io ords i c =
    (if lc_usedSize c > evict_target c \<and> lc_index c \<noteq> [] then evict_rounds io ords (Suc i) (evict_round io (ords i) c)
     else Some c)"

definition evict :: "io_faults \<Rightarrow> (nat \<Rightarrow> local_ord) \<Rightarrow> LocalCache \<Rightarrow> LocalCache option" where
  "evict io ords c = evict_rounds io ords 0 c"

text \<open>One turn of \<open>evictionLoop\<close>: it takes a pending signal, if there is one.\<close>

definition evictionLoop :: "io_faults \<Rightarrow> (nat \<Rightarrow> local_ord) \<Rightarrow> LocalCache \<Rightarrow> LocalCache option" where
  "evictionLoop io ords c =
    (if lc_stopCh_closed c \<or> \<not> lc_evictCh c then Some c else evict io ords (c\<lparr>lc_evictCh := False\<rparr>))"

section \<open>The tier interface\<close>

definition Local_Name :: "LocalCache \<Rightarrow> string" where
  "Local_Name c = lc_tierName c"

definition Local_Type :: "LocalCache \<Rightarrow> CacheTierType" where
  "Local_Type c = CacheTierTypeLocal"

definition lc_miss :: "LocalCache \<Rightarrow> LocalCache" where
  "lc_miss c = c\<lparr>lc_misses := wrap64 (lc_misses c + 1)\<rparr>"

definition lc_touch :: "timestamp \<Rightarrow> string \<Rightarrow> LocalCacheEntry \<Rightarrow> LocalCache \<Rightarrow> LocalCache" where
  "lc_touch now key entry c =
     c\<lparr>lc_hits := wrap64 (lc_hits c + 1), lc_index := gm_set key (entry\<lparr>lce_AccessedAt := now\<rparr>) (lc_index c)\<rparr>"

definition Local_Get :: "codec \<Rightarrow> lc_env \<Rightarrow> LocalCache \<Rightarrow> string \<Rightarrow> (cache_error, CacheEntry option) outcome \<times> LocalCache" where
  "Local_Get cd e c key =
    (case gm_get (lc_index c) key of
       None \<Rightarrow> (Ok None, lc_miss c)
     | Some entry \<Rightarrow>
         if le_now e > lce_ExpiresAt entry then (Ok None, lc_miss (deleteEntry (le_io e) key entry c))
         else case os_ReadFile (le_io e) (getFilePath c key) (lc_fs c) of
           None \<Rightarrow> (Ok None, deleteEntry (le_io e) key entry (lc_miss c))
         | Some data \<Rightarrow>
             (case (if lce_Compressed entry then lc_decompress cd c data else Some data) of
                None \<Rightarrow> (Err (TierFailure ''failed to decompress''), lc_miss c)
              | Some value \<Rightarrow>
                  (Ok (Some \<lparr>ce_Key = key, ce_Value = value, ce_Size = lce_Size entry, ce_CreatedAt = lce_CreatedAt entry,
                     ce_AccessedAt = le_access e, ce_AccessCount = 0, ce_TTL = 0, ce_Tier = lc_tierName c, ce_Metadata = []\<rparr>),
                   lc_touch (le_access e) key entry c)))"

text \<open>The data \<open>Set\<close> writes, and whether it is compressed.\<close>

definition encode_value :: "codec \<Rightarrow> LocalCache \<Rightarrow> bytes \<Rightarrow> bytes \<times> bool" where
  "encode_value cd c value =
    (if lc_compression c \<and> length value > 1024
     then (case lc_compress cd c value of None \<Rightarrow> (value, False) | Some data \<Rightarrow> (data, True))
     else (value, False))"

definition new_entry :: "timestamp \<Rightarrow> string \<Rightarrow> bytes \<Rightarrow> bool \<Rightarrow> duration \<Rightarrow> LocalCacheEntry" where
  "new_entry now key data compressed ttl = \<lparr>lce_Key = key, lce_Value = [], lce_CreatedAt = now, lce_AccessedAt = now,
     lce_ExpiresAt = now + ttl, lce_Size = int (length data), lce_Compressed = compressed\<rparr>"

text \<open>The critical section of \<open>Set\<close>.\<close>

definition file_entry :: "string \<Rightarrow> LocalCacheEntry \<Rightarrow> LocalCache \<Rightarrow> LocalCache" where
  "file_entry key entry c =
    (let c1 = (case gm_get (lc_index c) key of
                 Some old \<Rightarrow> c\<lparr>lc_usedSize := wrap64 (lc_usedSize c - lce_Size old)\<rparr>
               | None \<Rightarrow> c\<lparr>lc_entries := wrap64 (lc_entries c + 1)\<rparr>)
     in c1\<lparr>lc_index := gm_set key entry (lc_index c1), lc_usedSize := wrap64 (lc_usedSize c1 + lce_Size entry)\<rparr>)"

text \<open>A full channel drops the signal: at most one eviction is pending.\<close>

definition signal_evict :: "LocalCache \<Rightarrow> LocalCache" where
  "signal_evict c =
    (if lc_usedSize c > go_div (wrap64 (lc_maxSize c * 90)) 100 then c\<lparr>lc_evictCh := True\<rparr> else c)"

definition Local_Set :: "codec \<Rightarrow> lc_env \<Rightarrow> LocalCache \<Rightarrow> string \<Rightarrow> bytes \<Rightarrow> duration \<Rightarrow> (cache_error, unit) outcome \<times> LocalCache" where
  "Local_Set cd e c key value ttl0 =
    (let ttl = (if ttl0 = 0 then lc_defaultTTL c else ttl0);
         (data, compressed) = encode_value cd c value;
         filePath = getFilePath c key
     in case os_MkdirAll (le_io e) (filepath_Dir filePath) (lc_fs c) of
          None \<Rightarrow> (Err (TierFailure ''failed to create directory''), c)
        | Some fs \<Rightarrow>
            (case os_WriteFile (le_io e) filePath data fs of
               (False, fs') \<Rightarrow> (Err (TierFailure ''failed to write file''), c\<lparr>lc_fs := fs'\<rparr>)
             | (True, fs') \<Rightarrow>
                 (Ok (), signal_evict (file_entry key (new_entry (le_now e) key data compressed ttl) (c\<lparr>lc_fs := fs'\<rparr>)))))"

definition Local_Delete :: "lc_env \<Rightarrow> LocalCache \<Rightarrow> string \<Rightarrow> (cache_error, unit) outcome \<times> LocalCache" where
  "Local_Delete e c key =
    (case gm_get (lc_index c) key of
       None \<Rightarrow> (Ok (), c)
     | Some entry \<Rightarrow> (Ok (), deleteEntry (le_io e) key entry c))"

definition Local_Clear :: "lc_env \<Rightarrow> LocalCache \<Rightarrow> (cache_error, unit) outcome \<times> LocalCache" where
  "Local_Clear e c =
    (case os_RemoveAll (le_io e) (lc_basePath c) (lc_fs c) of
       (False, fs) \<Rightarrow> (Err (TierFailure ''failed to clear cache''), c\<lparr>lc_fs := fs\<rparr>)
     | (True, fs) \<Rightarrow>
         (case os_MkdirAll (le_io e) (lc_basePath c) fs of
            None \<Rightarrow> (Err (TierFailure ''failed to recreate cache directory''), c\<lparr>lc_fs := fs\<rparr>)
          | Some fs' \<Rightarrow> (Ok (), c\<lparr>lc_fs := fs', lc_index := [], lc_usedSize := 0, lc_entries := 0\<rparr>)))"

definition Local_Size :: "LocalCache \<Rightarrow> quantity" where
  "Local_Size c = lc_maxSize c"

definition Local_UsedSize :: "LocalCache \<Rightarrow> quantity" where
  "Local_UsedSize c = lc_usedSize c"

definition Local_Entries :: "LocalCache \<Rightarrow> int" where
  "Local_Entries c = lc_entries c"

definition Local_Stats :: "LocalCache \<Rightarrow> TierStats" where
  "Local_Stats c = \<lparr>st_HitRate = fst (rates (lc_hits c) (lc_misses c)), st_MissRate = snd (rates (lc_hits c) (lc_misses c)),
     st_AvgLatency = 0, st_Entries = lc_entries c, st_UsedSize = lc_usedSize c, st_MaxSize = lc_maxSize c,
     st_Evictions = lc_evictions c\<rparr>"

definition Local_Healthy :: "io_faults \<Rightarrow> LocalCache \<Rightarrow> bool" where
  "Local_Healthy io c = os_Stat io (lc_basePath c) (lc_fs c)"

definition local_tier :: "codec \<Rightarrow> io_faults \<Rightarrow> (lc_env, LocalCache) CacheTier" where
  "local_tier cd io = \<lparr>op_Name = Local_Name, op_Type = Local_Type, op_Get = Local_Get cd, op_Set = Local_Set cd,
     op_Delete = Local_Delete, op_Clear = Local_Clear, op_Size = Local_Size, op_UsedSize = Local_UsedSize,
     op_Entries = Local_Entries, op_Stats = Local_Stats, op_Healthy = Local_Healthy io\<rparr>"

end
