(* ===== verification/LocalCacheInv.thy ===== *)
theory LocalCacheInv
  imports LocalCache
begin

text \<open>
  The local disk tier: its accounting invariant, the contract of a tier for keys that are plain
  file names, eviction and when it ends, saving and reloading the index, and what a failed write
  or an unusual key does to other entries.
\<close>

section \<open>The invariant\<close>

definition lc_ok :: "LocalCache \<Rightarrow> bool" where
  "lc_ok c \<longleftrightarrow> gm_ok (lc_index c) \<and> lc_usedSize c = wrap64 (gm_sum lce_Size (lc_index c)) \<and>
     lc_entries c = wrap64 (int (length (lc_index c)))"

lemma lc_ok_cong:
  "lc_index c' = lc_index c \<Longrightarrow> lc_usedSize c' = lc_usedSize c \<Longrightarrow> lc_entries c' = lc_entries c \<Longrightarrow> lc_ok c' = lc_ok c"
  by (simp add: lc_ok_def)

lemma lc_miss_sel [simp]:
  "lc_index (lc_miss c) = lc_index c" "lc_fs (lc_miss c) = lc_fs c" "lc_basePath (lc_miss c) = lc_basePath c"
  "lc_usedSize (lc_miss c) = lc_usedSize c" "lc_entries (lc_miss c) = lc_entries c"
  by (simp_all add: lc_miss_def)

lemma lc_miss_ok [inv_intros]: "lc_ok c \<Longrightarrow> lc_ok (lc_miss c)"
  by (simp add: lc_ok_def)

lemma length_gm_del_get:
  assumes "gm_ok m" and "gm_get m k = Some v"
  shows "int (length (gm_del k m)) = int (length m) - 1"
proof -
  have "k \<in> fst ` set m" using gm_get_mem [OF assms(2)] by force
  moreover from this have "0 < length m" by auto
  ultimately show ?thesis using assms(1) by (simp add: length_gm_del of_nat_diff Suc_le_eq)
qed

lemma deleteEntry_ok [inv_intros]:
  assumes "lc_ok c" and "gm_get (lc_index c) k = Some en"
  shows "lc_ok (deleteEntry io k en c)"
  using assms gm_sum_del [of "lc_index c" k en lce_Size] length_gm_del_get [of "lc_index c" k en]
  by (simp add: lc_ok_def deleteEntry_def gm_ok_delete)

lemma lc_touch_ok [inv_intros]:
  assumes "lc_ok c" and "gm_get (lc_index c) k = Some en"
  shows "lc_ok (lc_touch t k en c)"
proof -
  have "k \<in> fst ` set (lc_index c)" using gm_get_mem [OF assms(2)] by force
  then show ?thesis using assms gm_sum_set_old [of "lc_index c" k en lce_Size "en\<lparr>lce_AccessedAt := t\<rparr>"]
    by (simp add: lc_ok_def lc_touch_def gm_ok_update length_gm_set)
qed

lemma file_entry_ok [inv_intros]: "lc_ok c \<Longrightarrow> lc_ok (file_entry k en c)"
proof (cases "gm_get (lc_index c) k")
  case None
  then have k: "k \<notin> fst ` set (lc_index c)" by (simp add: gm_get_none)
  assume "lc_ok c"
  then show ?thesis using None gm_sum_set_new [OF k, of lce_Size en] k
    by (simp add: lc_ok_def file_entry_def Let_def gm_ok_update length_gm_set add.commute)
next
  case (Some old)
  then have k: "k \<in> fst ` set (lc_index c)" using gm_get_mem by force
  assume "lc_ok c"
  then show ?thesis using Some gm_sum_set_old [of "lc_index c" k old lce_Size en] k
    by (simp add: lc_ok_def file_entry_def Let_def gm_ok_update length_gm_set)
qed

lemma signal_evict_ok [inv_intros]: "lc_ok c \<Longrightarrow> lc_ok (signal_evict c)"
  by (simp add: signal_evict_def lc_ok_def)

lemma lc_ok_fs [inv_intros]: "lc_ok c \<Longrightarrow> lc_ok (c\<lparr>lc_fs := fs\<rparr>)"
  by (simp add: lc_ok_def)

lemma Local_Get_ok: "lc_ok c \<Longrightarrow> lc_ok (snd (Local_Get cd e c k))"
  by (auto simp: Local_Get_def split: option.split intro!: inv_intros)

lemma Local_Set_ok: "lc_ok c \<Longrightarrow> lc_ok (snd (Local_Set cd e c k v ttl))"
  by (auto simp: Local_Set_def Let_def split: option.split prod.split bool.split intro!: inv_intros)

lemma Local_Delete_ok: "lc_ok c \<Longrightarrow> lc_ok (snd (Local_Delete e c k))"
  by (auto simp: Local_Delete_def split: option.split intro!: inv_intros)

lemma Local_Clear_ok: "lc_ok c \<Longrightarrow> lc_ok (snd (Local_Clear e c))"
  by (auto simp: Local_Clear_def split: option.split prod.split bool.split intro!: inv_intros) (simp add: lc_ok_def)

lemma SaveIndex_ok: "lc_ok c \<Longrightarrow> lc_ok (snd (SaveIndex cd io c))"
  by (auto simp: SaveIndex_def split: option.split prod.split bool.split intro!: inv_intros)

lemma Local_Stop_ok: "lc_ok c \<Longrightarrow> lc_ok (snd (Local_Stop cd io c))"
  by (auto simp: Local_Stop_def lc_ok_def intro!: SaveIndex_ok [unfolded lc_ok_def, simplified])

text \<open>The expired entries are deleted one after the other; each is still there when its turn comes.\<close>

lemma cleanup_fold_ok:
  assumes "lc_ok c" and "distinct (map fst ks)" and "\<forall>(k, en) \<in> set ks. gm_get (lc_index c) k = Some en"
  shows "lc_ok (fold (\<lambda>(k, en) c. if P k en then deleteEntry io k en c else c) ks c)"
  using assms
proof (induction ks arbitrary: c)
  case (Cons ken ks)
  obtain k en where ken: "ken = (k, en)" by fastforce
  let ?c = "if P k en then deleteEntry io k en c else c"
  have "lc_ok ?c" using Cons.prems ken by (auto intro: deleteEntry_ok)
  moreover have "\<forall>(k', en') \<in> set ks. gm_get (lc_index ?c) k' = Some en'"
    using Cons.prems ken by (force simp: deleteEntry_def gm_get_del)
  ultimately show ?case using Cons.IH [of ?c] Cons.prems(2) ken by simp
qed simp

lemma cleanupExpired_ok:
  assumes "lc_ok c" and "range_ok ord"
  shows "lc_ok (cleanupExpired io ord now c)"
proof -
  have "distinct (map fst (ord (lc_index c)))" using assms by (simp add: range_ok_distinct lc_ok_def)
  moreover have "\<forall>(k, en) \<in> set (ord (lc_index c)). gm_get (lc_index c) k = Some en"
    using assms by (auto simp: range_ok_set lc_ok_def gm_get_in)
  ultimately show ?thesis unfolding cleanupExpired_def
    using cleanup_fold_ok [OF assms(1), of "ord (lc_index c)" "\<lambda>k en. now > lce_ExpiresAt en" io] by simp
qed

section \<open>Loading the saved index\<close>

definition unexpired :: "(string \<Rightarrow> timestamp) \<Rightarrow> string \<times> LocalCacheEntry \<Rightarrow> bool" where
  "unexpired nows ken \<longleftrightarrow> nows (fst ken) \<le> lce_ExpiresAt (snd ken)"

definition loaded_as :: "local_index \<Rightarrow> int \<Rightarrow> int \<Rightarrow> LocalCache \<Rightarrow> LocalCache" where
  "loaded_as ix n u c = c\<lparr>lc_index := ix, lc_entries := wrap64 n, lc_usedSize := wrap64 u\<rparr>"

lemma load_step_expired:
  assumes "distinct (map fst (pre @ (k, en) # rest))" and "nows k > lce_ExpiresAt en"
  shows "load_step nows (k, en) (loaded_as (pre @ (k, en) # rest) n u c) = loaded_as (pre @ rest) n u c"
proof -
  have "gm_del k (pre @ (k, en) # rest) = pre @ rest"
    using assms(1) gm_del_notin [of k pre] gm_del_notin [of k rest] by (auto simp: AList.delete_eq)
  then show ?thesis using assms(2) by (simp add: load_step_def loaded_as_def)
qed

lemma load_step_kept:
  assumes "nows k \<le> lce_ExpiresAt en"
  shows "load_step nows (k, en) (loaded_as ix n u c) = loaded_as ix (n + 1) (u + lce_Size en) c"
  using assms by (simp add: load_step_def loaded_as_def)

lemma load_fold:
  assumes "distinct (map fst (pre @ rest))"
  shows "fold (load_step nows) rest (loaded_as (pre @ rest) n u c) =
    loaded_as (pre @ filter (unexpired nows) rest) (n + int (length (filter (unexpired nows) rest)))
      (u + gm_sum lce_Size (filter (unexpired nows) rest)) c"
  using assms
proof (induction rest arbitrary: pre n u)
  case (Cons ken rest)
  obtain k en where ken: "ken = (k, en)" by fastforce
  show ?case
  proof (cases "nows k > lce_ExpiresAt en")
    case True
    then show ?thesis using Cons.IH [of pre n u] Cons.prems ken load_step_expired [of pre k en rest nows n u c]
      by (simp add: unexpired_def)
  next
    case False
    then show ?thesis using Cons.IH [of "pre @ [(k, en)]" "n + 1" "u + lce_Size en"] Cons.prems ken
      by (simp add: unexpired_def gm_sum_def load_step_kept algebra_simps)
  qed
qed simp

lemma load_index_eq:
  assumes "gm_ok loaded" and "lc_entries c = 0" and "lc_usedSize c = 0"
  shows "load_index nows loaded c = c\<lparr>lc_index := filter (unexpired nows) loaded,
    lc_entries := wrap64 (int (length (filter (unexpired nows) loaded))),
    lc_usedSize := wrap64 (gm_sum lce_Size (filter (unexpired nows) loaded))\<rparr>"
proof -
  have "c\<lparr>lc_index := loaded\<rparr> = loaded_as loaded 0 0 c" using assms(2,3) by (simp add: loaded_as_def)
  then show ?thesis using load_fold [where pre = "[]" and rest = loaded and n = 0 and u = 0 and c = c and nows = nows] assms(1)
    by (simp add: load_index_def loaded_as_def)
qed

lemma load_index_ok:
  assumes "gm_ok loaded" and "lc_entries c = 0" and "lc_usedSize c = 0"
  shows "lc_ok (load_index nows loaded c)"
  using assms distinct_map_filter [of fst loaded "unexpired nows"] by (simp add: load_index_eq lc_ok_def)

text \<open>
  What the code relies on of its encoders: what was compressed decompresses to what it was, a
  decoded index is a map, and an index that was encoded is decoded to the same entries.
\<close>

definition codec_ok :: "codec \<Rightarrow> bool" where
  "codec_ok cd \<longleftrightarrow>
    (\<forall>d z. cd_zstd_enc cd d = Some z \<longrightarrow> cd_zstd_dec cd z = Some d) \<and>
    (\<forall>d z. cd_gzip_enc cd d = Some z \<longrightarrow> cd_gzip_dec cd z = Some d) \<and>
    (\<forall>z m. cd_gob_dec cd z = Some m \<longrightarrow> gm_ok m) \<and>
    (\<forall>m z. gm_ok m \<and> cd_gob_enc cd m = Some z \<longrightarrow> (\<exists>m'. cd_gob_dec cd z = Some m' \<and> mset m' = mset m))"

lemma decompress_compress: "codec_ok cd \<Longrightarrow> lc_compress cd c d = Some z \<Longrightarrow> lc_decompress cd c z = Some d"
  by (auto simp: codec_ok_def lc_compress_def lc_decompress_def split: if_splits)

lemma initialize_ok:
  assumes "codec_ok cd" and "range_ok ord" and "lc_index c = []" and "lc_entries c = 0" and "lc_usedSize c = 0"
  shows "lc_ok (snd (initialize cd io nows ord c))"
proof -
  have "lc_ok (load_index nows (ord m) (c\<lparr>lc_fs := fs\<rparr>))" if "cd_gob_dec cd z = Some m" for z m fs
  proof (rule load_index_ok)
    have "gm_ok m" using assms(1) that unfolding codec_ok_def by blast
    then show "gm_ok (ord m)" using range_ok_distinct [OF assms(2)] by blast
  qed (use assms in simp_all)
  then show ?thesis using assms(3-5)
    by (auto simp: initialize_def Let_def lc_ok_def split: option.split)
qed

lemma NewLocalCache_ok: "codec_ok cd \<Longrightarrow> range_ok ord \<Longrightarrow> lc_ok (NewLocalCache cd io nows ord fs n t sz ttl cfg)"
  unfolding NewLocalCache_def by (rule initialize_ok) (simp_all add: blank_cache_def Let_def)

section \<open>Eviction\<close>

lemma find_oldest_fold:
  assumes "k0 \<noteq> ''''" and "'''' \<notin> fst ` set xs"
    and "fold (\<lambda>(key, entry) (oldestKey, oldestTime).
       if oldestKey = '''' \<or> lce_AccessedAt entry < oldestTime then (key, lce_AccessedAt entry)
       else (oldestKey, oldestTime)) xs (k0, t0) = (k, t)"
  shows "k \<noteq> '''' \<and> t \<le> t0 \<and> (\<forall>(k', en') \<in> set xs. t \<le> lce_AccessedAt en') \<and>
    ((k, t) = (k0, t0) \<or> (\<exists>en. (k, en) \<in> set xs \<and> t = lce_AccessedAt en))"
  using assms
proof (induction xs arbitrary: k0 t0)
  case (Cons x xs)
  obtain k1 en1 where x: "x = (k1, en1)" by fastforce
  show ?case
  proof (cases "lce_AccessedAt en1 < t0")
    case True
    then show ?thesis using Cons.IH [of k1 "lce_AccessedAt en1"] Cons.prems x by fastforce
  next
    case False
    then show ?thesis using Cons.IH [of k0 t0] Cons.prems x by fastforce
  qed
qed simp

lemma find_oldest_min:
  assumes "'''' \<notin> fst ` set xs" and "xs \<noteq> []"
  shows "\<exists>k en. fst (find_oldest xs) = k \<and> k \<noteq> '''' \<and> (k, en) \<in> set xs \<and>
    (\<forall>(k', en') \<in> set xs. lce_AccessedAt en \<le> lce_AccessedAt en')"
proof -
  obtain k0 en0 ys where xs: "xs = (k0, en0) # ys" using assms(2) by (cases xs) auto
  obtain k t where kt: "find_oldest xs = (k, t)" by fastforce
  then have "fold (\<lambda>(key, entry) (oldestKey, oldestTime).
       if oldestKey = '''' \<or> lce_AccessedAt entry < oldestTime then (key, lce_AccessedAt entry)
       else (oldestKey, oldestTime)) ys (k0, lce_AccessedAt en0) = (k, t)"
    using xs by (simp add: find_oldest_def)
  from find_oldest_fold [OF _ _ this] assms(1) xs
  have r: "k \<noteq> ''''" "t \<le> lce_AccessedAt en0" "\<forall>(k', en') \<in> set ys. t \<le> lce_AccessedAt en'"
    "(k, t) = (k0, lce_AccessedAt en0) \<or> (\<exists>en. (k, en) \<in> set ys \<and> t = lce_AccessedAt en)" by auto
  then obtain en where en: "(k, en) \<in> set xs" "t = lce_AccessedAt en" using xs by auto
  have "\<forall>(k', en') \<in> set xs. lce_AccessedAt en \<le> lce_AccessedAt en'" using r(2,3) xs en(2) by auto
  then show ?thesis using kt r(1) en(1) by auto
qed

text \<open>A round on an index without the empty key evicts one entry, a least recently used one.\<close>

lemma evict_round_spec:
  assumes "lc_ok c" and "range_ok ord" and "'''' \<notin> fst ` set (lc_index c)" and "lc_index c \<noteq> []"
  obtains k en where "gm_get (lc_index c) k = Some en" and "lc_index (evict_round io ord c) = gm_del k (lc_index c)"
    and "lc_ok (evict_round io ord c)" and "lc_maxSize (evict_round io ord c) = lc_maxSize c"
    and "\<forall>k' en'. gm_get (lc_index c) k' = Some en' \<longrightarrow> lce_AccessedAt en \<le> lce_AccessedAt en'"
proof -
  have s: "set (ord (lc_index c)) = set (lc_index c)" using assms(2) by (rule range_ok_set)
  then have "ord (lc_index c) \<noteq> []" using assms(4) by force
  from find_oldest_min [OF _ this] s assms(3) obtain k en where
    k: "fst (find_oldest (ord (lc_index c))) = k" "k \<noteq> ''''" "(k, en) \<in> set (lc_index c)"
    and m: "\<forall>(k', en') \<in> set (lc_index c). lce_AccessedAt en \<le> lce_AccessedAt en'" by auto
  have g: "gm_get (lc_index c) k = Some en" using k(3) assms(1) by (simp add: gm_get_in lc_ok_def)
  let ?d = "deleteEntry io k en c"
  have r: "evict_round io ord c = ?d\<lparr>lc_evictions := wrap64 (lc_evictions ?d + 1)\<rparr>"
    using k(1,2) g by (simp add: evict_round_def Let_def)
  have "lc_ok ?d" using assms(1) g by (rule deleteEntry_ok)
  then have "lc_ok (evict_round io ord c)" unfolding r by (simp add: lc_ok_def)
  moreover have "\<forall>k' en'. gm_get (lc_index c) k' = Some en' \<longrightarrow> lce_AccessedAt en \<le> lce_AccessedAt en'"
    using m gm_get_mem [of "lc_index c"] by blast
  ultimately show ?thesis using that [of k en] g by (simp add: r deleteEntry_def)
qed

definition evicted_to :: "LocalCache \<Rightarrow> LocalCache \<Rightarrow> bool" where
  "evicted_to c c' \<longleftrightarrow> (lc_usedSize c' \<le> evict_target c \<or> lc_index c' = []) \<and>
     (\<forall>k en. gm_get (lc_index c') k = Some en \<longrightarrow> gm_get (lc_index c) k = Some en) \<and>
     (\<forall>k en k' en'. gm_get (lc_index c) k = Some en \<and> gm_get (lc_index c') k = None \<and> gm_get (lc_index c') k' = Some en' \<longrightarrow>
        lce_AccessedAt en \<le> lce_AccessedAt en')"

lemma evict_rounds_spec:
  assumes "lc_ok c" and "\<And>i. range_ok (ords i)" and "'''' \<notin> fst ` set (lc_index c)"
  shows "\<exists>c'. evict_rounds io ords i c = Some c' \<and> lc_ok c' \<and> evicted_to c c'"
  using assms
proof (induction "length (lc_index c)" arbitrary: c i)
  case 0
  then show ?case by (subst evict_rounds.simps) (auto simp: evicted_to_def)
next
  case (Suc n)
  show ?case
  proof (cases "lc_usedSize c > evict_target c \<and> lc_index c \<noteq> []")
    case True
    let ?r = "evict_round io (ords i) c"
    obtain k en where k: "gm_get (lc_index c) k = Some en" "lc_index ?r = gm_del k (lc_index c)" "lc_ok ?r"
      "lc_maxSize ?r = lc_maxSize c" "\<forall>k' en'. gm_get (lc_index c) k' = Some en' \<longrightarrow> lce_AccessedAt en \<le> lce_AccessedAt en'"
      using evict_round_spec [of c "ords i" io] Suc.prems True by blast
    have "n = length (lc_index ?r)"
      using length_gm_del_get [OF _ k(1)] Suc.hyps(2) Suc.prems(1) k(2) by (simp add: lc_ok_def)
    moreover have "'''' \<notin> fst ` set (lc_index ?r)" using Suc.prems(3) k(2) set_gm_del_subset by fastforce
    ultimately obtain c' where c': "evict_rounds io ords (Suc i) ?r = Some c'" "lc_ok c'" "evicted_to ?r c'"
      using Suc.hyps(1) [of ?r "Suc i"] k(3) Suc.prems(2) by blast
    have "evict_target ?r = evict_target c" using k(4) by (simp add: evict_target_def)
    have "evicted_to c c'" unfolding evicted_to_def
    proof (intro conjI allI impI)
      show "lc_usedSize c' \<le> evict_target c \<or> lc_index c' = []"
        using c'(3) \<open>evict_target ?r = evict_target c\<close> by (simp add: evicted_to_def)
    next
      fix k1 en1 assume "gm_get (lc_index c') k1 = Some en1"
      then have "gm_get (lc_index ?r) k1 = Some en1" using c'(3) by (simp add: evicted_to_def)
      then show "gm_get (lc_index c) k1 = Some en1" using k(2) by (simp add: gm_get_del split: if_splits)
    next
      fix k1 en1 k2 en2
      assume a: "gm_get (lc_index c) k1 = Some en1 \<and> gm_get (lc_index c') k1 = None \<and> gm_get (lc_index c') k2 = Some en2"
      then have r2: "gm_get (lc_index ?r) k2 = Some en2" using c'(3) by (simp add: evicted_to_def)
      show "lce_AccessedAt en1 \<le> lce_AccessedAt en2"
      proof (cases "k1 = k")
        case True
        then show ?thesis using a k(1,2,5) r2 by (simp add: gm_get_del split: if_splits)
      next
        case False
        then have "gm_get (lc_index ?r) k1 = Some en1" using a k(2) by (simp add: gm_get_del)
        then show ?thesis using a c'(3) unfolding evicted_to_def by blast
      qed
    qed
    moreover have "evict_rounds io ords i c = Some c'" using True c'(1) by (subst evict_rounds.simps) simp
    ultimately show ?thesis using c'(2) by blast
  next
    case False
    then show ?thesis using Suc.prems(1) by (subst evict_rounds.simps) (auto simp: evicted_to_def)
  qed
qed

text \<open>An index that has only the empty key makes no progress: no round evicts anything.\<close>

lemma evict_round_empty_key:
  assumes "range_ok ord" and "lc_index c = [('''', en)]"
  shows "evict_round io ord c = c"
proof -
  have "ord [('''', en)] = [('''', en)]" using assms(1) unfolding range_ok_def by (metis mset_single_iff_right mset.simps mset_zero_iff)
  then show ?thesis using assms(2) by (simp add: evict_round_def find_oldest_def)
qed

lemma evict_rounds_diverge:
  assumes "\<And>i. range_ok (ords i)" and "lc_index c = [('''', en)]" and "lc_usedSize c > evict_target c"
  shows "evict_rounds io ords i c = None"
proof (rule ccontr)
  assume "evict_rounds io ords i c \<noteq> None"
  then obtain r where r: "evict_rounds io ords i c = Some r" by blast
  have "\<not> ((\<forall>i. range_ok (ords i)) \<and> lc_index c = [('''', en)] \<and> lc_usedSize c > evict_target c)"
  proof (rule evict_rounds.raw_induct [where P = "\<lambda>io ords i c r.
      \<not> ((\<forall>i. range_ok (ords i)) \<and> lc_index c = [('''', en)] \<and> lc_usedSize c > evict_target c)", OF _ r])
    fix f io ords i c r
    assume IH: "\<And>io ords i c r. f io ords i c = Some r \<Longrightarrow>
        \<not> ((\<forall>i. range_ok (ords i)) \<and> lc_index c = [('''', en)] \<and> lc_usedSize c > evict_target c)"
      and eq: "(if lc_usedSize c > evict_target c \<and> lc_index c \<noteq> [] then f io ords (Suc i) (evict_round io (ords i) c)
        else Some c) = Some r"
    show "\<not> ((\<forall>i. range_ok (ords i)) \<and> lc_index c = [('''', en)] \<and> lc_usedSize c > evict_target c)"
    proof
      assume a: "(\<forall>i. range_ok (ords i)) \<and> lc_index c = [('''', en)] \<and> lc_usedSize c > evict_target c"
      then have "evict_round io (ords i) c = c" using evict_round_empty_key by blast
      then have "f io ords (Suc i) c = Some r" using a eq by simp
      from IH [OF this] a show False by blast
    qed
  qed
  then show False using assms by blast
qed

section \<open>Plain keys\<close>

text \<open>
  The keys that are file names of their own: no separator, not empty, and not a name that
  \<open>filepath.Join\<close> resolves away. The hashes the prefix tier uses as keys are of this kind.
\<close>

definition plain_key :: "string \<Rightarrow> bool" where
  "plain_key k \<longleftrightarrow> CHR ''/'' \<notin> set k \<and> k \<noteq> '''' \<and> k \<noteq> ''.'' \<and> take 2 k \<noteq> ''..''"

lemma getFilePath_plain:
  assumes "plain_key k"
  shows "getFilePath c k = (fst (lc_basePath c), snd (lc_basePath c) @ [if length k \<ge> 2 then take 2 k else ''00'', k])"
proof -
  have t: "CHR ''/'' \<notin> set (take 2 k)" using assms set_take_subset unfolding plain_key_def by fast
  have "take 2 k \<noteq> ''.''" if "length k \<ge> 2"
  proof
    assume "take 2 k = ''.''"
    then have "length (take 2 k) = 1" by simp
    with that show False by simp
  qed
  moreover have "k \<noteq> ''..''" using assms by (auto simp: plain_key_def)
  ultimately show ?thesis using assms t
    by (auto simp: getFilePath_def path_join_def Let_def split_slash_plain clean_path_plain plain_key_def)
qed

lemma getFilePath_inj: "plain_key k \<Longrightarrow> plain_key k' \<Longrightarrow> getFilePath c k = getFilePath c k' \<Longrightarrow> k = k'"
  by (simp add: getFilePath_plain split: if_splits)

lemma getFilePath_base: "lc_basePath c' = lc_basePath c \<Longrightarrow> getFilePath c' k = getFilePath c k"
  by (simp add: getFilePath_def)

section \<open>The contract of a tier\<close>

text \<open>What a read returns: the entry has not expired, its file can be read, and decompressed if it was compressed.\<close>

definition lc_live :: "codec \<Rightarrow> lc_env \<Rightarrow> LocalCache \<Rightarrow> string \<Rightarrow> bytes option" where
  "lc_live cd e c k =
    (case gm_get (lc_index c) k of
       None \<Rightarrow> None
     | Some en \<Rightarrow>
         if le_now e > lce_ExpiresAt en then None
         else case os_ReadFile (le_io e) (getFilePath c k) (lc_fs c) of
           None \<Rightarrow> None
         | Some data \<Rightarrow> if lce_Compressed en then lc_decompress cd c data else Some data)"

definition lc_alive :: "lc_env \<Rightarrow> LocalCache \<Rightarrow> duration \<Rightarrow> lc_env \<Rightarrow> bool" where
  "lc_alive e c ttl e' \<longleftrightarrow> le_now e' \<le> le_now e + (if ttl = 0 then lc_defaultTTL c else ttl) \<and> \<not> io_read (le_io e')"

definition lc_inv :: "codec \<Rightarrow> LocalCache \<Rightarrow> bool" where
  "lc_inv cd c \<longleftrightarrow> codec_ok cd \<and> lc_ok c"

lemma file_entry_sel [simp]:
  "lc_index (file_entry k en c) = gm_set k en (lc_index c)" "lc_fs (file_entry k en c) = lc_fs c"
  "lc_basePath (file_entry k en c) = lc_basePath c" "lc_compressAlgo (file_entry k en c) = lc_compressAlgo c"
  by (simp_all add: file_entry_def Let_def split: option.split)

lemma signal_evict_sel [simp]:
  "lc_index (signal_evict c) = lc_index c" "lc_fs (signal_evict c) = lc_fs c"
  "lc_basePath (signal_evict c) = lc_basePath c" "lc_compressAlgo (signal_evict c) = lc_compressAlgo c"
  by (simp_all add: signal_evict_def)

text \<open>A completed \<open>Set\<close>: the new index and the new file system.\<close>

lemma Local_Set_done:
  assumes "Local_Set cd e c k v ttl = (Ok (), c')"
  obtains fs data z where "encode_value cd c v = (data, z)"
    and "os_MkdirAll (le_io e) (filepath_Dir (getFilePath c k)) (lc_fs c) = Some fs"
    and "fst (os_WriteFile (le_io e) (getFilePath c k) data fs)"
    and "c' = signal_evict (file_entry k (new_entry (le_now e) k data z (if ttl = 0 then lc_defaultTTL c else ttl))
           (c\<lparr>lc_fs := snd (os_WriteFile (le_io e) (getFilePath c k) data fs)\<rparr>))"
  using assms
  by (auto simp: Local_Set_def Let_def split: option.splits prod.splits bool.splits)

lemma decompress_cong: "lc_compressAlgo c' = lc_compressAlgo c \<Longrightarrow> lc_decompress cd c' = lc_decompress cd c"
  by (rule ext) (simp add: lc_decompress_def)

text \<open>Entries and files that stay as they are stay readable.\<close>

lemma lc_live_cong:
  assumes "gm_get (lc_index c') k = gm_get (lc_index c) k" and "lc_basePath c' = lc_basePath c"
    and "lc_compressAlgo c' = lc_compressAlgo c"
    and "gm_get (fs_files (lc_fs c')) (getFilePath c k) = gm_get (fs_files (lc_fs c)) (getFilePath c k)"
  shows "lc_live cd e c' k = lc_live cd e c k"
  using assms getFilePath_base [OF assms(2)] decompress_cong [OF assms(3)]
  by (simp add: lc_live_def os_ReadFile_def split: option.split)

lemma decode_encode:
  assumes "codec_ok cd" and "encode_value cd c v = (data, z)"
  shows "(if z then lc_decompress cd c data else Some data) = Some v"
  using assms by (auto simp: encode_value_def decompress_compress split: if_splits option.splits)

lemma Local_Set_live:
  assumes "codec_ok cd" and "plain_key k" and "plain_key k'" and "Local_Set cd e c k v ttl = (Ok (), c')" and "lc_alive e c ttl e'"
  shows "lc_live cd e' c' k' = (if k' = k then Some v else lc_live cd e' c k')"
proof -
  from assms(4) obtain fs data z where s: "encode_value cd c v = (data, z)"
    "os_MkdirAll (le_io e) (filepath_Dir (getFilePath c k)) (lc_fs c) = Some fs"
    "fst (os_WriteFile (le_io e) (getFilePath c k) data fs)"
    "c' = signal_evict (file_entry k (new_entry (le_now e) k data z (if ttl = 0 then lc_defaultTTL c else ttl))
           (c\<lparr>lc_fs := snd (os_WriteFile (le_io e) (getFilePath c k) data fs)\<rparr>))"
    by (rule Local_Set_done)
  show ?thesis
  proof (cases "k' = k")
    case True
    let ?en = "new_entry (le_now e) k data z (if ttl = 0 then lc_defaultTTL c else ttl)"
    have "gm_get (fs_files (lc_fs c')) (getFilePath c k) = Some data" using WriteFile_same [OF s(3)] s(4) by simp
    moreover have "gm_get (lc_index c') k = Some ?en" using s(4) by (simp add: gm_get_set)
    moreover have "getFilePath c' k = getFilePath c k" by (rule getFilePath_base) (simp add: s(4))
    moreover have "lc_decompress cd c' = lc_decompress cd c" by (rule decompress_cong) (simp add: s(4))
    moreover have "\<not> le_now e' > lce_ExpiresAt ?en" "lce_Compressed ?en = z" "\<not> io_read (le_io e')"
      using assms(5) by (simp_all add: new_entry_def lc_alive_def split: if_splits)
    ultimately show ?thesis using True decode_encode [OF assms(1) s(1)] by (simp add: lc_live_def os_ReadFile_def split: if_splits)
  next
    case False
    then have "getFilePath c k' \<noteq> getFilePath c k" using getFilePath_inj assms(2,3) by blast
    then have "gm_get (fs_files (lc_fs c')) (getFilePath c k') = gm_get (fs_files (lc_fs c)) (getFilePath c k')"
      using s(2,4) by (simp add: WriteFile_other MkdirAll_files)
    then show ?thesis using False s(4) lc_live_cong [of c' k' c cd e'] by (simp add: gm_get_set)
  qed
qed

lemma Local_Delete_live:
  assumes "plain_key k" and "plain_key k'" and "Local_Delete e c k = (Ok (), c')"
  shows "lc_live cd e' c' k' = (if k' = k then None else lc_live cd e' c k')"
proof (cases "gm_get (lc_index c) k")
  case None
  then show ?thesis using assms(3) by (auto simp: Local_Delete_def lc_live_def)
next
  case (Some en)
  then have c': "c' = deleteEntry (le_io e) k en c" using assms(3) by (simp add: Local_Delete_def)
  show ?thesis
  proof (cases "k' = k")
    case True
    then show ?thesis by (simp add: c' deleteEntry_def lc_live_def gm_get_del)
  next
    case False
    then have "getFilePath c k' \<noteq> getFilePath c k" using getFilePath_inj assms(1,2) by blast
    then show ?thesis using False lc_live_cong [of c' k' c cd e'] by (simp add: c' deleteEntry_def gm_get_del Remove_other)
  qed
qed

lemma Local_Get_live: "Local_Get cd e c k = (Ok r, c') \<Longrightarrow> map_option ce_Value r = lc_live cd e c k"
  by (auto simp: Local_Get_def lc_live_def split: option.splits if_splits)

interpretation disk: keyed_tier "Local_Get cd" "Local_Set cd" Local_Delete Local_Clear "lc_live cd" "lc_inv cd" lc_alive plain_key
  for cd
proof (unfold_locales, goal_cases)
  case (1 s e k v ttl)
  then show ?case by (simp add: lc_inv_def Local_Set_ok)
next
  case (2 s e k)
  then show ?case by (simp add: lc_inv_def Local_Delete_ok)
next
  case (3 s e k r s')
  then show ?case using Local_Get_ok [of s cd e k] by (simp add: lc_inv_def)
next
  case (4 s e)
  then show ?case by (simp add: lc_inv_def Local_Clear_ok)
next
  case (5 s k k' e v ttl s' e')
  then show ?case using Local_Set_live [of cd k k' e s v ttl s' e'] by (simp add: lc_inv_def)
next
  case (6 s k k' e s' e')
  then show ?case using Local_Delete_live [of k k' e s s' cd e'] by simp
next
  case (7 s e s' e' k')
  then show ?case by (auto simp: Local_Clear_def lc_live_def split: prod.splits bool.splits option.splits)
next
  case (8 s e k r s')
  then show ?case by (intro Local_Get_live)
qed

section \<open>Saving and reloading\<close>

text \<open>What the constructor fixes for good.\<close>

definition lc_static :: "LocalCache \<Rightarrow> path \<times> string \<times> bool \<times> duration \<times> quantity \<times> string" where
  "lc_static c = (lc_basePath c, lc_compressAlgo c, lc_compression c, lc_defaultTTL c, lc_maxSize c, lc_tierName c)"

lemma index_path: "path_join p [''index.gob''] = (fst p, snd p @ [''index.gob''])"
  by (simp add: path_join_def)

lemma longer_not_prefix: "length (snd p) < length (snd q) \<Longrightarrow> q \<notin> set (prefixes p)"
  by (auto simp: prefixes_def)

lemma gm_get_filter_perm:
  assumes "gm_ok m" and "mset m' = mset m"
  shows "gm_get (filter P m') k = (case gm_get m k of None \<Rightarrow> None | Some v \<Rightarrow> if P (k, v) then Some v else None)"
proof -
  have s: "set m' = set m" using assms(2) by (metis set_mset_mset)
  have "mset (map fst m') = mset (map fst m)" using assms(2) by simp
  then have "gm_ok m'" using assms(1) by (metis mset_eq_imp_distinct_iff)
  then have ok: "gm_ok (filter P m')" by (rule distinct_map_filter)
  show ?thesis
  proof (cases "gm_get m k")
    case None
    then have "k \<notin> fst ` set (filter P m')" using s by (auto simp: gm_get_none)
    then have "gm_get (filter P m') k = None" by (simp only: gm_get_none not_False_eq_True)
    then show ?thesis using None by simp
  next
    case (Some v)
    have mem: "(k, v') \<in> set m \<longleftrightarrow> v' = v" for v'
      using gm_get_in [OF assms(1), of k v'] Some by auto
    show ?thesis
    proof (cases "P (k, v)")
      case True
      then have "(k, v) \<in> set (filter P m')" using mem s by simp
      then have "gm_get (filter P m') k = Some v" using gm_get_in [OF ok, of k v] by blast
      then show ?thesis using Some True by simp
    next
      case False
      then have "k \<notin> fst ` set (filter P m')" using mem s by auto
      then have "gm_get (filter P m') k = None" by (simp only: gm_get_none not_False_eq_True)
      then show ?thesis using Some False by simp
    qed
  qed
qed

lemma Local_Stop_files:
  assumes "fst (SaveIndex cd no_faults c) = Ok ()" and "\<not> lc_stopCh_closed c"
  shows "\<exists>z. cd_gob_enc cd (lc_index c) = Some z \<and> fs_files (lc_fs (snd (Local_Stop cd no_faults c))) =
      gm_set (path_join (lc_basePath c) [''index.gob'']) z (fs_files (lc_fs c))"
  using assms
  by (auto simp: Local_Stop_def SaveIndex_def os_WriteFile_def no_faults_def split: option.splits if_splits)

text \<open>A cache that is created over a saved index has the saved entries, but the expired ones.\<close>

lemma initialize_loads:
  assumes "codec_ok cd" and "range_ok ord" and "gm_ok ix" and "cd_gob_enc cd ix = Some z"
    and "gm_get (fs_files (lc_fs c)) (path_join (lc_basePath c) [''index.gob'']) = Some z"
    and "\<not> list_ex (gm_has (fs_files (lc_fs c))) (prefixes (lc_basePath c))"
    and "lc_entries c = 0" and "lc_usedSize c = 0"
  shows "fs_files (lc_fs (snd (initialize cd no_faults nows ord c))) = fs_files (lc_fs c)"
    and "lc_static (snd (initialize cd no_faults nows ord c)) = lc_static c"
    and "gm_get (lc_index (snd (initialize cd no_faults nows ord c))) k =
      (case gm_get ix k of None \<Rightarrow> None | Some en \<Rightarrow> if nows k \<le> lce_ExpiresAt en then Some en else None)"
proof -
  obtain m where m: "cd_gob_dec cd z = Some m" "mset m = mset ix" using assms(1,3,4) unfolding codec_ok_def by blast
  obtain fs where fs: "os_MkdirAll no_faults (lc_basePath c) (lc_fs c) = Some fs" "fs_files fs = fs_files (lc_fs c)"
    using assms(6) by (auto simp: os_MkdirAll_def no_faults_def)
  have p: "mset (ord m) = mset ix" using assms(2) m(2) by (simp add: range_ok_def)
  have "mset (map fst (ord m)) = mset (map fst ix)" using p by simp
  then have ok: "gm_ok (ord m)" using assms(3) by (metis mset_eq_imp_distinct_iff)
  have i: "snd (initialize cd no_faults nows ord c) = load_index nows (ord m) (c\<lparr>lc_fs := fs\<rparr>)"
    using fs assms(5) m(1) by (simp add: initialize_def os_ReadFile_def no_faults_def)
  show "fs_files (lc_fs (snd (initialize cd no_faults nows ord c))) = fs_files (lc_fs c)"
    "lc_static (snd (initialize cd no_faults nows ord c)) = lc_static c"
    using ok assms(7,8) fs(2) by (simp_all add: i load_index_eq lc_static_def)
  show "gm_get (lc_index (snd (initialize cd no_faults nows ord c))) k =
      (case gm_get ix k of None \<Rightarrow> None | Some en \<Rightarrow> if nows k \<le> lce_ExpiresAt en then Some en else None)"
    using ok assms(7,8) gm_get_filter_perm [OF assms(3) p, of "unexpired nows" k]
    by (simp add: i load_index_eq unexpired_def split: option.split)
qed

section \<open>Reachable states\<close>

text \<open>
  The steps of a tier that several goroutines use. \<open>Get\<close> releases the lock between its lookup and what it
  does with the entry, and \<open>Set\<close> writes the file before it takes the lock, so beside the whole
  operations their sections are steps of their own, which other operations may come between: counting a
  miss, deleting the entry that was looked up, the update of its access time, a change of files, and the
  filing of an entry. The deletion and the update are taken while the key still leads to the entry (an
  update of an entry that is no longer filed only counts a hit);
  \<open>local_expired_race\<close> is what a deletion does otherwise.
\<close>

inductive lc_step :: "codec \<Rightarrow> LocalCache \<Rightarrow> LocalCache \<Rightarrow> bool" for cd where
  get: "lc_step cd c (snd (Local_Get cd e c k))"
| section_miss: "lc_step cd c (lc_miss c)"
| section_delete: "gm_get (lc_index c) k = Some entry \<Longrightarrow> lc_step cd c (deleteEntry io k entry c)"
| section_touch: "gm_get (lc_index c) k = Some entry \<Longrightarrow> lc_step cd c (lc_touch now k entry c)"
| section_hit: "lc_step cd c (c\<lparr>lc_hits := wrap64 (lc_hits c + 1)\<rparr>)"
| section_files: "lc_step cd c (c\<lparr>lc_fs := fs\<rparr>)"
| section_file_entry: "lc_step cd c (file_entry k entry c)"
| section_signal: "lc_step cd c (signal_evict c)"
| set_val: "lc_step cd c (snd (Local_Set cd e c k v ttl))"
| delete: "lc_step cd c (snd (Local_Delete e c k))"
| clear: "lc_step cd c (snd (Local_Clear e c))"
| cleanup: "range_ok ord \<Longrightarrow> lc_step cd c (cleanupExpired io ord now c)"
| eviction: "(\<And>i. range_ok (ords i)) \<Longrightarrow> evictionLoop io ords c = Some c' \<Longrightarrow> lc_step cd c c'"
| save: "lc_step cd c (snd (SaveIndex cd io c))"
| stop: "lc_step cd c (snd (Local_Stop cd io c))"



inductive lc_reachable :: "codec \<Rightarrow> LocalCache \<Rightarrow> bool" for cd where
  new: "range_ok ord \<Longrightarrow> lc_reachable cd (NewLocalCache cd io nows ord fs n t sz ttl cfg)"
| step: "lc_reachable cd c \<Longrightarrow> lc_step cd c c' \<Longrightarrow> lc_reachable cd c'"

lemma evict_round_ok: "lc_ok c \<Longrightarrow> lc_ok (evict_round io ord c)"
  by (auto simp: evict_round_def Let_def lc_ok_cong [of "_\<lparr>lc_evictions := _\<rparr>"] split: option.split intro!: inv_intros)

lemma evict_rounds_ok: "evict_rounds io ords i c = Some c' \<Longrightarrow> lc_ok c \<Longrightarrow> lc_ok c'"
proof -
  assume r: "evict_rounds io ords i c = Some c'" and ok: "lc_ok c"
  have "lc_ok c \<longrightarrow> lc_ok c'"
  proof (rule evict_rounds.raw_induct [where P = "\<lambda>io ords i c r. lc_ok c \<longrightarrow> lc_ok r", OF _ r])
    fix f :: "io_faults \<Rightarrow> (nat \<Rightarrow> local_ord) \<Rightarrow> nat \<Rightarrow> LocalCache \<Rightarrow> LocalCache option" and io ords i c r
    assume IH: "\<And>io ords i c r. f io ords i c = Some r \<Longrightarrow> lc_ok c \<longrightarrow> lc_ok r"
      and eq: "(if lc_usedSize c > evict_target c \<and> lc_index c \<noteq> [] then f io ords (Suc i) (evict_round io (ords i) c)
        else Some c) = Some r"
    show "lc_ok c \<longrightarrow> lc_ok r"
    proof (cases "lc_usedSize c > evict_target c \<and> lc_index c \<noteq> []")
      case True
      then have "f io ords (Suc i) (evict_round io (ords i) c) = Some r" using eq by simp
      from IH [OF this] show ?thesis using evict_round_ok by blast
    qed (use eq in \<open>auto split: if_splits\<close>)
  qed
  then show ?thesis using ok by blast
qed

lemma evictionLoop_ok: "evictionLoop io ords c = Some c' \<Longrightarrow> lc_ok c \<Longrightarrow> lc_ok c'"
  by (auto simp: evictionLoop_def evict_def lc_ok_cong [of "_\<lparr>lc_evictCh := _\<rparr>"] split: if_splits dest: evict_rounds_ok)

lemma lc_step_ok: "lc_step cd c c' \<Longrightarrow> lc_ok c \<Longrightarrow> lc_ok c'"
  by (induction rule: lc_step.induct)
    (auto simp: lc_ok_cong [of "_\<lparr>lc_hits := _\<rparr>"] intro: inv_intros Local_Get_ok Local_Set_ok Local_Delete_ok Local_Clear_ok cleanupExpired_ok evictionLoop_ok SaveIndex_ok Local_Stop_ok)

lemma lc_reachable_ok: "lc_reachable cd c \<Longrightarrow> codec_ok cd \<Longrightarrow> lc_ok c"
  by (induction rule: lc_reachable.induct) (auto intro: NewLocalCache_ok lc_step_ok)

section \<open>Examples\<close>

text \<open>A codec that stores data almost as they are; its index encoding knows one index.\<close>

definition demo_index :: local_index where
  "demo_index = [(''k1'', new_entry 1 ''k1'' (replicate 60 0) False 60)]"

definition demo_codec :: codec where
  "demo_codec = \<lparr>cd_zstd_enc = (\<lambda>d. Some d), cd_zstd_dec = (\<lambda>d. Some d), cd_gzip_enc = (\<lambda>d. Some (0 # d)),
     cd_gzip_dec = (\<lambda>d. case d of [] \<Rightarrow> None | _ # d' \<Rightarrow> Some d'),
     cd_gob_enc = (\<lambda>m. if m = demo_index then Some [7] else None), cd_gob_dec = (\<lambda>d. if d = [7] then Some demo_index else None)\<rparr>"

lemma demo_codec_ok: "codec_ok demo_codec"
  by (auto simp: codec_ok_def demo_codec_def demo_index_def)

definition lc_at :: "timestamp \<Rightarrow> lc_env" where
  "lc_at t = \<lparr>le_now = t, le_access = t, le_io = no_faults\<rparr>"

definition lc_demo :: LocalCache where
  "lc_demo = NewLocalCache demo_codec no_faults (\<lambda>_. 0) (\<lambda>m. m) \<lparr>fs_files = [], fs_dirs = []\<rparr> ''c'' ''t'' 100 60 None"

definition lc_demo_one :: LocalCache where
  "lc_demo_one = snd (Local_Set demo_codec (lc_at 1) lc_demo ''k1'' (replicate 60 0) 0)"

definition lc_demo_two :: LocalCache where
  "lc_demo_two = snd (Local_Set demo_codec (lc_at 2) lc_demo_one ''k2'' (replicate 50 1) 0)"

definition lc_demo_empty_key :: LocalCache where
  "lc_demo_empty_key = snd (Local_Set demo_codec (lc_at 1) lc_demo '''' (replicate 95 0) 0)"

lemma lc_demo_reachable: "lc_reachable demo_codec lc_demo"
  unfolding lc_demo_def by (rule lc_reachable.new) simp

lemma lc_demo_one_reachable: "lc_reachable demo_codec lc_demo_one"
  unfolding lc_demo_one_def by (intro lc_reachable.step [OF _ lc_step.set_val] lc_demo_reachable)

lemma lc_demo_two_reachable: "lc_reachable demo_codec lc_demo_two"
  unfolding lc_demo_two_def by (intro lc_reachable.step [OF _ lc_step.set_val] lc_demo_one_reachable)

lemma lc_demo_empty_key_reachable: "lc_reachable demo_codec lc_demo_empty_key"
  unfolding lc_demo_empty_key_def by (intro lc_reachable.step [OF _ lc_step.set_val] lc_demo_reachable)

section \<open>Properties\<close>

text \<open>
  C16. The counters of the local tier are exact: after any sequence of its operations and of the single
  critical sections of \<open>Get\<close> and \<open>Set\<close>, interleaved with those of other goroutines, the used size and the
  number of entries are, modulo \<open>2 ^ 64\<close>, those of the index, whose keys are distinct; I/O failures, a
  restart from a saved index and evictions included. The interleavings are those in which the key still
  leads to the entry when a \<open>Get\<close> deletes the one it looked up; without that the counters drift
  (\<open>local_expired_race\<close>).
\<close>

theorem local_accounting:
  assumes "lc_reachable cd c" and "codec_ok cd"
  shows "lc_usedSize c = wrap64 (gm_sum lce_Size (lc_index c)) \<and> lc_entries c = wrap64 (int (length (lc_index c))) \<and>
    gm_ok (lc_index c)"
  using lc_reachable_ok [OF assms] by (simp add: lc_ok_def)

theorem local_accounting_witness:
  "lc_usedSize lc_demo_two = wrap64 (gm_sum lce_Size (lc_index lc_demo_two))"
  using local_accounting [OF lc_demo_two_reachable demo_codec_ok] by blast

text \<open>
  Two concurrent reads of an expired entry both delete it: each has looked the entry up before the
  other took the lock, and the second deletion takes its size and the entry off the counters again.
\<close>

theorem local_expired_race:
  assumes "lc_reachable cd c" and "codec_ok cd" and "gm_get (lc_index c) k = Some entry"
    and "int (length (lc_index c)) < 2 ^ 62"
  shows "let c1 = lc_miss (deleteEntry io k entry c); c2 = lc_miss (deleteEntry io k entry c1) in
    \<not> gm_has (lc_index c1) k \<and> lc_entries c1 = int (length (lc_index c1)) \<and>
    lc_index c2 = lc_index c1 \<and> lc_entries c2 = int (length (lc_index c2)) - 1 \<and>
    lc_usedSize c2 = wrap64 (gm_sum lce_Size (lc_index c2) - lce_Size entry)"
proof -
  let ?c1 = "deleteEntry io k entry c" and ?c2 = "deleteEntry io k entry (lc_miss (deleteEntry io k entry c))"
  have ok: "lc_ok c" by (rule lc_reachable_ok [OF assms(1,2)])
  have ok1: "lc_ok ?c1" by (rule deleteEntry_ok [OF ok assms(3)])
  have i1: "lc_index ?c1 = gm_del k (lc_index c)" and nk: "k \<notin> fst ` set (lc_index ?c1)"
    by (simp_all add: deleteEntry_def gm_get_none [symmetric] gm_get_del)
  have len: "length (lc_index ?c1) \<le> length (lc_index c)" by (simp add: i1 length_delete_le)
  have e1: "lc_entries ?c1 = int (length (lc_index ?c1))" using ok1 len assms(4) by (simp add: lc_ok_def wrap64_id)
  have c2: "lc_index ?c2 = lc_index ?c1" "lc_entries ?c2 = wrap64 (lc_entries ?c1 - 1)"
    "lc_usedSize ?c2 = wrap64 (lc_usedSize ?c1 - lce_Size entry)"
    using nk by (simp_all add: deleteEntry_def [of io k entry "lc_miss ?c1"] gm_del_notin)
  have "lc_entries ?c2 = int (length (lc_index ?c1)) - 1"
    unfolding c2 e1 using len assms(4) by (intro wrap64_id) auto
  moreover have "lc_usedSize ?c2 = wrap64 (gm_sum lce_Size (lc_index ?c1) - lce_Size entry)"
    using ok1 by (simp add: c2 lc_ok_def)
  ultimately show ?thesis using nk e1 c2(1) by (simp add: Let_def gm_has_def gm_get_none)
qed

theorem local_expired_race_witness:
  "let c1 = lc_miss (deleteEntry no_faults ''k1'' (new_entry 1 ''k1'' (replicate 60 0) False 60) lc_demo_one);
       c2 = lc_miss (deleteEntry no_faults ''k1'' (new_entry 1 ''k1'' (replicate 60 0) False 60) c1) in
    lc_index c2 = lc_index c1 \<and> lc_entries c2 = int (length (lc_index c2)) - 1"
proof -
  have "gm_get (lc_index lc_demo_one) ''k1'' = Some (new_entry 1 ''k1'' (replicate 60 0) False 60)" by code_simp
  moreover have "int (length (lc_index lc_demo_one)) < 2 ^ 62" by code_simp
  ultimately show ?thesis using local_expired_race [OF lc_demo_one_reachable demo_codec_ok, of "''k1''"] unfolding Let_def by blast
qed

text \<open>
  C9. Eviction ends, and is by least recent use: unless the empty string is a key, the loop returns
  with the used size at most 80 percent of the maximum or the index empty, it changes no entry it
  keeps, and whatever it removed had been accessed no later than everything it kept.
\<close>

theorem local_evict_returns:
  assumes "lc_reachable cd c" and "codec_ok cd" and "\<And>i. range_ok (ords i)" and "\<not> gm_has (lc_index c) ''''"
  shows "\<exists>c'. evict io ords c = Some c' \<and> evicted_to c c'"
proof -
  have "'''' \<notin> fst ` set (lc_index c)" using assms(4) by (simp add: gm_has_def gm_get_none)
  from evict_rounds_spec [where c = c and ords = ords and io = io and i = 0, OF lc_reachable_ok [OF assms(1,2)] assms(3) this]
  show ?thesis unfolding evict_def by blast
qed

theorem local_evict_returns_witness:
  "\<exists>c'. evict no_faults (\<lambda>i. rev) lc_demo_two = Some c' \<and> evicted_to lc_demo_two c'"
proof (rule local_evict_returns [OF lc_demo_two_reachable demo_codec_ok])
  show "\<not> gm_has (lc_index lc_demo_two) ''''" by code_simp
qed simp

text \<open>
  The empty key makes eviction run for ever: once it is the only key and takes more than 80
  percent of the maximum, the loop finds no oldest key in any round and does not end, with the
  lock of the tier held.
\<close>

theorem local_evict_diverges:
  assumes "\<And>i. range_ok (ords i)" and "lc_index c = [('''', en)]" and "lc_usedSize c > evict_target c"
  shows "evict io ords c = None"
  unfolding evict_def using assms by (rule evict_rounds_diverge)

theorem local_evict_diverges_witness: "evict no_faults (\<lambda>i. rev) lc_demo_empty_key = None"
proof (rule local_evict_diverges)
  show "lc_index lc_demo_empty_key = [('''', snd (hd (lc_index lc_demo_empty_key)))]" by code_simp
  show "lc_usedSize lc_demo_empty_key > evict_target lc_demo_empty_key" by code_simp
qed simp

text \<open>
  C26. What a completed \<open>Set\<close> stored under a plain key is what a completed \<open>Get\<close> returns until it
  expires, compressed or not, and no other plain key is affected.
\<close>

theorem local_get_after_set:
  assumes "lc_reachable cd c" and "codec_ok cd" and "plain_key k" and "plain_key k'"
    and "Local_Set cd e c k v ttl = (Ok (), c')" and "lc_alive e c ttl e'" and "Local_Get cd e' c' k' = (Ok r, c'')"
  shows "map_option ce_Value r = (if k' = k then Some v else lc_live cd e' c k')"
proof (rule disk.k_get_set)
  show "lc_inv cd c" using assms(1,2) lc_reachable_ok by (simp add: lc_inv_def)
qed (fact assms)+

theorem local_get_after_set_witness:
  "\<exists>r c''. Local_Get demo_codec (lc_at 3) (snd (Local_Set demo_codec (lc_at 2) lc_demo_two ''k1'' [9] 0)) ''k2'' = (Ok r, c'') \<and>
     map_option ce_Value r = lc_live demo_codec (lc_at 3) lc_demo_two ''k2''"
proof -
  let ?s = "Local_Set demo_codec (lc_at 2) lc_demo_two ''k1'' [9] 0"
  have s: "?s = (Ok (), snd ?s)" by code_simp
  have "is_ok (fst (Local_Get demo_codec (lc_at 3) (snd ?s) ''k2''))" by code_simp
  then obtain r c'' where g: "Local_Get demo_codec (lc_at 3) (snd ?s) ''k2'' = (Ok r, c'')"
    by (metis is_ok_iff prod.collapse)
  have "map_option ce_Value r = (if ''k2'' = ''k1'' then Some [9] else lc_live demo_codec (lc_at 3) lc_demo_two ''k2'')"
    by (rule local_get_after_set [OF lc_demo_two_reachable demo_codec_ok _ _ s _ g]) code_simp+
  then show ?thesis using g by auto
qed

text \<open>
  C17. A restart loses nothing: after a \<open>Stop\<close> that could save the index, a cache created again with
  the same configuration over the same files returns for every plain key what the old one would
  have returned, from the time of the restart on.
\<close>

theorem local_reload:
  assumes "lc_reachable cd c" and "codec_ok cd" and "range_ok ord" and "plain_key k"
    and "fst (SaveIndex cd no_faults c) = Ok ()" and "\<not> lc_stopCh_closed c"
    and "\<not> list_ex (gm_has (fs_files (lc_fs c))) (prefixes (lc_basePath c))"
    and "lc_static (blank_cache fs n t sz ttl cfg) = lc_static c" and "fs = lc_fs (snd (Local_Stop cd no_faults c))"
    and "nows k \<le> le_now e"
  shows "lc_live cd e (NewLocalCache cd no_faults nows ord fs n t sz ttl cfg) k = lc_live cd e c k"
proof -
  let ?ix = "path_join (lc_basePath c) [''index.gob'']" and ?b = "blank_cache fs n t sz ttl cfg"
  let ?c = "snd (initialize cd no_faults nows ord ?b)"
  have ok: "gm_ok (lc_index c)" using lc_reachable_ok [OF assms(1,2)] by (simp add: lc_ok_def)
  obtain z where z: "cd_gob_enc cd (lc_index c) = Some z" "fs_files fs = gm_set ?ix z (fs_files (lc_fs c))"
    using Local_Stop_files [OF assms(5,6)] assms(9) by blast
  have b: "lc_fs ?b = fs" "lc_entries ?b = 0" "lc_usedSize ?b = 0" by (simp_all add: blank_cache_def Let_def)
  have base: "lc_basePath ?b = lc_basePath c" and algo: "lc_compressAlgo ?b = lc_compressAlgo c"
    using assms(8) by (simp_all add: lc_static_def)
  have "?ix \<notin> set (prefixes (lc_basePath c))" by (rule longer_not_prefix) (simp add: index_path)
  then have "\<not> list_ex (gm_has (fs_files fs)) (prefixes (lc_basePath c))"
    using assms(7) by (auto simp: z(2) list_ex_iff gm_has_def gm_get_set)
  then have pre: "\<not> list_ex (gm_has (fs_files (lc_fs ?b))) (prefixes (lc_basePath ?b))" by (simp add: b base)
  have z': "gm_get (fs_files (lc_fs ?b)) (path_join (lc_basePath ?b) [''index.gob'']) = Some z"
    by (simp add: b base z(2) gm_get_set)
  note l = initialize_loads [OF assms(2,3) ok z(1) z' pre b(2,3), of nows]
  have "getFilePath c k \<noteq> ?ix" using assms(4) by (simp add: index_path getFilePath_plain)
  then have f: "gm_get (fs_files (lc_fs ?c)) (getFilePath c k) = gm_get (fs_files (lc_fs c)) (getFilePath c k)"
    by (simp add: l(1) b z(2) gm_get_set)
  have "getFilePath ?c k = getFilePath c k" using l(2) base by (intro getFilePath_base) (simp add: lc_static_def)
  moreover have "lc_decompress cd ?c = lc_decompress cd c" using l(2) algo by (intro decompress_cong) (simp add: lc_static_def)
  ultimately show ?thesis unfolding NewLocalCache_def using f l(3) [of k] assms(10)
    by (simp add: lc_live_def os_ReadFile_def split: option.split)
qed

theorem local_reload_witness:
  "lc_live demo_codec (lc_at 3) (NewLocalCache demo_codec no_faults (\<lambda>_. 2) rev
     (lc_fs (snd (Local_Stop demo_codec no_faults lc_demo_one))) ''c'' ''t'' 100 60 None) ''k1'' =
   lc_live demo_codec (lc_at 3) lc_demo_one ''k1''"
proof (rule local_reload [OF lc_demo_one_reachable demo_codec_ok])
  show "fst (SaveIndex demo_codec no_faults lc_demo_one) = Ok ()" by code_simp
  show "\<not> list_ex (gm_has (fs_files (lc_fs lc_demo_one))) (prefixes (lc_basePath lc_demo_one))" by code_simp
  show "lc_static (blank_cache (lc_fs (snd (Local_Stop demo_codec no_faults lc_demo_one))) ''c'' ''t'' 100 60 None) =
    lc_static lc_demo_one" by code_simp
  show "\<not> lc_stopCh_closed lc_demo_one" by code_simp
qed (simp_all add: plain_key_def lc_at_def)

text \<open>
  A write that fails half way destroys the old value without anyone noticing: the file was
  truncated before the failure, the index still has the entry of the earlier \<open>Set\<close>, and the next
  \<open>Get\<close> of an uncompressed entry returns the partial data as a hit.
\<close>

theorem local_failed_overwrite:
  assumes "plain_key k" and "gm_get (lc_index c) k = Some en" and "\<not> lce_Compressed en"
    and "le_now e' \<le> lce_ExpiresAt en" and "\<not> io_read (le_io e')"
    and "io_write (le_io e) = WriteFault part" and "\<not> is_dir (lc_fs c) (getFilePath c k)"
    and "Local_Set cd e c k v ttl = (Err (TierFailure ''failed to write file''), c')"
  shows "\<exists>hit. fst (Local_Get cd e' c' k) = Ok (Some hit) \<and> ce_Value hit = part"
proof -
  let ?p = "getFilePath c k"
  obtain data z where d: "encode_value cd c v = (data, z)" by fastforce
  obtain fs where fs: "os_MkdirAll (le_io e) (filepath_Dir ?p) (lc_fs c) = Some fs"
    and c': "c' = c\<lparr>lc_fs := snd (os_WriteFile (le_io e) ?p data fs)\<rparr>"
    using assms(8) d by (auto simp: Local_Set_def Let_def split: option.splits prod.splits bool.splits)
  have "length (snd (filepath_Dir ?p)) < length (snd ?p)"
    using assms(1) by (simp add: filepath_Dir_def getFilePath_plain)
  then have "\<not> is_dir fs ?p" using assms(7) longer_not_prefix [of "filepath_Dir ?p" ?p] fs
    by (auto simp: os_MkdirAll_def is_dir_def split: if_splits)
  moreover have "is_dir fs (filepath_Dir ?p)" using fs by (rule MkdirAll_dir)
  ultimately have "gm_get (fs_files (lc_fs c')) ?p = Some part"
    using assms(6) by (simp add: c' os_WriteFile_def gm_get_set)
  moreover have "getFilePath c' k = ?p" "lc_index c' = lc_index c" by (simp_all add: c' getFilePath_def)
  ultimately show ?thesis using assms(2-5) by (simp add: Local_Get_def os_ReadFile_def)
qed

theorem local_failed_overwrite_witness:
  "\<exists>hit. fst (Local_Get demo_codec (lc_at 4) (snd (Local_Set demo_codec
       \<lparr>le_now = 3, le_access = 3, le_io = no_faults\<lparr>io_write := WriteFault [5]\<rparr>\<rparr> lc_demo_two ''k1'' [8, 8, 8] 0)) ''k1'') = Ok (Some hit) \<and>
     ce_Value hit = [5]"
proof -
  let ?e = "\<lparr>le_now = 3, le_access = 3, le_io = no_faults\<lparr>io_write := WriteFault [5]\<rparr>\<rparr>"
  let ?s = "Local_Set demo_codec ?e lc_demo_two ''k1'' [8, 8, 8] 0"
  let ?en = "new_entry 1 ''k1'' (replicate 60 0) False 60"
  have "gm_get (lc_index lc_demo_two) ''k1'' = Some ?en" by code_simp
  moreover have "?s = (Err (TierFailure ''failed to write file''), snd ?s)" by code_simp
  moreover have "\<not> is_dir (lc_fs lc_demo_two) (getFilePath lc_demo_two ''k1'')" by code_simp
  moreover have "\<not> lce_Compressed ?en" "le_now (lc_at 4) \<le> lce_ExpiresAt ?en" by code_simp+
  moreover have "plain_key ''k1''" "\<not> io_read (le_io (lc_at 4))" "io_write (le_io ?e) = WriteFault [5]"
    by (simp_all add: plain_key_def lc_at_def no_faults_def)
  ultimately show ?thesis by (intro local_failed_overwrite)
qed

text \<open>
  Keys that are not plain can share a file or leave the directory of the cache: a key that names
  its own subdirectory and steps back has the file of another key, and a key that starts with two
  dots is written next to the caches.
\<close>

lemma local_key_alias:
  "getFilePath c ''00/../a'' = getFilePath c ''a''"
  "lc_basePath c = (True, [''cache'', ''c'', ''t'']) \<Longrightarrow> getFilePath c ''../x'' = (True, [''cache'', ''x''])"
  by (simp_all add: getFilePath_def path_join_def)

end
