(* ===== verification/Background.thy ===== *)
theory Background
  imports GpuManager CacheManager LocalCacheInv
begin

text \<open>
  The goroutines that wake up on a ticker until the context is done or they are stopped: the GPU
  discovery, the watch over the MPS daemons, the eviction check of the cache manager and the
  cleanup of a local tier. A loop is a function of the events that its \<open>select\<close> receives, one after
  the other; what a tick reads (the manager as it is then, the order of a \<open>range\<close> loop, the clock)
  comes with the event. The scheduler of the time-slice manager, which has a channel of its own,
  is \<open>runScheduler\<close> in \<open>Timeslice\<close>.
\<close>

section \<open>Loops on a ticker\<close>

datatype 'a loop_event = LoopDone | LoopStop | LoopTick 'a

fun ticker_loop :: "('a \<Rightarrow> 's \<Rightarrow> 's) \<Rightarrow> 'a loop_event list \<Rightarrow> 's \<Rightarrow> 's" where
  "ticker_loop f [] s = s"
| "ticker_loop f (LoopDone # es) s = s"
| "ticker_loop f (LoopStop # es) s = s"
| "ticker_loop f (LoopTick x # es) s = ticker_loop f es (f x s)"

text \<open>The ticks before the loop ends.\<close>

fun loop_ticks :: "'a loop_event list \<Rightarrow> 'a list" where
  "loop_ticks (LoopTick x # es) = x # loop_ticks es"
| "loop_ticks _ = []"

lemma ticker_loop_fold: "ticker_loop f es s = fold f (loop_ticks es) s"
  by (induction f es s rule: ticker_loop.induct) simp_all

text \<open>What discovery writes to the gauges, and what the other two loops log.\<close>

definition runDiscoveryLoop :: "(pool_ord \<times> string ptr_ord \<times> Manager) loop_event list \<Rightarrow> (string \<times> string list \<times> gofloat) list" where
  "runDiscoveryLoop es = ticker_loop (\<lambda>(pord, gord, m) out. out @ discoverGPUs pord gord m) es []"

definition monitorDaemons :: "(daemon_ord \<times> MPSManager) loop_event list \<Rightarrow> (string \<times> string) list" where
  "monitorDaemons es = ticker_loop (\<lambda>(ord, m) out. out @ MPS_checkDaemonHealth ord m) es []"

definition runEvictionLoop :: "('e, 's) CacheTier \<Rightarrow>
    (((string, 's CacheConfig) gomap \<Rightarrow> (string, 's CacheConfig) gomap) \<times> 's CacheManager) loop_event list \<Rightarrow> (string \<times> string) list" where
  "runEvictionLoop ops es = ticker_loop (\<lambda>(ord, m) out. out @ runEviction ops ord m) es []"

definition cleanupLoop :: "(io_faults \<times> local_ord \<times> timestamp) loop_event list \<Rightarrow> LocalCache \<Rightarrow> LocalCache" where
  "cleanupLoop es c = ticker_loop (\<lambda>(io, ord, now) c. cleanupExpired io ord now c) es c"

section \<open>Lemmas\<close>

text \<open>A reachable GPU manager has no GPU, so that discovery has nothing to report.\<close>

definition gpuless :: "Manager \<Rightarrow> bool" where
  "gpuless m \<longleftrightarrow> mg_gpus m = []"

lemma gpu_step_gpuless: "gpu_step m m' \<Longrightarrow> gpuless m \<Longrightarrow> gpuless m'"
proof (induction rule: gpu_step.induct)
  case (stop m)
  then show ?case by (simp add: gpuless_def Manager_Stop_def Let_def split: prod.split outcome.split)
next
  case (unregister ce m n)
  then show ?case by (simp add: gpuless_def UnregisterPool_def Let_def split: option.split)
next
  case (allocate e m req)
  have d: "mg_gpus (snd (dispatch e m req pool)) = mg_gpus m" for pool
    by (simp add: dispatch_def allocateExclusive_def Let_def split_beta)
  then have "dispatch e m req pool = (r, m') \<Longrightarrow> mg_gpus m' = mg_gpus m" for pool r m' by (metis snd_conv)
  then show ?case using allocate by (auto simp: gpuless_def Manager_Allocate_def split: option.split prod.split outcome.split)
qed (auto simp: gpuless_def Manager_Start_def RegisterPool_def Manager_Release_def Let_def split_beta)

lemma gpu_reachable_gpuless: "gpu_reachable m \<Longrightarrow> gpuless m"
proof (induction rule: gpu_reachable.induct)
  case new
  show ?case by (simp add: gpuless_def NewManager_def)
qed (blast intro: gpu_step_gpuless)

text \<open>One tick of the cleanup removes exactly the entries that have expired.\<close>

lemma cleanup_fold_index:
  assumes "gm_ok ks"
  shows "gm_get (lc_index (fold (\<lambda>(k, en) c. if P en then deleteEntry io k en c else c) ks c)) k =
    (case gm_get ks k of Some en \<Rightarrow> if P en then None else gm_get (lc_index c) k | None \<Rightarrow> gm_get (lc_index c) k)"
  using assms
proof (induction ks arbitrary: c)
  case (Cons ken ks)
  obtain k' en' where ken: "ken = (k', en')" by fastforce
  have "gm_get ks k' = None" using Cons.prems ken by (simp add: map_of_eq_None_iff)
  then show ?case using Cons.IH [of "if P en' then deleteEntry io k' en' c else c"] Cons.prems ken
    by (auto simp: deleteEntry_def gm_get_del split: option.split)
qed simp

lemma cleanupExpired_index:
  assumes "lc_ok c" and "range_ok ord"
  shows "gm_get (lc_index (cleanupExpired io ord now c)) k =
    (case gm_get (lc_index c) k of Some en \<Rightarrow> if now > lce_ExpiresAt en then None else Some en | None \<Rightarrow> None)"
proof -
  have ok: "gm_ok (lc_index c)" "gm_ok (ord (lc_index c))" using assms by (simp_all add: lc_ok_def range_ok_distinct)
  have "gm_get (ord (lc_index c)) k = gm_get (lc_index c) k"
    using ok range_ok_set [OF assms(2)] by (metis map_of_inject_set)
  then show ?thesis unfolding cleanupExpired_def cleanup_fold_index [OF ok(2)] by (simp split: option.split)
qed

lemma cleanup_ticks:
  assumes "lc_ok c" and "\<forall>(io, ord, now) \<in> set ticks. range_ok ord"
  shows "lc_ok (fold (\<lambda>(io, ord, now) c. cleanupExpired io ord now c) ticks c) \<and>
    gm_get (lc_index (fold (\<lambda>(io, ord, now) c. cleanupExpired io ord now c) ticks c)) k =
      (case gm_get (lc_index c) k of
         Some en \<Rightarrow> if \<exists>(io, ord, now) \<in> set ticks. now > lce_ExpiresAt en then None else Some en
       | None \<Rightarrow> None)"
  using assms
proof (induction ticks arbitrary: c)
  case (Cons tick ticks)
  obtain io ord now where tick: "tick = (io, ord, now)" by (metis prod_cases3)
  have ok: "lc_ok (cleanupExpired io ord now c)" "range_ok ord" using Cons.prems tick by (auto intro: cleanupExpired_ok)
  have "\<forall>(io, ord, now) \<in> set ticks. range_ok ord" using Cons.prems(2) by simp
  from Cons.IH [OF ok(1) this] cleanupExpired_index [OF Cons.prems(1) ok(2), of io now k] tick
  show ?case by (auto split: option.splits)
qed (auto split: option.split)

section \<open>Properties\<close>

text \<open>
  C18. The cleanup loop of a local tier, over any events: until it is stopped it removes exactly the
  entries that have expired at one of its ticks, every other entry stays as it is, and the counters
  stay exact, whether or not the files could be removed.
\<close>

theorem local_cleanup_loop:
  assumes "codec_ok cd" and "lc_reachable cd c" and "\<forall>(io, ord, now) \<in> set (loop_ticks es). range_ok ord"
  shows "gm_get (lc_index (cleanupLoop es c)) k =
      (case gm_get (lc_index c) k of
         Some en \<Rightarrow> if \<exists>(io, ord, now) \<in> set (loop_ticks es). now > lce_ExpiresAt en then None else Some en
       | None \<Rightarrow> None) \<and>
    lc_usedSize (cleanupLoop es c) = wrap64 (gm_sum lce_Size (lc_index (cleanupLoop es c))) \<and>
    lc_entries (cleanupLoop es c) = wrap64 (int (length (lc_index (cleanupLoop es c))))"
  using cleanup_ticks [OF lc_reachable_ok [OF assms(2,1)] assms(3)] by (simp add: cleanupLoop_def ticker_loop_fold lc_ok_def)

theorem local_cleanup_loop_witness:
  "gm_get (lc_index (cleanupLoop [LoopTick (no_faults, rev, 1000), LoopStop, LoopTick (no_faults, rev, 1)] lc_demo_two)) ''k1'' = None \<and>
    lc_entries (cleanupLoop [LoopTick (no_faults, rev, 1000), LoopStop, LoopTick (no_faults, rev, 1)] lc_demo_two) =
      wrap64 (int (length (lc_index (cleanupLoop [LoopTick (no_faults, rev, 1000), LoopStop, LoopTick (no_faults, rev, 1)] lc_demo_two))))"
proof -
  have "case gm_get (lc_index lc_demo_two) ''k1'' of Some en \<Rightarrow> lce_ExpiresAt en < 1000 | None \<Rightarrow> False" by code_simp
  then obtain en where "gm_get (lc_index lc_demo_two) ''k1'' = Some en" "lce_ExpiresAt en < 1000" by (auto split: option.splits)
  then show ?thesis
    using local_cleanup_loop [OF demo_codec_ok lc_demo_two_reachable,
      of "[LoopTick (no_faults, rev, 1000), LoopStop, LoopTick (no_faults, rev, 1)]" "''k1''"] by simp
qed

text \<open>Whenever discovery runs, it has nothing to report: no operation of the manager ever adds a GPU.\<close>

lemma discovery_reports_nothing:
  assumes "\<forall>(pord, gord, m) \<in> set (loop_ticks es). gpu_reachable m \<and> range_ok gord"
  shows "runDiscoveryLoop es = []"
proof -
  have "discoverGPUs pord gord m = []" if "gpu_reachable m" "range_ok gord" for pord gord m
    using gpu_reachable_gpuless [OF that(1)] range_ok_length [OF that(2), of "[]"] by (simp add: discoverGPUs_def gpuless_def)
  then have "fold (\<lambda>(pord, gord, m) out. out @ discoverGPUs pord gord m) ticks [] = []"
    if "\<forall>(pord, gord, m) \<in> set ticks. gpu_reachable m \<and> range_ok gord" for ticks
    using that by (induction ticks) auto
  then show ?thesis using assms by (simp add: runDiscoveryLoop_def ticker_loop_fold)
qed

end
