(* ===== verification/RedisCache.thy ===== *)
theory RedisCache
  imports CacheTypes
begin

text \<open>
  The Redis tier, \<open>internal/cache/redis.go\<close>. The client library and the server behind it are not
  part of the program: \<open>redis_client\<close> holds the calls the tier makes, as functions of the time and of
  the state \<open>'d\<close> of the server, and \<open>redis_laws\<close> states what Redis documents of them. The goroutine
  that \<open>Get\<close> starts to record the access is a task that runs later. The mutex only guards the
  client value, and \<open>hashKey\<close> is called by nothing; both are left out.
\<close>

section \<open>The client\<close>

datatype redis_error = RedisNil | RedisError string

datatype redis_value = RText bytes | RInt int

datatype redis_cmd = HSet string "(string, redis_value) gomap" | Expire string duration

text \<open>
  \<open>cl_Exec\<close> sends one command or a pipeline and \<open>cl_Reads\<close> is the error of a pipeline of reads.
  \<open>cl_Scan\<close> yields the keys that the iterator visits and the error it ends with.
\<close>

record 'd redis_client =
  cl_Ping :: "timestamp \<Rightarrow> 'd \<Rightarrow> redis_error option"
  cl_HGetAll :: "timestamp \<Rightarrow> 'd \<Rightarrow> string \<Rightarrow> (redis_error, (string, bytes) gomap) outcome"
  cl_HGetInt :: "timestamp \<Rightarrow> 'd \<Rightarrow> string \<Rightarrow> string \<Rightarrow> (redis_error, int) outcome"
  cl_Reads :: "timestamp \<Rightarrow> 'd \<Rightarrow> string list \<Rightarrow> redis_error option"
  cl_Exec :: "timestamp \<Rightarrow> 'd \<Rightarrow> redis_cmd list \<Rightarrow> redis_error option \<times> 'd"
  cl_Del :: "timestamp \<Rightarrow> 'd \<Rightarrow> string \<Rightarrow> redis_error option \<times> 'd"
  cl_Scan :: "timestamp \<Rightarrow> 'd \<Rightarrow> string \<Rightarrow> string list \<times> redis_error option"
  cl_Info :: "timestamp \<Rightarrow> 'd \<Rightarrow> (redis_error, string) outcome"

record redis_options =
  ro_Cluster :: bool
  ro_Addrs :: "string list"
  ro_PoolSize :: int
  ro_Timeout :: duration

fun redis_error_text :: "redis_error \<Rightarrow> string" where
  "redis_error_text RedisNil = ''redis: nil''"
| "redis_error_text (RedisError m) = m"

section \<open>The tier\<close>

record 'd RedisCache =
  rd_cacheName :: string
  rd_tierName :: string
  rd_maxSize :: quantity
  rd_defaultTTL :: duration
  rd_config :: "RedisCacheConfig option"
  rd_keyPrefix :: string
  rd_hits :: int
  rd_misses :: int
  rd_usedSize :: int
  rd_entries :: int
  rd_healthy :: bool
  rd_server :: 'd
  rd_touches :: "string list"

definition redis_opts :: "RedisCacheConfig option \<Rightarrow> redis_options" where
  "redis_opts config =
    (case config of
       None \<Rightarrow> \<lparr>ro_Cluster = False, ro_Addrs = [''localhost:6379''], ro_PoolSize = 0, ro_Timeout = 0\<rparr>
     | Some c \<Rightarrow>
         \<lparr>ro_Cluster = (rcc_Mode c = ''cluster''),
          ro_Addrs = [if rcc_ExternalEndpoint c \<noteq> '''' then rcc_ExternalEndpoint c else ''localhost:6379''],
          ro_PoolSize = (if rcc_MaxConnections c > 0 then rcc_MaxConnections c else 0),
          ro_Timeout = (case rcc_ConnectionTimeout c of Some d \<Rightarrow> d | None \<Rightarrow> 0)\<rparr>)"

text \<open>
  A tier without an external endpoint talks to the Redis of its own host, under whatever name the
  controller has made one for the cache in the cluster.
\<close>

lemma redis_opts_localhost:
  "(case config of Some c \<Rightarrow> rcc_ExternalEndpoint c = [] | None \<Rightarrow> True) \<Longrightarrow> ro_Addrs (redis_opts config) = [''localhost:6379'']"
  by (auto simp: redis_opts_def split: option.splits)

text \<open>\<open>dial\<close> is the server that a client made from the options talks to. A failing ping is no error.\<close>

definition redis_connect :: "'d redis_client \<Rightarrow> (redis_options \<Rightarrow> 'd) \<Rightarrow> timestamp \<Rightarrow> 'd RedisCache \<Rightarrow> (cache_error, unit) outcome \<times> 'd RedisCache" where
  "redis_connect cl dial now c =
    (let server = dial (redis_opts (rd_config c)) in
     (Ok (), c\<lparr>rd_server := server, rd_healthy := (cl_Ping cl now server = None)\<rparr>))"

definition NewRedisCache :: "'d redis_client \<Rightarrow> (redis_options \<Rightarrow> 'd) \<Rightarrow> timestamp \<Rightarrow> string \<Rightarrow> string \<Rightarrow> quantity \<Rightarrow> duration
    \<Rightarrow> RedisCacheConfig option \<Rightarrow> (cache_error, 'd RedisCache) outcome" where
  "NewRedisCache cl dial now cacheName tierName sz ttl config =
    (case redis_connect cl dial now
       \<lparr>rd_cacheName = cacheName, rd_tierName = tierName, rd_maxSize = sz,
        rd_defaultTTL = (if ttl = 0 then 7 * 24 * hour else ttl), rd_config = config,
        rd_keyPrefix = ''inference:'' @ cacheName @ '':'' @ tierName @ '':'', rd_hits = 0, rd_misses = 0, rd_usedSize = 0,
        rd_entries = 0, rd_healthy = False, rd_server = dial (redis_opts config), rd_touches = []\<rparr> of
       (Ok _, c) \<Rightarrow> Ok c | (Err err, c) \<Rightarrow> Err err | (Panic, c) \<Rightarrow> Panic | (Blocked, c) \<Rightarrow> Blocked)"

text \<open>One tick of the health loop; a failed ping reconnects, and pings again.\<close>

definition healthCheck_tick :: "'d redis_client \<Rightarrow> (redis_options \<Rightarrow> 'd) \<Rightarrow> timestamp \<Rightarrow> 'd RedisCache \<Rightarrow> 'd RedisCache" where
  "healthCheck_tick cl dial now c =
    (if cl_Ping cl now (rd_server c) \<noteq> None then snd (redis_connect cl dial now (c\<lparr>rd_healthy := False\<rparr>))
     else c\<lparr>rd_healthy := True\<rparr>)"

definition Redis_Name :: "'d RedisCache \<Rightarrow> string" where
  "Redis_Name c = rd_tierName c"

definition Redis_Type :: "'d RedisCache \<Rightarrow> CacheTierType" where
  "Redis_Type c = CacheTierTypeRedis"

definition makeKey :: "'d RedisCache \<Rightarrow> string \<Rightarrow> string" where
  "makeKey c key = rd_keyPrefix c @ key"

definition redis_unhealthy :: cache_error where
  "redis_unhealthy = TierFailure ''redis is not healthy''"

definition unix_time :: "timestamp \<Rightarrow> int" where
  "unix_time t = t div 1000000000"

text \<open>The zero value of \<open>time.Time\<close>, the first of January of the year 1, in nanoseconds since 1970.\<close>

definition zero_time :: timestamp where
  "zero_time = - 62135596800 * 1000000000"

definition redis_entry :: "'d RedisCache \<Rightarrow> string \<Rightarrow> (string, bytes) gomap \<Rightarrow> CacheEntry" where
  "redis_entry c key result =
    (let v = (case gm_get result ''value'' of Some b \<Rightarrow> b | None \<Rightarrow> []) in
     \<lparr>ce_Key = key, ce_Value = v, ce_Size = int (length v), ce_CreatedAt = zero_time, ce_AccessedAt = zero_time, ce_AccessCount = 0,
      ce_TTL = 0, ce_Tier = rd_tierName c, ce_Metadata = []\<rparr>)"

definition redis_miss :: "'d RedisCache \<Rightarrow> 'd RedisCache" where
  "redis_miss c = c\<lparr>rd_misses := wrap64 (rd_misses c + 1)\<rparr>"

definition Redis_Get :: "'d redis_client \<Rightarrow> timestamp \<Rightarrow> 'd RedisCache \<Rightarrow> string \<Rightarrow> (cache_error, CacheEntry option) outcome \<times> 'd RedisCache" where
  "Redis_Get cl now c key =
    (if \<not> rd_healthy c then (Err redis_unhealthy, c)
     else case cl_HGetAll cl now (rd_server c) (makeKey c key) of
       Err RedisNil \<Rightarrow> (Ok None, redis_miss c)
     | Err (RedisError m) \<Rightarrow> (Err (TierFailure (''failed to get from redis: '' @ m)), redis_miss c)
     | Panic \<Rightarrow> (Panic, c)
     | Blocked \<Rightarrow> (Blocked, c)
     | Ok result \<Rightarrow>
         if result = [] then (Ok None, redis_miss c)
         else (Ok (Some (redis_entry c key result)),
               c\<lparr>rd_hits := wrap64 (rd_hits c + 1), rd_touches := rd_touches c @ [makeKey c key]\<rparr>))"

text \<open>The goroutine of a \<open>Get\<close>: it sets the access time of the key, whatever has become of the key since.\<close>

definition redis_touch :: "'d redis_client \<Rightarrow> timestamp \<Rightarrow> string \<Rightarrow> 'd RedisCache \<Rightarrow> 'd RedisCache" where
  "redis_touch cl now redisKey c =
     c\<lparr>rd_server := snd (cl_Exec cl now (rd_server c) [HSet redisKey [(''accessed_at'', RInt (unix_time now))]]),
       rd_touches := remove1 redisKey (rd_touches c)\<rparr>"

definition redis_fields :: "timestamp \<Rightarrow> bytes \<Rightarrow> (string, redis_value) gomap" where
  "redis_fields now value = [(''value'', RText value), (''created_at'', RInt (unix_time now)),
     (''accessed_at'', RInt (unix_time now)), (''size'', RInt (int (length value)))]"

definition redis_ttl :: "'d RedisCache \<Rightarrow> duration \<Rightarrow> duration" where
  "redis_ttl c ttl = (if ttl = 0 then rd_defaultTTL c else ttl)"

definition redis_counted :: "bytes \<Rightarrow> 'd RedisCache \<Rightarrow> 'd RedisCache" where
  "redis_counted value c = c\<lparr>rd_entries := wrap64 (rd_entries c + 1), rd_usedSize := wrap64 (rd_usedSize c + int (length value))\<rparr>"

definition Redis_Set :: "'d redis_client \<Rightarrow> timestamp \<Rightarrow> 'd RedisCache \<Rightarrow> string \<Rightarrow> bytes \<Rightarrow> duration \<Rightarrow> (cache_error, unit) outcome \<times> 'd RedisCache" where
  "Redis_Set cl now c key value ttl =
    (if \<not> rd_healthy c then (Err redis_unhealthy, c)
     else case cl_Exec cl now (rd_server c) [HSet (makeKey c key) (redis_fields now value), Expire (makeKey c key) (redis_ttl c ttl)] of
       (Some err, server) \<Rightarrow> (Err (TierFailure (''failed to set in redis: '' @ redis_error_text err)), c\<lparr>rd_server := server\<rparr>)
     | (None, server) \<Rightarrow> (Ok (), redis_counted value (c\<lparr>rd_server := server\<rparr>)))"

definition Redis_Delete :: "'d redis_client \<Rightarrow> timestamp \<Rightarrow> 'd RedisCache \<Rightarrow> string \<Rightarrow> (cache_error, unit) outcome \<times> 'd RedisCache" where
  "Redis_Delete cl now c key =
    (if \<not> rd_healthy c then (Err redis_unhealthy, c)
     else let size = (case cl_HGetInt cl now (rd_server c) (makeKey c key) ''size'' of Ok n \<Rightarrow> n | _ \<Rightarrow> 0) in
       case cl_Del cl now (rd_server c) (makeKey c key) of
         (Some err, server) \<Rightarrow> (Err (TierFailure (''failed to delete from redis: '' @ redis_error_text err)), c\<lparr>rd_server := server\<rparr>)
       | (None, server) \<Rightarrow> (Ok (), c\<lparr>rd_server := server, rd_entries := wrap64 (rd_entries c - 1), rd_usedSize := wrap64 (rd_usedSize c - size)\<rparr>))"

text \<open>A deletion that fails during \<open>Clear\<close> is only logged.\<close>

definition Redis_Clear :: "'d redis_client \<Rightarrow> timestamp \<Rightarrow> 'd RedisCache \<Rightarrow> (cache_error, unit) outcome \<times> 'd RedisCache" where
  "Redis_Clear cl now c =
    (if \<not> rd_healthy c then (Err redis_unhealthy, c)
     else case cl_Scan cl now (rd_server c) (rd_keyPrefix c @ ''*'') of
       (ks, err) \<Rightarrow>
         let c' = c\<lparr>rd_server := fold (\<lambda>k d. snd (cl_Del cl now d k)) ks (rd_server c)\<rparr> in
         (case err of
            Some m \<Rightarrow> (Err (TierFailure (''failed to scan redis: '' @ redis_error_text m)), c')
          | None \<Rightarrow> (Ok (), c'\<lparr>rd_entries := 0, rd_usedSize := 0\<rparr>)))"

definition Redis_Size :: "'d RedisCache \<Rightarrow> quantity" where
  "Redis_Size c = rd_maxSize c"

definition Redis_UsedSize :: "'d RedisCache \<Rightarrow> quantity" where
  "Redis_UsedSize c = rd_usedSize c"

definition Redis_Entries :: "'d RedisCache \<Rightarrow> int" where
  "Redis_Entries c = rd_entries c"

definition Redis_Stats :: "'d RedisCache \<Rightarrow> TierStats" where
  "Redis_Stats c = \<lparr>st_HitRate = fst (rates (rd_hits c) (rd_misses c)), st_MissRate = snd (rates (rd_hits c) (rd_misses c)),
     st_AvgLatency = 0, st_Entries = rd_entries c, st_UsedSize = rd_usedSize c, st_MaxSize = rd_maxSize c, st_Evictions = 0\<rparr>"

definition Redis_Healthy :: "'d RedisCache \<Rightarrow> bool" where
  "Redis_Healthy c = rd_healthy c"

definition redis_tier :: "'d redis_client \<Rightarrow> (timestamp, 'd RedisCache) CacheTier" where
  "redis_tier cl = \<lparr>op_Name = Redis_Name, op_Type = Redis_Type, op_Get = Redis_Get cl, op_Set = Redis_Set cl, op_Delete = Redis_Delete cl,
     op_Clear = Redis_Clear cl, op_Size = Redis_Size, op_UsedSize = Redis_UsedSize, op_Entries = Redis_Entries,
     op_Stats = Redis_Stats, op_Healthy = Redis_Healthy\<rparr>"

section \<open>Several keys at once\<close>

text \<open>One iteration of the loop over the commands of a read pipeline.\<close>

definition get_one :: "'d redis_client \<Rightarrow> timestamp \<Rightarrow> string \<Rightarrow> (string, CacheEntry) gomap \<times> 'd RedisCache \<Rightarrow> (string, CacheEntry) gomap \<times> 'd RedisCache" where
  "get_one cl now key rc =
    (case rc of (results, c) \<Rightarrow>
       (case cl_HGetAll cl now (rd_server c) (makeKey c key) of
          Ok result \<Rightarrow>
            if result = [] then (results, redis_miss c)
            else (gm_set key (redis_entry c key result) results, c\<lparr>rd_hits := wrap64 (rd_hits c + 1)\<rparr>)
        | _ \<Rightarrow> (results, redis_miss c)))"

definition GetMulti :: "'d redis_client \<Rightarrow> timestamp \<Rightarrow> 'd RedisCache \<Rightarrow> string list \<Rightarrow> (cache_error, (string, CacheEntry) gomap) outcome \<times> 'd RedisCache" where
  "GetMulti cl now c keys =
    (if \<not> rd_healthy c then (Err redis_unhealthy, c)
     else case cl_Reads cl now (rd_server c) (map (makeKey c) keys) of
       Some (RedisError m) \<Rightarrow> (Err (TierFailure (''failed to get multi from redis: '' @ m)), c)
     | _ \<Rightarrow> (case fold (get_one cl now) (remdups keys) ([], c) of (results, c') \<Rightarrow> (Ok results, c')))"

definition SetMulti :: "'d redis_client \<Rightarrow> timestamp \<Rightarrow> ((string, bytes) gomap \<Rightarrow> (string, bytes) gomap) \<Rightarrow> 'd RedisCache \<Rightarrow> (string, bytes) gomap \<Rightarrow> duration
    \<Rightarrow> (cache_error, unit) outcome \<times> 'd RedisCache" where
  "SetMulti cl now ord c entries ttl =
    (if \<not> rd_healthy c then (Err redis_unhealthy, c)
     else case cl_Exec cl now (rd_server c) (concat (map (\<lambda>(key, value).
         [HSet (makeKey c key) (redis_fields now value), Expire (makeKey c key) (redis_ttl c ttl)]) (ord entries))) of
       (Some err, server) \<Rightarrow> (Err (TierFailure (''failed to set multi in redis: '' @ redis_error_text err)), c\<lparr>rd_server := server\<rparr>)
     | (None, server) \<Rightarrow> (Ok (), fold (\<lambda>(key, value). redis_counted value) entries (c\<lparr>rd_server := server\<rparr>)))"

definition Redis_Info :: "'d redis_client \<Rightarrow> timestamp \<Rightarrow> 'd RedisCache \<Rightarrow> (cache_error, (string, string) gomap) outcome" where
  "Redis_Info cl now c =
    (if \<not> rd_healthy c then Err redis_unhealthy
     else case cl_Info cl now (rd_server c) of
       Ok info \<Rightarrow> Ok [(''info'', info)]
     | Err err \<Rightarrow> Err (TierFailure (''failed to get redis info: '' @ redis_error_text err))
     | Panic \<Rightarrow> Panic | Blocked \<Rightarrow> Blocked)"

section \<open>What Redis promises\<close>

text \<open>
  \<open>view now d k\<close> is the hash under the key \<open>k\<close>, empty where there is none or where it has expired.
  A command that succeeds has the documented effect: \<open>HSET\<close> adds its fields to those that are there,
  and a hash that it creates has no expiry; \<open>EXPIRE\<close>, which the client sends in whole seconds, keeps
  the hash for that long; \<open>DEL\<close> removes it. A number is read back as
  the number it was. \<open>HGETALL\<close> of a key that is not there is the empty hash and not a nil reply.
\<close>

fun redis_text :: "(int \<Rightarrow> bytes) \<Rightarrow> redis_value \<Rightarrow> bytes" where
  "redis_text dec (RText b) = b"
| "redis_text dec (RInt i) = dec i"

definition whole_seconds :: "duration \<Rightarrow> duration" where
  "whole_seconds ttl = ttl div 1000000000 * 1000000000"

definition hash_over :: "('k, 'v) gomap \<Rightarrow> ('k, 'v) gomap \<Rightarrow> ('k, 'v) gomap \<Rightarrow> bool" where
  "hash_over fs old new \<longleftrightarrow> gm_get new = gm_get old ++ gm_get fs"

type_synonym 'd redis_view = "timestamp \<Rightarrow> 'd \<Rightarrow> string \<Rightarrow> (string, redis_value) gomap"

definition hgetall_law :: "(int \<Rightarrow> bytes) \<Rightarrow> 'd redis_client \<Rightarrow> 'd redis_view \<Rightarrow> bool" where
  "hgetall_law dec cl view \<longleftrightarrow> (\<forall>now d k. cl_HGetAll cl now d k \<noteq> Err RedisNil \<and>
     (\<forall>r. cl_HGetAll cl now d k = Ok r \<longrightarrow> r = gm_map (redis_text dec) (view now d k)))"

definition hget_law :: "'d redis_client \<Rightarrow> 'd redis_view \<Rightarrow> bool" where
  "hget_law cl view \<longleftrightarrow> (\<forall>now d k f n. cl_HGetInt cl now d k f = Ok n \<longrightarrow> gm_get (view now d k) f = Some (RInt n))"

definition hset_expire_law :: "'d redis_client \<Rightarrow> 'd redis_view \<Rightarrow> bool" where
  "hset_expire_law cl view \<longleftrightarrow> (\<forall>now d k fs ttl d' now'. cl_Exec cl now d [HSet k fs, Expire k ttl] = (None, d') \<longrightarrow>
     now \<le> now' \<longrightarrow> now' < now + whole_seconds ttl \<longrightarrow>
     hash_over fs (view now d k) (view now' d' k) \<and> (\<forall>k'. k' \<noteq> k \<longrightarrow> view now' d' k' = view now' d k'))"

definition hset_new_law :: "'d redis_client \<Rightarrow> 'd redis_view \<Rightarrow> bool" where
  "hset_new_law cl view \<longleftrightarrow> (\<forall>now d k fs d' now'. cl_Exec cl now d [HSet k fs] = (None, d') \<longrightarrow> view now d k = [] \<longrightarrow>
     now \<le> now' \<longrightarrow> view now' d' k = fs)"

definition del_law :: "'d redis_client \<Rightarrow> 'd redis_view \<Rightarrow> bool" where
  "del_law cl view \<longleftrightarrow> (\<forall>now d k d' now' k'. cl_Del cl now d k = (None, d') \<longrightarrow> view now' d' k' = (if k' = k then [] else view now' d k'))"

definition redis_laws :: "(int \<Rightarrow> bytes) \<Rightarrow> 'd redis_client \<Rightarrow> 'd redis_view \<Rightarrow> bool" where
  "redis_laws dec cl view \<longleftrightarrow> hgetall_law dec cl view \<and> hget_law cl view \<and> hset_expire_law cl view \<and> hset_new_law cl view \<and> del_law cl view"

lemma redis_HGetAll:
  assumes "redis_laws dec cl view" and "cl_HGetAll cl now d k = Ok r"
  shows "r = gm_map (redis_text dec) (view now d k)"
  using assms by (simp add: redis_laws_def hgetall_law_def)

lemma redis_HGetInt:
  assumes "redis_laws dec cl view" and "cl_HGetInt cl now d k f = Ok n"
  shows "gm_get (view now d k) f = Some (RInt n)"
  using assms by (simp add: redis_laws_def hget_law_def)

lemma redis_Exec_set:
  assumes "redis_laws dec cl view" and "cl_Exec cl now d [HSet k fs, Expire k ttl] = (None, d')" and "now \<le> now'" and "now' < now + whole_seconds ttl"
  shows "hash_over fs (view now d k) (view now' d' k)" and "k' \<noteq> k \<Longrightarrow> view now' d' k' = view now' d k'"
proof -
  have "hset_expire_law cl view" using assms(1) by (simp add: redis_laws_def)
  from this [unfolded hset_expire_law_def, rule_format, OF assms(2-4)]
  show "hash_over fs (view now d k) (view now' d' k)" "k' \<noteq> k \<Longrightarrow> view now' d' k' = view now' d k'" by simp_all
qed

lemma redis_Exec_new:
  assumes "redis_laws dec cl view" and "cl_Exec cl now d [HSet k fs] = (None, d')" and "view now d k = []" and "now \<le> now'"
  shows "view now' d' k = fs"
proof -
  have "hset_new_law cl view" using assms(1) by (simp add: redis_laws_def)
  from this [unfolded hset_new_law_def, rule_format, OF assms(2-4)] show ?thesis .
qed

lemma redis_Del:
  assumes "redis_laws dec cl view" and "cl_Del cl now d k = (None, d')"
  shows "view now' d' k' = (if k' = k then [] else view now' d k')"
proof -
  have "del_law cl view" using assms(1) by (simp add: redis_laws_def)
  from this [unfolded del_law_def, rule_format, OF assms(2)] show ?thesis .
qed

section \<open>What the tier makes of it\<close>

text \<open>The value that a completed \<open>Get\<close> returns.\<close>

definition redis_live :: "'d redis_view \<Rightarrow> (int \<Rightarrow> bytes) \<Rightarrow> timestamp \<Rightarrow> 'd RedisCache \<Rightarrow> string \<Rightarrow> bytes option" where
  "redis_live view dec now c key =
    (let h = view now (rd_server c) (makeKey c key) in
     if h = [] then None else Some (case gm_get h ''value'' of Some v \<Rightarrow> redis_text dec v | None \<Rightarrow> []))"

lemma gm_map_Nil_iff: "gm_map f m = [] \<longleftrightarrow> m = []"
  by (simp add: gm_map_def)

lemma redis_HGetAll_not_nil: "redis_laws dec cl view \<Longrightarrow> cl_HGetAll cl now d k \<noteq> Err RedisNil"
  by (simp add: redis_laws_def hgetall_law_def)

lemma Redis_Get_live:
  assumes "redis_laws dec cl view" and "Redis_Get cl now c key = (Ok r, c')"
  shows "map_option ce_Value r = redis_live view dec now c key"
proof -
  obtain x where x: "cl_HGetAll cl now (rd_server c) (makeKey c key) = Ok x"
    using assms(2) redis_HGetAll_not_nil [OF assms(1), of now "rd_server c" "makeKey c key"]
    by (auto simp: Redis_Get_def split: if_splits outcome.splits redis_error.splits)
  show ?thesis using redis_HGetAll [OF assms(1) x] assms(2) x
    by (auto simp: Redis_Get_def redis_live_def redis_entry_def gm_get_map gm_map_Nil_iff Let_def split: if_splits option.split)
qed

lemma Redis_Set_state:
  assumes "Redis_Set cl now c key v ttl = (Ok (), c')"
  shows "rd_healthy c" "cl_Exec cl now (rd_server c) [HSet (makeKey c key) (redis_fields now v), Expire (makeKey c key) (redis_ttl c ttl)] = (None, rd_server c')"
    "rd_keyPrefix c' = rd_keyPrefix c" "rd_entries c' = wrap64 (rd_entries c + 1)" "rd_usedSize c' = wrap64 (rd_usedSize c + int (length v))"
    "rd_healthy c'" "rd_defaultTTL c' = rd_defaultTTL c"
  using assms by (auto simp: Redis_Set_def redis_counted_def split: if_splits prod.splits option.splits)

lemma makeKey_inj: "makeKey c a = makeKey c b \<longleftrightarrow> a = b"
  by (simp add: makeKey_def)

lemma Redis_Set_live:
  assumes "redis_laws dec cl view" and "Redis_Set cl now c key v ttl = (Ok (), c')"
    and "now \<le> now'" and "now' < now + whole_seconds (redis_ttl c ttl)"
  shows "redis_live view dec now' c' k = (if k = key then Some v else redis_live view dec now' c k)"
proof -
  note s = Redis_Set_state [OF assms(2)]
  note x = redis_Exec_set [OF assms(1) s(2) assms(3,4)]
  have m: "makeKey c' k = makeKey c k" for k by (simp add: makeKey_def s(3))
  show ?thesis
  proof (cases "k = key")
    case True
    have "gm_get (view now' (rd_server c') (makeKey c key)) ''value'' = Some (RText v)"
      using x(1) by (simp add: hash_over_def redis_fields_def)
    then have "view now' (rd_server c') (makeKey c key) \<noteq> []" by auto
    then show ?thesis using True \<open>gm_get _ _ = _\<close> by (simp add: redis_live_def m)
  next
    case False
    then show ?thesis using x(2) [of "makeKey c k"] by (simp add: redis_live_def m makeKey_inj)
  qed
qed

lemma Redis_Delete_state:
  assumes "Redis_Delete cl now c key = (Ok (), c')"
  shows "rd_healthy c" "cl_Del cl now (rd_server c) (makeKey c key) = (None, rd_server c')" "rd_keyPrefix c' = rd_keyPrefix c"
    "rd_entries c' = wrap64 (rd_entries c - 1)" "rd_healthy c'"
    "cl_HGetInt cl now (rd_server c) (makeKey c key) ''size'' = Ok n \<Longrightarrow> rd_usedSize c' = wrap64 (rd_usedSize c - n)"
  using assms by (auto simp: Redis_Delete_def Let_def split: if_splits prod.splits option.splits)

lemma Redis_Delete_live:
  assumes "redis_laws dec cl view" and "Redis_Delete cl now c key = (Ok (), c')"
  shows "redis_live view dec now' c' k = (if k = key then None else redis_live view dec now' c k)"
  using redis_Del [OF assms(1) Redis_Delete_state(2) [OF assms(2)]] Redis_Delete_state(3) [OF assms(2)]
  by (simp add: redis_live_def makeKey_def)

text \<open>Tiers whose names extend one another share keys: a colon in a tier name is not escaped.\<close>

lemma redis_key_alias:
  "rd_keyPrefix c = ''inference:c:t:'' \<Longrightarrow> rd_keyPrefix c' = ''inference:c:t:x:'' \<Longrightarrow> makeKey c ''x:k'' = makeKey c' ''k''"
  by (simp add: makeKey_def)

section \<open>A server in memory\<close>

text \<open>An instance of the client on which the laws hold: hashes with an optional expiry.\<close>

type_synonym mem_redis = "(string, (string, redis_value) gomap \<times> timestamp option) gomap"

definition mem_view :: "mem_redis redis_view" where
  "mem_view now d k =
    (case gm_get d k of None \<Rightarrow> [] | Some (fs, None) \<Rightarrow> fs | Some (fs, Some t) \<Rightarrow> if now < t then fs else [])"

fun mem_cmd :: "timestamp \<Rightarrow> redis_cmd \<Rightarrow> mem_redis \<Rightarrow> mem_redis" where
  "mem_cmd now (HSet k fs) d =
    (let old = mem_view now d k in gm_set k (fs @ old, if old = [] then None else (case gm_get d k of Some (x, t) \<Rightarrow> t | None \<Rightarrow> None)) d)"
| "mem_cmd now (Expire k ttl) d = (case gm_get d k of Some (fs, t) \<Rightarrow> gm_set k (fs, Some (now + whole_seconds ttl)) d | None \<Rightarrow> d)"

definition mem_client :: "(int \<Rightarrow> bytes) \<Rightarrow> mem_redis redis_client" where
  "mem_client dec = \<lparr>cl_Ping = (\<lambda>now d. None), cl_HGetAll = (\<lambda>now d k. Ok (gm_map (redis_text dec) (mem_view now d k))),
     cl_HGetInt = (\<lambda>now d k f. case gm_get (mem_view now d k) f of Some (RInt n) \<Rightarrow> Ok n | _ \<Rightarrow> Err RedisNil),
     cl_Reads = (\<lambda>now d ks. None), cl_Exec = (\<lambda>now d cmds. (None, fold (mem_cmd now) cmds d)),
     cl_Del = (\<lambda>now d k. (None, gm_del k d)), cl_Scan = (\<lambda>now d p. (map fst d, None)), cl_Info = (\<lambda>now d. Ok [])\<rparr>"

lemma mem_client_laws: "redis_laws dec (mem_client dec) mem_view"
proof -
  have "hset_expire_law (mem_client dec) mem_view"
    by (auto simp: hset_expire_law_def mem_client_def hash_over_def mem_view_def gm_get_set Let_def map_add_def split: option.split)
  moreover have "hset_new_law (mem_client dec) mem_view"
    unfolding hset_new_law_def by (simp add: mem_client_def mem_view_def gm_get_set Let_def)
  moreover have "del_law (mem_client dec) mem_view"
    by (auto simp: del_law_def mem_client_def mem_view_def gm_get_del split: option.split)
  moreover have "hget_law (mem_client dec) mem_view"
    by (auto simp: hget_law_def mem_client_def split: option.splits redis_value.splits)
  ultimately show ?thesis by (simp add: redis_laws_def hgetall_law_def mem_client_def)
qed

definition rd_demo :: "mem_redis RedisCache" where
  "rd_demo = \<lparr>rd_cacheName = ''c'', rd_tierName = ''t'', rd_maxSize = 100, rd_defaultTTL = 60000000000, rd_config = None,
     rd_keyPrefix = ''inference:c:t:'', rd_hits = 0, rd_misses = 0, rd_usedSize = 0, rd_entries = 0, rd_healthy = True, rd_server = [],
     rd_touches = []\<rparr>"

lemma is_ok_unit: "is_ok (fst (x :: (_, unit) outcome \<times> _)) \<Longrightarrow> x = (Ok (), snd x)"
  by (cases x) (auto simp: is_ok_iff)

lemma is_ok_pair: "is_ok (fst x) \<Longrightarrow> \<exists>r. x = (Ok r, snd x)"
  by (cases x) (auto simp: is_ok_iff)

section \<open>Properties\<close>

text \<open>
  C27. What the Redis tier returns: where Redis keeps its word, a \<open>Get\<close> that completes after a
  completed \<open>Set\<close> and within the whole seconds of the time to live returns the stored value for that
  key, and for any other key what it would have returned without the \<open>Set\<close>; and after a completed
  \<open>Delete\<close> the key is not found.
\<close>

theorem redis_get_after_set:
  assumes "redis_laws dec cl view" and "Redis_Set cl now c key v ttl = (Ok (), c1)"
    and "now \<le> now'" and "now' < now + whole_seconds (redis_ttl c ttl)" and "Redis_Get cl now' c1 k = (Ok r, c2)"
    and "Redis_Delete cl t c2 key = (Ok (), c3)" and "Redis_Get cl t' c3 key = (Ok r', c4)"
  shows "map_option ce_Value r = (if k = key then Some v else redis_live view dec now' c k) \<and> r' = None"
  using Redis_Get_live [OF assms(1,5)] Redis_Set_live [OF assms(1-4)] Redis_Get_live [OF assms(1,7)] Redis_Delete_live [OF assms(1,6)]
  by simp

theorem redis_get_after_set_witness:
  "\<exists>c1 c2 en. Redis_Set (mem_client (\<lambda>_. [])) 5 rd_demo ''k'' [1, 2] 0 = (Ok (), c1) \<and>
     Redis_Get (mem_client (\<lambda>_. [])) 6 c1 ''k'' = (Ok (Some en), c2) \<and> ce_Value en = [1, 2]"
proof -
  let ?cl = "mem_client (\<lambda>_. [])"
  let ?c1 = "snd (Redis_Set ?cl 5 rd_demo ''k'' [1, 2] 0)"
  let ?c2 = "snd (Redis_Get ?cl 6 ?c1 ''k'')"
  let ?c3 = "snd (Redis_Delete ?cl 7 ?c2 ''k'')"
  have ok: "is_ok (fst (Redis_Set ?cl 5 rd_demo ''k'' [1, 2] 0))" "is_ok (fst (Redis_Get ?cl 6 ?c1 ''k''))"
    "is_ok (fst (Redis_Delete ?cl 7 ?c2 ''k''))" "is_ok (fst (Redis_Get ?cl 8 ?c3 ''k''))"
    "6 < 5 + whole_seconds (redis_ttl rd_demo 0)" by code_simp+
  note s = is_ok_unit [OF ok(1)] and d = is_ok_unit [OF ok(3)]
  obtain r where g: "Redis_Get ?cl 6 ?c1 ''k'' = (Ok r, ?c2)" using is_ok_pair [OF ok(2)] by blast
  obtain r' where g': "Redis_Get ?cl 8 ?c3 ''k'' = (Ok r', snd (Redis_Get ?cl 8 ?c3 ''k''))" using is_ok_pair [OF ok(4)] by blast
  have "map_option ce_Value r = Some [1, 2]"
    using redis_get_after_set [OF mem_client_laws s _ ok(5) g d g'] by simp
  then obtain en where "r = Some en" "ce_Value en = [1, 2]" by auto
  with s g show ?thesis by blast
qed

text \<open>
  A read can bring a deleted key back: \<open>Get\<close> records the access in the background with an \<open>HSET\<close>,
  which creates the hash again when the key was deleted in between, without an expiry. From then on,
  for ever, a \<open>Get\<close> that completes is a hit with an empty value.
\<close>

theorem redis_resurrects:
  assumes "redis_laws dec cl view" and "Redis_Delete cl now c key = (Ok (), c1)"
    and "fst (cl_Exec cl t (rd_server c1) [HSet (makeKey c key) [(''accessed_at'', RInt (unix_time t))]]) = None"
    and "t \<le> now'" and "Redis_Get cl now' (redis_touch cl t (makeKey c key) c1) key = (Ok r, c2)"
  shows "\<exists>en. r = Some en \<and> ce_Value en = []"
proof -
  let ?c = "redis_touch cl t (makeKey c key) c1"
  have m: "makeKey ?c key = makeKey c key" using Redis_Delete_state(3) [OF assms(2)] by (simp add: makeKey_def redis_touch_def)
  have "view t (rd_server c1) (makeKey c key) = []" using redis_Del [OF assms(1) Redis_Delete_state(2) [OF assms(2)]] by simp
  moreover have "cl_Exec cl t (rd_server c1) [HSet (makeKey c key) [(''accessed_at'', RInt (unix_time t))]] = (None, rd_server ?c)"
    using assms(3) by (simp add: redis_touch_def prod_eq_iff)
  ultimately have "view now' (rd_server ?c) (makeKey c key) = [(''accessed_at'', RInt (unix_time t))]"
    using redis_Exec_new [OF assms(1)] assms(4) by blast
  then have "redis_live view dec now' ?c key = Some []" by (simp add: redis_live_def m)
  then show ?thesis using Redis_Get_live [OF assms(1,5)] by (cases r) auto
qed

theorem redis_resurrects_witness:
  "\<exists>r c2 en. Redis_Get (mem_client (\<lambda>_. [])) 1000000000000000000 (redis_touch (mem_client (\<lambda>_. [])) 8 ''inference:c:t:k''
     (snd (Redis_Delete (mem_client (\<lambda>_. [])) 7 rd_demo ''k''))) ''k'' = (Ok r, c2) \<and> r = Some en \<and> ce_Value en = []"
proof -
  let ?cl = "mem_client (\<lambda>_. [])"
  let ?c1 = "snd (Redis_Delete ?cl 7 rd_demo ''k'')"
  let ?c = "redis_touch ?cl 8 (makeKey rd_demo ''k'') ?c1"
  have ok: "is_ok (fst (Redis_Delete ?cl 7 rd_demo ''k''))" "is_ok (fst (Redis_Get ?cl 1000000000000000000 ?c ''k''))" by code_simp+
  note d = is_ok_unit [OF ok(1)]
  obtain r where g: "Redis_Get ?cl 1000000000000000000 ?c ''k'' = (Ok r, snd (Redis_Get ?cl 1000000000000000000 ?c ''k''))"
    using is_ok_pair [OF ok(2)] by blast
  have x: "fst (cl_Exec ?cl 8 (rd_server ?c1) [HSet (makeKey rd_demo ''k'') [(''accessed_at'', RInt (unix_time 8))]]) = None"
    by (simp add: mem_client_def)
  have "\<exists>en. r = Some en \<and> ce_Value en = []" by (rule redis_resurrects [OF mem_client_laws d x _ g]) simp
  moreover have "makeKey rd_demo ''k'' = ''inference:c:t:k''" by (simp add: makeKey_def rd_demo_def)
  ultimately show ?thesis using g by (simp only:) blast
qed

text \<open>
  The counters of the Redis tier count writes and not entries: storing a key twice and deleting
  it leaves the entry counter one too high and the used size by the length of the first value,
  though the key is gone.
\<close>

theorem redis_overcounts:
  assumes "redis_laws dec cl view" and "Redis_Set cl t1 c key v ttl = (Ok (), c1)" and "Redis_Set cl t2 c1 key w ttl = (Ok (), c2)"
    and "t2 \<le> t3" and "t3 < t2 + whole_seconds (redis_ttl c ttl)"
    and "cl_HGetInt cl t3 (rd_server c2) (makeKey c key) ''size'' = Ok n" and "Redis_Delete cl t3 c2 key = (Ok (), c3)"
  shows "rd_entries c3 = wrap64 (rd_entries c + 1) \<and> rd_usedSize c3 = wrap64 (rd_usedSize c + int (length v)) \<and>
    redis_live view dec t4 c3 key = None"
proof -
  note s1 = Redis_Set_state [OF assms(2)] and s2 = Redis_Set_state [OF assms(3)]
  have m: "makeKey c1 key = makeKey c key" "makeKey c2 key = makeKey c key" by (simp_all add: makeKey_def s1(3) s2(3))
  have ttl: "redis_ttl c1 ttl = redis_ttl c ttl" by (simp add: redis_ttl_def s1(7))
  have "gm_get (view t3 (rd_server c2) (makeKey c key)) ''size'' = Some (RInt (int (length w)))"
    using redis_Exec_set(1) [OF assms(1) s2(2) assms(4)] assms(5) ttl by (simp add: hash_over_def redis_fields_def m)
  then have "n = int (length w)" using redis_HGetInt [OF assms(1,6)] by simp
  then have u: "rd_usedSize c3 = wrap64 (rd_usedSize c2 - int (length w))"
    using Redis_Delete_state(6) [OF assms(7)] assms(6) by (simp add: m)
  have "wrap64 (wrap64 (wrap64 (rd_entries c + 1) + 1) - 1) = wrap64 (rd_entries c + 1)"
    "wrap64 (wrap64 (wrap64 (rd_usedSize c + int (length v)) + int (length w)) - int (length w)) = wrap64 (rd_usedSize c + int (length v))"
    by (simp_all add: ac_simps)
  then show ?thesis using Redis_Delete_state(4) [OF assms(7)] s1(4,5) s2(4,5) u Redis_Delete_live [OF assms(1,7), of t4 key] by simp
qed

theorem redis_overcounts_witness:
  "\<exists>c3. rd_entries c3 = 1 \<and> rd_usedSize c3 = 2 \<and>
     Redis_Delete (mem_client (\<lambda>_. [])) 7 (snd (Redis_Set (mem_client (\<lambda>_. [])) 6 (snd (Redis_Set (mem_client (\<lambda>_. [])) 5 rd_demo ''k'' [1, 2] 0))
       ''k'' [3] 0)) ''k'' = (Ok (), c3)"
proof -
  let ?cl = "mem_client (\<lambda>_. [])"
  let ?c1 = "snd (Redis_Set ?cl 5 rd_demo ''k'' [1, 2] 0)"
  let ?c2 = "snd (Redis_Set ?cl 6 ?c1 ''k'' [3] 0)"
  let ?c3 = "snd (Redis_Delete ?cl 7 ?c2 ''k'')"
  have ok: "is_ok (fst (Redis_Set ?cl 5 rd_demo ''k'' [1, 2] 0))" "is_ok (fst (Redis_Set ?cl 6 ?c1 ''k'' [3] 0))"
    "is_ok (fst (Redis_Delete ?cl 7 ?c2 ''k''))" "is_ok (cl_HGetInt ?cl 7 (rd_server ?c2) (makeKey rd_demo ''k'') ''size'')"
    "7 < 6 + whole_seconds (redis_ttl rd_demo 0)" by code_simp+
  note s = is_ok_unit [OF ok(1)] is_ok_unit [OF ok(2)] is_ok_unit [OF ok(3)]
  obtain n where n: "cl_HGetInt ?cl 7 (rd_server ?c2) (makeKey rd_demo ''k'') ''size'' = Ok n" using ok(4) by (auto simp: is_ok_iff)
  have "rd_entries rd_demo = 0" "rd_usedSize rd_demo = 0" by (simp_all add: rd_demo_def)
  with redis_overcounts [OF mem_client_laws s(1,2) _ ok(5) n s(3)] have "rd_entries ?c3 = 1 \<and> rd_usedSize ?c3 = 2"
    by (simp add: wrap64_def)
  with s(3) show ?thesis by blast
qed

section \<open>Pipelines\<close>

text \<open>What Redis documents of a pipeline: its commands are run in order, so a pipeline that is cut in two does the same.\<close>

definition pipeline_law :: "'d redis_client \<Rightarrow> bool" where
  "pipeline_law cl \<longleftrightarrow> (\<forall>now d. cl_Exec cl now d [] = (None, d)) \<and>
     (\<forall>now d xs ys d''. cl_Exec cl now d (xs @ ys) = (None, d'') \<longleftrightarrow>
        (\<exists>d'. cl_Exec cl now d xs = (None, d') \<and> cl_Exec cl now d' ys = (None, d'')))"

text \<open>The reference: one \<open>Set\<close> after the other, up to the first that fails.\<close>

fun set_each :: "'d redis_client \<Rightarrow> timestamp \<Rightarrow> (string, bytes) gomap \<Rightarrow> duration \<Rightarrow> 'd RedisCache \<Rightarrow> (cache_error, unit) outcome \<times> 'd RedisCache" where
  "set_each cl now [] ttl c = (Ok (), c)"
| "set_each cl now ((key, value) # entries) ttl c =
    (case Redis_Set cl now c key value ttl of
       (Ok _, c') \<Rightarrow> set_each cl now entries ttl c'
     | (r, c') \<Rightarrow> (r, c'))"

definition set_cmds :: "timestamp \<Rightarrow> 'd RedisCache \<Rightarrow> duration \<Rightarrow> (string, bytes) gomap \<Rightarrow> redis_cmd list" where
  "set_cmds now c ttl entries = concat (map (\<lambda>(key, value).
     [HSet (makeKey c key) (redis_fields now value), Expire (makeKey c key) (redis_ttl c ttl)]) entries)"

lemma set_cmds_cong: "rd_keyPrefix c' = rd_keyPrefix c \<Longrightarrow> rd_defaultTTL c' = rd_defaultTTL c \<Longrightarrow> set_cmds now c' ttl es = set_cmds now c ttl es"
  by (simp add: set_cmds_def makeKey_def redis_ttl_def)

definition counted_all :: "(string, bytes) gomap \<Rightarrow> 'd RedisCache \<Rightarrow> 'd RedisCache" where
  "counted_all es c = fold (\<lambda>(key, value). redis_counted value) es c"

lemma counted_all_state:
  "wrap64 (rd_entries c) = rd_entries c \<Longrightarrow> wrap64 (rd_usedSize c) = rd_usedSize c \<Longrightarrow>
    counted_all es c = c\<lparr>rd_entries := wrap64 (rd_entries c + int (length es)),
      rd_usedSize := wrap64 (rd_usedSize c + sum_list (map (\<lambda>(k, v). int (length v)) es))\<rparr>"
proof (induction es arbitrary: c)
  case (Cons kv es)
  obtain k v where kv: "kv = (k, v)" by fastforce
  have "counted_all (kv # es) c = counted_all es (redis_counted v c)" by (simp add: counted_all_def kv)
  also have "\<dots> = (redis_counted v c)\<lparr>rd_entries := wrap64 (rd_entries (redis_counted v c) + int (length es)),
      rd_usedSize := wrap64 (rd_usedSize (redis_counted v c) + sum_list (map (\<lambda>(k, v). int (length v)) es))\<rparr>"
    by (rule Cons.IH) (simp_all add: redis_counted_def)
  finally show ?case by (simp add: redis_counted_def kv ac_simps)
qed (simp add: counted_all_def)

lemma redis_counted_server: "(redis_counted v c)\<lparr>rd_server := d\<rparr> = redis_counted v (c\<lparr>rd_server := d\<rparr>)"
  by (cases c) (simp add: redis_counted_def)

lemma counted_all_perm:
  assumes "wrap64 (rd_entries c) = rd_entries c" and "wrap64 (rd_usedSize c) = rd_usedSize c" and "range_ok ord"
  shows "counted_all (ord es) c = counted_all es c"
proof -
  have p: "mset (ord es) = mset es" using assms(3) by (simp add: range_ok_def)
  then have "mset (map (\<lambda>(k, v). int (length v)) (ord es)) = mset (map (\<lambda>(k, v). int (length v)) es)" by simp
  then have "sum_list (map (\<lambda>(k, v). int (length v)) (ord es)) = sum_list (map (\<lambda>(k, v). int (length v)) es)"
    by (metis sum_mset_sum_list)
  then show ?thesis using assms range_ok_length [OF assms(3), of es] by (simp add: counted_all_state)
qed

lemma set_each_Ok:
  assumes "pipeline_law cl"
  shows "set_each cl now es ttl c = (Ok (), c') \<longleftrightarrow>
    (es = [] \<or> rd_healthy c) \<and> (\<exists>d. cl_Exec cl now (rd_server c) (set_cmds now c ttl es) = (None, d) \<and> c' = counted_all es (c\<lparr>rd_server := d\<rparr>))"
proof (induction es arbitrary: c)
  case Nil
  have "cl_Exec cl now d [] = (None, d)" for d using assms by (simp add: pipeline_law_def)
  then show ?case by (auto simp: set_cmds_def counted_all_def)
next
  case (Cons kv es)
  obtain k v where kv: "kv = (k, v)" by fastforce
  let ?cmd = "[HSet (makeKey c k) (redis_fields now v), Expire (makeKey c k) (redis_ttl c ttl)]"
  have cmds: "set_cmds now c ttl (kv # es) = ?cmd @ set_cmds now c ttl es" by (simp add: set_cmds_def kv)
  have split: "cl_Exec cl now (rd_server c) (set_cmds now c ttl ((k, v) # es)) = (None, d) \<longleftrightarrow>
      (\<exists>d'. cl_Exec cl now (rd_server c) ?cmd = (None, d') \<and> cl_Exec cl now d' (set_cmds now c ttl es) = (None, d))" for d
    unfolding cmds [unfolded kv] using assms unfolding pipeline_law_def by blast
  obtain r d' where x: "cl_Exec cl now (rd_server c) ?cmd = (r, d')" by fastforce
  show ?case
  proof (cases "rd_healthy c \<and> r = None")
    case True
    let ?c = "redis_counted v (c\<lparr>rd_server := d'\<rparr>)"
    have "Redis_Set cl now c k v ttl = (Ok (), ?c)" using True x by (simp add: Redis_Set_def)
    moreover have "set_cmds now ?c ttl es = set_cmds now c ttl es" by (rule set_cmds_cong) (simp_all add: redis_counted_def)
    moreover have "rd_server ?c = d'" "rd_healthy ?c" using True by (simp_all add: redis_counted_def)
    moreover have "counted_all es (?c\<lparr>rd_server := d\<rparr>) = counted_all (kv # es) (c\<lparr>rd_server := d\<rparr>)" for d
      by (simp add: counted_all_def kv redis_counted_server)
    ultimately show ?thesis using Cons.IH [of ?c] True x by (simp add: kv split)
  next
    case False
    then show ?thesis using x by (auto simp: kv Redis_Set_def split split: option.splits)
  qed
qed

text \<open>
  C23. \<open>SetMulti\<close> is the same as setting the entries one after the other, in the order in which its
  loop visits them: it succeeds exactly when they all do, with the same counters and the same
  contents of the server; only on a tier that is down, and with nothing to store, does it report
  an error where the loop would not.
\<close>

theorem redis_set_multi:
  assumes "pipeline_law cl" and "range_ok ord" and "entries \<noteq> []"
    and "wrap64 (rd_entries c) = rd_entries c" and "wrap64 (rd_usedSize c) = rd_usedSize c"
  shows "SetMulti cl now ord c entries ttl = (Ok (), c') \<longleftrightarrow> set_each cl now (ord entries) ttl c = (Ok (), c')"
proof -
  have ne: "ord entries \<noteq> []" using assms(3) range_ok_length [OF assms(2), of entries] by auto
  have "SetMulti cl now ord c entries ttl = (Ok (), c') \<longleftrightarrow> rd_healthy c \<and>
      (\<exists>d. cl_Exec cl now (rd_server c) (set_cmds now c ttl (ord entries)) = (None, d) \<and> c' = counted_all entries (c\<lparr>rd_server := d\<rparr>))"
    by (auto simp: SetMulti_def set_cmds_def counted_all_def split: prod.split option.split)
  moreover have "counted_all (ord entries) (c\<lparr>rd_server := d\<rparr>) = counted_all entries (c\<lparr>rd_server := d\<rparr>)" for d
    by (rule counted_all_perm) (use assms in simp_all)
  ultimately show ?thesis using ne by (simp add: set_each_Ok [OF assms(1)])
qed

lemma mem_client_pipeline: "pipeline_law (mem_client dec)"
  by (simp add: pipeline_law_def mem_client_def)

theorem redis_set_multi_witness:
  "\<exists>c'. SetMulti (mem_client (\<lambda>_. [])) 5 rev rd_demo [(''a'', [1]), (''b'', [2, 3])] 0 = (Ok (), c') \<and>
     set_each (mem_client (\<lambda>_. [])) 5 [(''b'', [2, 3]), (''a'', [1])] 0 rd_demo = (Ok (), c')"
proof -
  let ?es = "[(''a'', [1]), (''b'', [2, 3])] :: (string, bytes) gomap"
  have w: "wrap64 (rd_entries rd_demo) = rd_entries rd_demo" "wrap64 (rd_usedSize rd_demo) = rd_usedSize rd_demo" by (simp_all add: rd_demo_def)
  have ok: "is_ok (fst (SetMulti (mem_client (\<lambda>_. [])) 5 rev rd_demo ?es 0))" by code_simp
  note s = is_ok_unit [OF ok]
  then have "set_each (mem_client (\<lambda>_. [])) 5 (rev ?es) 0 rd_demo = (Ok (), snd (SetMulti (mem_client (\<lambda>_. [])) 5 rev rd_demo ?es 0))"
    using redis_set_multi [OF mem_client_pipeline range_ok_rev _ w, where entries = ?es and now = 5 and ttl = 0] by blast
  with s show ?thesis by auto
qed

end
