(* ===== verification/Spec2Isabelle.thy ===== *)
theory Spec2Isabelle
  imports Scheme CacheTasks Background RedisCache
begin

text \<open>
  A verification development for the inference operator, a Kubernetes operator in Go that
  shares GPUs among inference services and keeps multi-tier caches for them.

  \<^bold>\<open>The program and its parts.\<close> Three reconcilers (\<open>internal/controller\<close>) act on the custom resources
  \<open>InferenceService\<close>, \<open>GPUPool\<close> and \<open>TokenCache\<close> (\<open>api/v1alpha1\<close>). They call the GPU manager
  (\<open>internal/gpu/manager.go\<close>), which dispatches an allocation to its MIG, MPS or time-slice
  sub-manager (\<open>mig.go\<close>, \<open>mps.go\<close>, \<open>timeslice.go\<close>) or hands out whole GPUs; the cache manager
  (\<open>internal/cache/manager.go\<close>), which drives prefix, local and Redis tiers (\<open>prefix.go\<close>, \<open>local.go\<close>,
  \<open>redis.go\<close>); and the backends (\<open>internal/backends\<close>), which render deployments and services.

  \<^bold>\<open>The theories.\<close>
  \<^item> \<open>Prelude\<close>: outcomes (value, error, panic, blocked), machine integers with wrap-around written
    out, decimal printing, Go maps as association lists and the arbitrary order of \<open>range\<close>, heaps
    of shared objects and indexes into them, with the lemmas all components use.
  \<^item> \<open>GoFloat\<close>: \<open>float64\<close> as exact rationals rounded to 53 bits after every operation.
  \<^item> \<open>FileSystem\<close>: paths, \<open>filepath.Join\<close> with its cleaning, files and directories, and the \<open>os\<close> calls of
    the local tier, each of which may fail.
  \<^item> \<open>ApiTypes\<close>, \<open>InferenceTypes\<close>, \<open>GpuTypes\<close>, \<open>CacheTypes\<close>: the structs of \<open>api/v1alpha1\<close>, of the GPU package
    and of the cache package, field by field, as records, with the fields of the Kubernetes types
    that the program sets.
  \<^item> \<open>SharingSpec\<close>: the contract of a sharing sub-manager as the locale \<open>sharing_manager\<close>: what a service
    holds, counted over all objects the manager has created, and when the manager's index leads to
    all of it; \<open>Mig\<close>, \<open>Mps\<close> and \<open>Timeslice\<close> interpret it on the three models. \<open>CacheTypes\<close> has the contract of a cache tier: \<open>cache_tier\<close>,
    extended to \<open>memory_tier\<close>, which \<open>PrefixCacheInv\<close> interprets on the prefix cache, and the weaker
    \<open>keyed_tier\<close> for a tier that only treats some keys right, which \<open>LocalCacheInv\<close> interprets on the local
    tier. The locale \<open>tier_client\<close> in \<open>CacheManager\<close> proves the manager's lemmas from the contract alone.
    \<open>Backend\<close> has the contract of a backend, interpreted by \<open>Vllm\<close>, \<open>Triton\<close> and \<open>TensorRT\<close>.
  \<^item> \<open>Mig\<close>, \<open>Mps\<close>, \<open>Timeslice\<close>: each whole file of the same name, one definition per method (\<open>MIG_Allocate\<close>
    is \<open>MIGManager.Allocate\<close> and so on); the objects that the code reaches through two maps are
    heap objects, the others values. An invariant per manager (\<open>mig_ok\<close>, \<open>mps_ok\<close>, \<open>ts_ok\<close>) is kept
    by every operation and holds in every reachable state (\<open>mig_reachable\<close> and its like).
  \<^item> \<open>GpuManager\<close>: \<open>manager.go\<close>, on top of the three.
  \<^item> \<open>PrefixCache\<close>, \<open>PrefixCacheInv\<close>: \<open>prefix.go\<close> and its invariant \<open>pc_ok\<close>. The mutex is not a field: an
    operation is one critical section after the other, the reachable states (\<open>pc_reachable\<close>) also
    interleave the sections of \<open>Get\<close> with other calls, a lock that is taken twice is the outcome
    \<open>Blocked\<close>, and a state after \<open>Blocked\<close> or \<open>Panic\<close> inside a section is one whose lock stays taken.
  \<^item> \<open>LocalCache\<close>, \<open>LocalCacheInv\<close>: \<open>local.go\<close> over the file system, its invariant and reachable states,
    through restarts, failing I/O and interleaved sections of \<open>Get\<close> and \<open>Set\<close>. Compression and the gob encoding of the index are a \<open>codec\<close>
    whose round trips are hypotheses.
  \<^item> \<open>RedisCache\<close>: \<open>redis.go\<close>. The client and the server behind it are a record of calls with a state;
    what Redis documents of \<open>HSET\<close>, \<open>EXPIRE\<close>, \<open>DEL\<close> and pipelines are named hypotheses, which hold of an
    instance in memory.
  \<^item> \<open>CacheManager\<close>: \<open>manager.go\<close> of the cache package, parametric in the tier interface.
  \<^item> \<open>Backend\<close>, \<open>Vllm\<close>, \<open>Triton\<close>, \<open>TensorRT\<close>, \<open>Backends\<close>: \<open>interface.go\<close>, \<open>vllm.go\<close>, \<open>triton.go\<close>, \<open>tensorrt.go\<close>, and the
    factory that \<open>cmd/operator/main.go\<close> fills, with the rendered arguments, environments, resources,
    probes and scripts.
  \<^item> \<open>Kube\<close>, \<open>GPUPoolController\<close>, \<open>TokenCacheController\<close>, \<open>InferenceServiceController\<close>: the reconcilers. The API
    server is outside the program: what it answers is part of a reconciliation's environment, and
    what the program sends to it is the list of calls that the reconciliation yields beside its
    result and the new state of the managers.
  \<^item> \<open>Resources\<close>: the custom resources as the API server keeps them, what it may do with the calls of a
    reconciliation and what users may do to an object, as relations, and the contract of a
    reconciler that owns a finalizer, the locale \<open>reconciler\<close>. Each of the three controllers interprets it.
  \<^item> \<open>Operator\<close>: \<open>main.go\<close>. \<open>operator_main\<close> is the start-up, with what controller-runtime returns as an
    argument; \<open>operator_step\<close> are the steps of the running operator: users, the three reconcilers on
    the shared managers, the scheduler, the tasks and tiers of the caches, and restarts. A
    reconciliation is one atomic step that reads the current object. Users neither take the
    operator's finalizer off a resource nor write its status.
  \<^item> \<open>CacheTasks\<close>: what the goroutines of the cache manager, warmup and promotion, do when they run.
  \<^item> \<open>Background\<close>: the loops on tickers (discovery, MPS monitor, eviction check, local cleanup) as
    functions of the events they receive.
  \<^item> \<open>Scheme\<close>: the registration of the types and the kinds that the controllers watch.

  \<^bold>\<open>What the lemmas show.\<close> Functional behaviour of allocation and release on every branch, with
  exact counts; that exclusive grants never overlap; that limits (48 MPS clients, 10 time slots)
  hold in every reachable state; how a time interval is divided and that the scheduler reaches
  every slot; that the prefix cache refines a map with expiry, that the counters of the prefix and
  of the local tier are exact as long as no two calls remove the same looked-up entry, that eviction is
  by least recent use, takes no more than it has to and ends, that the local tier
  survives a restart, that Redis returns what was stored and that writing many keys is the same as
  writing one after the other; that the cache manager reads its own writes; that what any backend
  renders fits together and that the reconciler creates objects whose selectors match; that a
  service that fails a check costs nothing; that status conditions stay well formed. Of the whole
  operator: an invariant over all its reachable states, which ties what the managers have
  registered to the resources that the finalizers keep; that two accepted reconciliations bring a
  pool up and one lets a deleted pool go; and that only MIG services are ever deployed. Where the
  code departs from what it means to do, the departure is a theorem: GPUs that every reconciliation
  allocates again and that a deletion leaves held, caches that every reconciliation empties, a pool
  that can be deleted in use, a deployment that is updated again and again, colliding identifiers, releases and
  rollbacks that miss what another pool has shadowed, time slots of negative length, counters that two
  reads of an expired entry decrement twice, a read that blocks on its own lock, an eviction that never ends, a key that a read brings back, a
  deleted key that a late promotion brings back, caches of one name in two namespaces that are one
  cache to the manager, a start-up that panics,
  stale reads under write-around, and that no request but MIG can succeed as long as discovery
  adds no GPU.

  \<^bold>\<open>Bounds and loops.\<close> Nearly every loop of the modelled code is structural recursion over a list
  or over the requested count. The one that need not end is the eviction loop of the local tier,
  \<open>evict_rounds\<close>: it is a \<open>partial_function\<close> to an option, and it is proved to return where the empty
  string is no key, and not to return in a case where it is one. Endless loops on tickers and
  channels are functions of the events they receive, or one definition per turn. Time stamps and durations are nanoseconds; sums of
  durations and counters wrap at 64 bits, priorities at 32 bits.

  \<^bold>\<open>Not modelled.\<close> The command line flags of \<open>cmd/operator/main.go\<close>, which only reach the options of
  controller-runtime; the generated deep copies, which are the identity on values; the unused
  \<open>hashKey\<close> of the Redis tier; Prometheus histograms; log output. The goroutines that a replaced tier
  leaves behind are not counted. Reconcilers that read an outdated object from the cache of the
  client are not part of the steps of \<open>Operator\<close>, although a single reconciliation is modelled for
  whatever object it is given. Third-party code is a parameter: the Kubernetes API and \<open>DeepEqual\<close>,
  controller-runtime, HTTP and JSON decoding, Redis, compression and gob, \<open>fmt.Sscanf\<close> of the
  oversubscription ratio, SHA-256, and the implementation's choice for an unrepresentable float
  conversion.
\<close>

section \<open>Release across the sharing managers\<close>

text \<open>
  C10. A release is complete and lasting, for MIG, for MPS and for time-slicing: a service whose units the
  index of its sharing manager leads to at the time of its release holds nothing afterwards, no instance,
  no client and no slot of any object that the manager has created, whichever table it is in; and it
  keeps holding nothing through any later sequence of allocations and releases in which it makes no
  request itself. Time-slicing has no index and needs no such hypothesis. Where another pool has
  taken over the identifier of an instance or the GPU of a daemon, the index does not lead to it and a
  release misses it (\<open>mig_release_misses\<close>, \<open>mps_release_misses\<close>).
\<close>

theorem sharing_released_stays_released:
  assumes "mig_reachable mig" and "mig_indexed mig svc ns" and "mps_reachable mps" and "mps_indexed mps svc ns" and "ts_reachable ts"
    and "\<forall>c \<in> set cs1. sh_env_ok range_ok c \<and> \<not> sh_requests svc ns c"
    and "\<forall>c \<in> set cs2. sh_env_ok mps_env_ok c \<and> \<not> sh_requests svc ns c"
    and "\<forall>c \<in> set cs3. sh_env_ok ts_env_ok c \<and> \<not> sh_requests svc ns c"
  shows "mig_objects_held (sh_run (\<lambda>ord m req pool gpus. MIG_Allocate ord m req pool) MIG_Release (MIG_Release mig svc ns) cs1) svc ns = 0 \<and>
    mps_holds (sh_run MPS_Allocate MPS_Release (MPS_Release mps svc ns) cs2) svc ns = 0 \<and>
    ts_holds (sh_run TS_Allocate (TS_Release impl) (TS_Release impl ts svc ns) cs3) svc ns = 0"
  using mig.released_stays_released [OF mig_reachable_ok [OF assms(1)] assms(2), of cs1]
    mps.released_stays_released [OF mps_reachable_ok [OF assms(3)] assms(4), of cs2]
    ts.released_stays_released [OF ts_reachable_ok [OF assms(5)], of cs3 svc ns impl] assms(6-8)
  by blast

theorem sharing_released_stays_released_witness:
  "mig_objects_held (sh_run (\<lambda>ord m req pool gpus. MIG_Allocate ord m req pool) MIG_Release
       (MIG_Release (snd (MIG_Allocate rev mig_demo (mig_demo_req ''a'' 2) mig_demo_info)) ''a'' ''ns'')
       [ShAllocate rev (mig_demo_req ''b'' 2) mig_demo_info [], ShRelease ''b'' ''ns'']) ''a'' ''ns'' = 0 \<and>
   mps_holds (sh_run MPS_Allocate MPS_Release (MPS_Release mps_demo2 ''a'' ''ns'') [ShRelease ''b'' ''ns'']) ''a'' ''ns'' = 0 \<and>
   ts_holds (sh_run TS_Allocate (TS_Release (\<lambda>_. 0)) (TS_Release (\<lambda>_. 0) (ts_demo_alloc ''a'' 2 (ts_demo 100)) ''a'' ''ns'')
     [ShRelease ''b'' ''ns'']) ''a'' ''ns'' = 0"
proof (rule sharing_released_stays_released [OF _ _ mps_demo2_reachable _ ts_demo_alloc_reachable [OF ts_demo_reachable]])
  show "mig_reachable (snd (MIG_Allocate rev mig_demo (mig_demo_req ''a'' 2) mig_demo_info))"
    by (rule mig_reachable.step [OF mig_demo_reachable mig_step.allocate]) simp
  show "mig_indexed (snd (MIG_Allocate rev mig_demo (mig_demo_req ''a'' 2) mig_demo_info)) ''a'' ''ns''" by code_simp
  show "mps_indexed mps_demo2 ''a'' ''ns''" by code_simp
qed (simp_all add: mig_demo_req_def)

section \<open>Status conditions across the reconcilers\<close>

text \<open>
  C37. Conditions stay well formed: whatever a reconciliation of any of the three resources does, every
  status it writes has at most one condition of each type if the resource it read had.
\<close>

theorem conditions_well_formed:
  assumes "ie_get e1 = Found svc" and "conds_ok (ist_Conditions (is_Status svc))"
    and "CallStatusUpdate svc' \<in> set (fst (snd (Inference_Reconcile e1 f cm m1)))"
    and "gpe_get e2 = Found pool" and "conds_ok (gst_Conditions (gp_Status pool))"
    and "CallStatusUpdate pool' \<in> set (fst (snd (GPUPool_Reconcile e2 m2)))"
    and "tce_get e3 = Found tc" and "conds_ok (tst_Conditions (tc_Status tc))"
    and "CallStatusUpdate tc' \<in> set (fst (snd (TokenCache_Reconcile e3 m3)))"
  shows "conds_ok (ist_Conditions (is_Status svc')) \<and> conds_ok (gst_Conditions (gp_Status pool')) \<and> conds_ok (tst_Conditions (tc_Status tc'))"
  using Inference_conditions [OF assms(1-3)] GPUPool_conditions [OF assms(4-6)] TokenCache_conditions [OF assms(7-9)] by blast

theorem conditions_well_formed_witness:
  "\<exists>svc' pool' tc'. conds_ok (ist_Conditions (is_Status svc')) \<and> conds_ok (gst_Conditions (gp_Status pool')) \<and> conds_ok (tst_Conditions (tc_Status tc')) \<and>
    CallStatusUpdate svc' \<in> set (fst (snd (Inference_Reconcile (is_demo_env (is_demo ''onnx'' ''mig'' None) (\<lambda>x. x) NotFound NotFound) operator_factory
      (NewCacheManager :: PrefixCache CacheManager) gm_mig))) \<and>
    CallStatusUpdate pool' \<in> set (fst (snd (GPUPool_Reconcile (gp_demo_env gp_demo_pool) gm_mig))) \<and>
    CallStatusUpdate tc' \<in> set (fst (snd (TokenCache_Reconcile (tc_demo_env (tc_demo []) NotFound None) (NewCacheManager :: PrefixCache CacheManager))))"
proof -
  let ?svc = "is_demo ''onnx'' ''mig'' None" and ?tc = "tc_demo []"
  let ?e1 = "is_demo_env ?svc (\<lambda>x. x) NotFound NotFound" and ?e2 = "gp_demo_env gp_demo_pool" and ?e3 = "tc_demo_env ?tc NotFound None"
  have g: "ie_get ?e1 = Found ?svc" "gpe_get ?e2 = Found gp_demo_pool" "tce_get ?e3 = Found ?tc"
    by (simp_all add: is_demo_env_def gp_demo_env_def tc_demo_env_def)
  have c: "conds_ok (ist_Conditions (is_Status ?svc))" "conds_ok (gst_Conditions (gp_Status gp_demo_pool))" "conds_ok (tst_Conditions (tc_Status ?tc))"
    by code_simp+
  have r: "Inference_validateSpec ?svc = Ok ()" "Factory_Get operator_factory (iss_Backend (is_Spec ?svc)) = None"
    "om_DeletionTimestamp (is_Meta ?svc) = None" "ContainsFinalizer (is_Meta ?svc) inferenceServiceFinalizer" by code_simp+
  obtain svc' where s: "CallStatusUpdate svc' \<in> set (fst (snd (Inference_Reconcile ?e1 operator_factory (NewCacheManager :: PrefixCache CacheManager) gm_mig)))"
    using g(1) r by (simp add: Inference_Reconcile_def with_manager_def Inference_updateStatusWithError_def Let_def)
  have p: "om_DeletionTimestamp (gp_Meta gp_demo_pool) = None" "ContainsFinalizer (gp_Meta gp_demo_pool) gpuPoolFinalizer"
    "GPUPool_validateSpec gp_demo_pool = Ok ()" by code_simp+
  have reg: "RegisterPool (gpe_scan ?e2) gm_mig gp_demo_pool = (Ok (), snd (RegisterPool (gpe_scan ?e2) gm_mig gp_demo_pool))" by code_simp
  obtain pool' where pool: "CallStatusUpdate pool' \<in> set (fst (snd (GPUPool_Reconcile ?e2 gm_mig)))"
    using Reconcile_registers [OF g(2) p reg] by simp
  have t: "om_DeletionTimestamp (tc_Meta ?tc) = None" "ContainsFinalizer (tc_Meta ?tc) tokenCacheFinalizer"
    "TokenCache_validateSpec ?tc = Err ''at least one cache tier is required''" by code_simp+
  obtain tc' where tc: "CallStatusUpdate tc' \<in> set (fst (snd (TokenCache_Reconcile ?e3 (NewCacheManager :: PrefixCache CacheManager))))"
    using g(3) t by (simp add: TokenCache_Reconcile_def TokenCache_updateStatusWithError_def Let_def)
  from conditions_well_formed [OF g(1) c(1) s g(2) c(2) pool g(3) c(3) tc] s pool tc show ?thesis by blast
qed

end
